theory Spec2Isabelle
  imports Complex_Main "HOL-Library.Word"
begin

section \<open>Mandelbrot set calculation and rendering utilities\<close>

text \<open>
  A shallow embedding of the module \<^verbatim>\<open>mandelbrot.ts\<close>. Every function of the module
  is a pure function of its arguments; the only mutation is the pixel buffer that
  \<^verbatim>\<open>renderMandelbrot\<close> fills, which is threaded through the two loops as a list.

  Numbers. A TypeScript \<^verbatim>\<open>number\<close> is an IEEE-754 binary64 value, and that is what
  the embedding computes with: the type \<open>double\<close> has the finite values, the negative
  zero, the two infinities and NaN, and each operator of the source is the exact
  operation on the reals followed by the rounding of the format (to the nearest, a tie to
  the even significand, 53 bits, gradual underflow below \<open>2^-1022\<close>, overflow to an
  infinity from \<open>2^1024\<close> on), with the special cases of the standard for zeros,
  infinities and NaN. Every function of the module is embedded over these numbers; the
  names end in \<open>_fl\<close>. Over them the escape-time loop need not end, since its counter
  does not get beyond \<open>2^53\<close>: the loop is a partial function with an option as result,
  \<open>None\<close> for a run that does not return, and the renderer inherits the option.

  The escape-time evaluator and the colour mapper are embedded a second time in exact
  arithmetic (\<open>mandelbrot_loop\<close>, \<open>getColor\<close>), where a number is a real and an
  operator the exact one. What is stated there (the result for a limit that is not
  positive, the black of a point at the limit, the range of the channels) rests on a
  comparison before the first operation and on floors and clamps, not on a rounding.

  \<^verbatim>\<open>Math.sin\<close> is implementation-approximated: the language does not fix its
  roundings. The functions that call it take it as a parameter \<open>msin\<close>, and what is
  proved holds for every sine that returns a number at every finite argument.

  The canvas dimensions, the loop counters of the renderer and the buffer index are
  natural numbers; the statements about the renderer keep them below \<open>2^53\<close>, where the
  doubles of the source are exact.
\<close>

subsection \<open>Numbers\<close>

text \<open>
  A \<^verbatim>\<open>number\<close> of the source is an IEEE-754 binary64 value: a finite number (\<open>Num r\<close>, with
  \<open>r\<close> one of the reals of the format, and \<open>Num 0\<close> the positive zero), the negative zero,
  one of the two infinities, or NaN.
\<close>

datatype double = Num real | NegZero | PInf | NInf | NaN

fun dval :: "double \<Rightarrow> real" where
  "dval (Num r) = r"
| "dval NegZero = 0"
| "dval PInf = 0"
| "dval NInf = 0"
| "dval NaN = 0"

fun is_finite :: "double \<Rightarrow> bool" where
  "is_finite (Num r) = True"
| "is_finite NegZero = True"
| "is_finite PInf = False"
| "is_finite NInf = False"
| "is_finite NaN = False"

text \<open>The sign bit.\<close>

fun is_neg :: "double \<Rightarrow> bool" where
  "is_neg (Num r) = (r < 0)"
| "is_neg NegZero = True"
| "is_neg PInf = False"
| "is_neg NInf = True"
| "is_neg NaN = False"

definition is_zero :: "double \<Rightarrow> bool" where
  "is_zero d = (d = Num 0 \<or> d = NegZero)"

text \<open>
  Rounding to the nearest integer, a tie to the even one; and the rounding of a real to
  the nearest real of the format, with 53 significant bits: \<open>x\<close> lies in the binade
  \<open>2^e \<le> \<bar>x\<bar> < 2^(e+1)\<close> with \<open>e = \<lfloor>log\<^sub>2 \<bar>x\<bar>\<rfloor>\<close>, where the format has the integer multiples of
  \<open>2^(e-52)\<close>; below \<open>2^-1022\<close> (the subnormal range) it has the integer multiples of
  \<open>2^-1074\<close>, so a result may underflow, down to \<open>0\<close>. A result of magnitude \<open>2^1024\<close> or
  more has overflowed; \<open>to_double\<close> turns it into an infinity. A zero result has the sign
  of the exact result, or, when that is zero too, the sign \<open>neg\<close> that the operation gives
  it.
\<close>

definition round_half_even :: "real \<Rightarrow> int" where
  "round_half_even x =
     (let n = \<lfloor>x\<rfloor>; d = x - of_int n
      in if d < 1 / 2 then n else if 1 / 2 < d then n + 1 else if even n then n else n + 1)"

definition fl :: "real \<Rightarrow> real" where
  "fl x = (if x = 0 then 0
           else let e = max \<lfloor>log 2 \<bar>x\<bar>\<rfloor> (- 1022);
                    u = 2 powr (of_int e - 52)
                in of_int (round_half_even (x / u)) * u)"

definition to_double :: "bool \<Rightarrow> real \<Rightarrow> double" where
  "to_double neg x =
     (let y = fl x
      in if 2 ^ 1024 \<le> y then PInf
         else if y \<le> - (2 ^ 1024) then NInf
         else if y = 0 then (if x < 0 \<or> (x = 0 \<and> neg) then NegZero else Num 0)
         else Num y)"

text \<open>The reals of the format, and the finite values that are well-formed.\<close>

definition representable :: "real \<Rightarrow> bool" where
  "representable x = (fl x = x \<and> \<bar>x\<bar> < 2 ^ 1024)"

definition finite_double :: "double \<Rightarrow> bool" where
  "finite_double d = (is_finite d \<and> representable (dval d))"

text \<open>
  The operators \<^verbatim>\<open>+\<close>, \<^verbatim>\<open>-\<close>, \<^verbatim>\<open>*\<close> and \<^verbatim>\<open>/\<close> of the source: the exact result,
  rounded, with the special cases of IEEE-754. A sum that is exactly zero is \<open>-0\<close> only
  when both summands are; \<open>p - q\<close> is \<open>p + (-q)\<close>; the sign of a product or quotient is the
  exclusive or of the signs.
\<close>

fun fneg :: "double \<Rightarrow> double" where
  "fneg (Num r) = (if r = 0 then NegZero else Num (- r))"
| "fneg NegZero = Num 0"
| "fneg PInf = NInf"
| "fneg NInf = PInf"
| "fneg NaN = NaN"

definition fadd :: "double \<Rightarrow> double \<Rightarrow> double" where
  "fadd p q =
     (if p = NaN \<or> q = NaN then NaN
      else if p = PInf then (if q = NInf then NaN else PInf)
      else if p = NInf then (if q = PInf then NaN else NInf)
      else if q = PInf \<or> q = NInf then q
      else to_double (p = NegZero \<and> q = NegZero) (dval p + dval q))"

definition fsub :: "double \<Rightarrow> double \<Rightarrow> double" where
  "fsub p q = fadd p (fneg q)"

definition fmul :: "double \<Rightarrow> double \<Rightarrow> double" where
  "fmul p q =
     (if p = NaN \<or> q = NaN then NaN
      else if \<not> is_finite p \<or> \<not> is_finite q
      then (if is_zero p \<or> is_zero q then NaN
            else if is_neg p \<noteq> is_neg q then NInf else PInf)
      else to_double (is_neg p \<noteq> is_neg q) (dval p * dval q))"

definition fdiv :: "double \<Rightarrow> double \<Rightarrow> double" where
  "fdiv p q =
     (if p = NaN \<or> q = NaN then NaN
      else if \<not> is_finite p
      then (if \<not> is_finite q then NaN
            else if is_neg p \<noteq> is_neg q then NInf else PInf)
      else if \<not> is_finite q then (if is_neg p \<noteq> is_neg q then NegZero else Num 0)
      else if is_zero q
      then (if is_zero p then NaN
            else if is_neg p \<noteq> is_neg q then NInf else PInf)
      else to_double (is_neg p \<noteq> is_neg q) (dval p / dval q))"

text \<open>
  The comparisons \<^verbatim>\<open><\<close>, \<^verbatim>\<open><=\<close> and \<^verbatim>\<open>===\<close>: false as soon as one side is NaN, and
  blind to the sign of zero.
\<close>

definition lt_d :: "double \<Rightarrow> double \<Rightarrow> bool" where
  "lt_d p q =
     (if p = NaN \<or> q = NaN then False
      else if p = NInf then q \<noteq> NInf
      else if q = PInf then p \<noteq> PInf
      else if p = PInf \<or> q = NInf then False
      else dval p < dval q)"

definition le_d :: "double \<Rightarrow> double \<Rightarrow> bool" where
  "le_d p q =
     (if p = NaN \<or> q = NaN then False
      else if p = NInf then True
      else if q = PInf then True
      else if p = PInf \<or> q = NInf then False
      else dval p \<le> dval q)"

definition eq_d :: "double \<Rightarrow> double \<Rightarrow> bool" where
  "eq_d p q =
     (if p = NaN \<or> q = NaN then False
      else if is_finite p \<and> is_finite q then dval p = dval q
      else p = q)"

text \<open>
  \<^verbatim>\<open>Math.min\<close> and \<^verbatim>\<open>Math.max\<close> (NaN as soon as one argument is; \<open>-0\<close> is below \<open>+0\<close>),
  \<^verbatim>\<open>Math.floor\<close>, \<^verbatim>\<open>Math.round\<close> (a half goes up; a result that is zero from below is
  \<open>-0\<close>) and the constant \<^verbatim>\<open>Math.PI\<close>. \<^verbatim>\<open>Math.sin\<close> is left to the implementation by
  the language, which fixes an approximation of the sine but not its roundings; it is a
  parameter \<open>msin\<close> of the functions that call it.
\<close>

definition math_min :: "double \<Rightarrow> double \<Rightarrow> double" where
  "math_min p q =
     (if p = NaN \<or> q = NaN then NaN
      else if lt_d p q then p
      else if lt_d q p then q
      else if p = NegZero then p else q)"

definition math_max :: "double \<Rightarrow> double \<Rightarrow> double" where
  "math_max p q =
     (if p = NaN \<or> q = NaN then NaN
      else if lt_d p q then q
      else if lt_d q p then p
      else if p = NegZero then q else p)"

fun math_floor :: "double \<Rightarrow> double" where
  "math_floor (Num r) = Num (of_int \<lfloor>r\<rfloor>)"
| "math_floor NegZero = NegZero"
| "math_floor PInf = PInf"
| "math_floor NInf = NInf"
| "math_floor NaN = NaN"

fun math_round :: "double \<Rightarrow> double" where
  "math_round (Num r) = (if r < 0 \<and> - (1 / 2) \<le> r then NegZero else Num (of_int \<lfloor>r + 1 / 2\<rfloor>))"
| "math_round NegZero = NegZero"
| "math_round PInf = PInf"
| "math_round NInf = NInf"
| "math_round NaN = NaN"

definition math_pi :: double where
  "math_pi = Num (884279719003555 / 281474976710656)"

text \<open>
  Where a statement needs one sine to be closed, it takes the correctly rounded one, which
  is among the implementations the language allows.
\<close>

definition math_sin :: "double \<Rightarrow> double" where
  "math_sin d = (if is_finite d then to_double (is_neg d) (sin (dval d)) else NaN)"

subsection \<open>Data\<close>

record Viewport =
  xMin :: double
  xMax :: double
  yMin :: double
  yMax :: double

text \<open>
  \<^verbatim>\<open>colorScheme\<close> is a string at run time: the declared union type is erased, and
  \<^verbatim>\<open>getColor\<close> has a \<^verbatim>\<open>default\<close> branch for every other value.
\<close>

record RenderOptions =
  maxIterations :: double
  colorScheme :: string

definition finite_viewport :: "Viewport \<Rightarrow> bool" where
  "finite_viewport v =
     (finite_double (xMin v) \<and> finite_double (xMax v) \<and> finite_double (yMin v) \<and> finite_double (yMax v))"

subsection \<open>Escape-time evaluator\<close>

text \<open>
  The \<^verbatim>\<open>while\<close> loop of \<^verbatim>\<open>calculateMandelbrot\<close>, with the three loop variables
  \<open>x\<close>, \<open>y\<close> and \<open>iteration\<close> as arguments. The counter is a double like every number:
  from \<open>2^53\<close> on \<^verbatim>\<open>iteration++\<close> does not change it any more, so the loop need not end,
  and the result is an option, \<open>None\<close> for a run that never returns.
\<close>

partial_function (option) mandelbrot_loop_fl ::
  "double \<Rightarrow> double \<Rightarrow> double \<Rightarrow> double \<Rightarrow> double \<Rightarrow> double \<Rightarrow> double option" where
  "mandelbrot_loop_fl cx cy maxIter x y iteration =
     (if le_d (fadd (fmul x x) (fmul y y)) (Num 4) \<and> lt_d iteration maxIter
      then mandelbrot_loop_fl cx cy maxIter
             (fadd (fsub (fmul x x) (fmul y y)) cx)
             (fadd (fmul (fmul (Num 2) x) y) cy)
             (fadd iteration (Num 1))
      else Some iteration)"

definition calculateMandelbrot_fl :: "double \<Rightarrow> double \<Rightarrow> double \<Rightarrow> double option" where
  "calculateMandelbrot_fl cx cy maxIter = mandelbrot_loop_fl cx cy maxIter (Num 0) (Num 0) (Num 0)"

text \<open>
  The parameter's default value \<^verbatim>\<open>maxIterations = 100\<close> is what a caller that leaves the
  argument out passes.
\<close>

definition calculateMandelbrot_fl_default :: "double \<Rightarrow> double \<Rightarrow> double option" where
  "calculateMandelbrot_fl_default cx cy = calculateMandelbrot_fl cx cy (Num 100)"

text \<open>
  The same loop in exact arithmetic, every number a real and every operator the exact
  one. There the counter always reaches the limit, and the loop is a total function. What
  is stated about this reading below does not depend on a rounding.
\<close>

function mandelbrot_loop :: "real \<Rightarrow> real \<Rightarrow> real \<Rightarrow> real \<Rightarrow> real \<Rightarrow> real \<Rightarrow> real" where
  "mandelbrot_loop cx cy maxIter x y iteration =
     (if x * x + y * y \<le> 4 \<and> iteration < maxIter
      then let xTemp = x * x - y * y + cx
           in mandelbrot_loop cx cy maxIter xTemp (2 * x * y + cy) (iteration + 1)
      else iteration)"
  by pat_completeness auto
termination
proof (relation "measure (\<lambda>(cx, cy, maxIter, x, y, iteration). nat \<lceil>maxIter - iteration\<rceil>)")
  show "wf (measure (\<lambda>(cx, cy, maxIter, x, y, iteration). nat \<lceil>maxIter - iteration\<rceil>))"
    by simp
next
  fix cx cy maxIter x y iteration xTemp :: real
  assume "x * x + y * y \<le> 4 \<and> iteration < maxIter"
  then have "0 < \<lceil>maxIter - iteration\<rceil>" and "\<lceil>maxIter - (iteration + 1)\<rceil> = \<lceil>maxIter - iteration\<rceil> - 1"
    by (simp, linarith)
  then show "((cx, cy, maxIter, xTemp, 2 * x * y + cy, iteration + 1), (cx, cy, maxIter, x, y, iteration))
      \<in> measure (\<lambda>(cx, cy, maxIter, x, y, iteration). nat \<lceil>maxIter - iteration\<rceil>)"
    by simp
qed

declare mandelbrot_loop.simps [simp del]

definition calculateMandelbrot :: "real \<Rightarrow> real \<Rightarrow> real \<Rightarrow> real" where
  "calculateMandelbrot cx cy maxIter = mandelbrot_loop cx cy maxIter 0 0 0"

subsection \<open>Color mapper\<close>

text \<open>
  The object literal \<^verbatim>\<open>{ r, g, b }\<close>. The \<^verbatim>\<open>fire\<close> branch assigns the three local
  variables in a chain of four cases before they are clamped.
\<close>

record RGB_fl =
  r_fl :: double
  g_fl :: double
  b_fl :: double

definition fire_ramp_fl :: "double \<Rightarrow> double \<times> double \<times> double" where
  "fire_ramp_fl ramp =
     (if le_d ramp (Num 1) then (math_floor (fmul (Num 255) ramp), Num 0, Num 0)
      else if le_d ramp (Num 2) then (Num 255, math_floor (fmul (Num 255) (fsub ramp (Num 1))), Num 0)
      else if le_d ramp (Num 3) then (Num 255, Num 255, math_floor (fmul (Num 255) (fsub ramp (Num 2))))
      else (Num 255, Num 255, math_floor (fmul (Num 255) (math_min (Num 1) (fsub (Num 4) ramp)))))"

definition getColor_fl :: "(double \<Rightarrow> double) \<Rightarrow> double \<Rightarrow> double \<Rightarrow> string \<Rightarrow> RGB_fl" where
  "getColor_fl msin iteration maxIter scheme =
     (if eq_d iteration maxIter then \<lparr>r_fl = Num 0, g_fl = Num 0, b_fl = Num 0\<rparr>
      else
        let t = fdiv iteration maxIter in
        if scheme = ''grayscale'' then
          (let gray = math_floor (fmul (Num 255) (fsub (Num 1) t))
           in \<lparr>r_fl = gray, g_fl = gray, b_fl = gray\<rparr>)
        else if scheme = ''rainbow'' then
          \<lparr>r_fl = math_max (Num 0) (math_min (Num 255) (math_floor (fmul (Num 255)
                    (msin (fmul (fmul math_pi t) (Num 3)))))),
           g_fl = math_max (Num 0) (math_min (Num 255) (math_floor (fmul (Num 255)
                    (msin (fadd (fmul (fmul math_pi t) (Num 3)) (fdiv (fmul (Num 2) math_pi) (Num 3))))))),
           b_fl = math_max (Num 0) (math_min (Num 255) (math_floor (fmul (Num 255)
                    (msin (fadd (fmul (fmul math_pi t) (Num 3)) (fdiv (fmul (Num 4) math_pi) (Num 3)))))))\<rparr>
        else if scheme = ''fire'' then
          (case fire_ramp_fl (fmul t (Num 4)) of
             (r0, g0, b0) \<Rightarrow>
               \<lparr>r_fl = math_max (Num 0) (math_min (Num 255) r0),
                g_fl = math_max (Num 0) (math_min (Num 255) g0),
                b_fl = math_max (Num 0) (math_min (Num 255) b0)\<rparr>)
        else \<lparr>r_fl = Num 0, g_fl = Num 0, b_fl = Num 0\<rparr>)"

text \<open>A call that leaves the scheme out gets the default \<^verbatim>\<open>'grayscale'\<close>.\<close>

definition getColor_fl_default :: "(double \<Rightarrow> double) \<Rightarrow> double \<Rightarrow> double \<Rightarrow> RGB_fl" where
  "getColor_fl_default msin iteration maxIter = getColor_fl msin iteration maxIter ''grayscale''"

text \<open>
  The colour mapper in exact arithmetic: the numbers are reals, the channels the integers
  that \<^verbatim>\<open>Math.floor\<close> gives, the sine the real sine.
\<close>

record RGB =
  r :: int
  g :: int
  b :: int

definition fire_ramp :: "real \<Rightarrow> int \<times> int \<times> int" where
  "fire_ramp ramp =
     (if ramp \<le> 1 then (\<lfloor>255 * ramp\<rfloor>, 0, 0)
      else if ramp \<le> 2 then (255, \<lfloor>255 * (ramp - 1)\<rfloor>, 0)
      else if ramp \<le> 3 then (255, 255, \<lfloor>255 * (ramp - 2)\<rfloor>)
      else (255, 255, \<lfloor>255 * min 1 (4 - ramp)\<rfloor>))"

definition getColor :: "real \<Rightarrow> real \<Rightarrow> string \<Rightarrow> RGB" where
  "getColor iteration maxIter scheme =
     (if iteration = maxIter then \<lparr>r = 0, g = 0, b = 0\<rparr>
      else
        let t = iteration / maxIter in
        if scheme = ''grayscale'' then
          (let gray = \<lfloor>255 * (1 - t)\<rfloor> in \<lparr>r = gray, g = gray, b = gray\<rparr>)
        else if scheme = ''rainbow'' then
          \<lparr>r = max 0 (min 255 \<lfloor>255 * sin (pi * t * 3)\<rfloor>),
           g = max 0 (min 255 \<lfloor>255 * sin (pi * t * 3 + (2 * pi) / 3)\<rfloor>),
           b = max 0 (min 255 \<lfloor>255 * sin (pi * t * 3 + (4 * pi) / 3)\<rfloor>)\<rparr>
        else if scheme = ''fire'' then
          (case fire_ramp (t * 4) of
             (r0, g0, b0) \<Rightarrow>
               \<lparr>r = max 0 (min 255 r0), g = max 0 (min 255 g0), b = max 0 (min 255 b0)\<rparr>)
        else \<lparr>r = 0, g = 0, b = 0\<rparr>)"

subsection \<open>Coordinate mapper\<close>

text \<open>
  The results \<^verbatim>\<open>{ real, imaginary }\<close> and \<^verbatim>\<open>{ x, y }\<close>. The field names carry a
  suffix: \<open>real\<close> is a constant of HOL, and \<open>x\<close> and \<open>y\<close> are the loop variables above.
\<close>

record ComplexPoint =
  real_part :: double
  imaginary_part :: double

record PixelPoint =
  x_pixel :: double
  y_pixel :: double

definition pixelToComplex_fl :: "double \<Rightarrow> double \<Rightarrow> double \<Rightarrow> double \<Rightarrow> Viewport \<Rightarrow> ComplexPoint" where
  "pixelToComplex_fl pixelX pixelY width height viewport =
     (let scaleX = fdiv (fsub (xMax viewport) (xMin viewport)) width;
          scaleY = fdiv (fsub (yMax viewport) (yMin viewport)) height
      in \<lparr>real_part = fadd (xMin viewport) (fmul pixelX scaleX),
          imaginary_part = fadd (yMin viewport) (fmul pixelY scaleY)\<rparr>)"

definition complexToPixel_fl :: "double \<Rightarrow> double \<Rightarrow> double \<Rightarrow> double \<Rightarrow> Viewport \<Rightarrow> PixelPoint" where
  "complexToPixel_fl re im width height viewport =
     (let scaleX = fdiv width (fsub (xMax viewport) (xMin viewport));
          scaleY = fdiv height (fsub (yMax viewport) (yMin viewport))
      in \<lparr>x_pixel = math_round (fmul (fsub re (xMin viewport)) scaleX),
          y_pixel = math_round (fmul (fsub im (yMin viewport)) scaleY)\<rparr>)"

subsection \<open>Viewport algebra\<close>

definition createZoomViewport_fl ::
  "Viewport \<Rightarrow> double \<Rightarrow> double \<Rightarrow> double \<Rightarrow> double \<Rightarrow> double \<Rightarrow> double \<Rightarrow> Viewport" where
  "createZoomViewport_fl currentViewport x1 y1 x2 y2 width height =
     (let left = math_min x1 x2;
          right = math_max x1 x2;
          top = math_min y1 y2;
          bottom = math_max y1 y2;
          topLeft = pixelToComplex_fl left top width height currentViewport;
          bottomRight = pixelToComplex_fl right bottom width height currentViewport
      in \<lparr>xMin = real_part topLeft,
          xMax = real_part bottomRight,
          yMin = imaginary_part topLeft,
          yMax = imaginary_part bottomRight\<rparr>)"

definition panViewport_fl :: "Viewport \<Rightarrow> double \<Rightarrow> double \<Rightarrow> double \<Rightarrow> double \<Rightarrow> Viewport" where
  "panViewport_fl currentViewport dx dy width height =
     (let deltaReal = fmul dx (fdiv (fsub (xMax currentViewport) (xMin currentViewport)) width);
          deltaImaginary = fmul dy (fdiv (fsub (yMax currentViewport) (yMin currentViewport)) height)
      in \<lparr>xMin = fsub (xMin currentViewport) deltaReal,
          xMax = fsub (xMax currentViewport) deltaReal,
          yMin = fsub (yMin currentViewport) deltaImaginary,
          yMax = fsub (yMax currentViewport) deltaImaginary\<rparr>)"

definition zoomAtPoint_fl :: "Viewport \<Rightarrow> double \<Rightarrow> double \<Rightarrow> double \<Rightarrow> double \<Rightarrow> double \<Rightarrow> Viewport" where
  "zoomAtPoint_fl currentViewport centerX centerY zoomFactor width height =
     (let center = pixelToComplex_fl centerX centerY width height currentViewport;
          currentWidth = fsub (xMax currentViewport) (xMin currentViewport);
          currentHeight = fsub (yMax currentViewport) (yMin currentViewport);
          newWidth = fdiv currentWidth zoomFactor;
          newHeight = fdiv currentHeight zoomFactor
      in \<lparr>xMin = fsub (real_part center) (fdiv newWidth (Num 2)),
          xMax = fadd (real_part center) (fdiv newWidth (Num 2)),
          yMin = fsub (imaginary_part center) (fdiv newHeight (Num 2)),
          yMax = fadd (imaginary_part center) (fdiv newHeight (Num 2))\<rparr>)"

definition getDefaultViewport :: Viewport where
  "getDefaultViewport = \<lparr>xMin = Num (- 5 / 2), xMax = Num 1, yMin = Num (- 3 / 2), yMax = Num (3 / 2)\<rparr>"

subsection \<open>Frame renderer\<close>

text \<open>
  \<^verbatim>\<open>ImageData\<close> belongs to the platform. What the renderer relies on is modelled here as
  the module's tests stub it: \<^verbatim>\<open>new ImageData(width, height)\<close> holds the two dimensions
  and a \<^verbatim>\<open>Uint8ClampedArray\<close> of \<open>width * height * 4\<close> bytes, all zero. The canvas
  dimensions, the two loop counters and the index are natural numbers: they are integers
  in the source, and exact as doubles as long as they stay below \<open>2^53\<close>.
\<close>

record ImageData =
  img_width :: nat
  img_height :: nat
  img_data :: "8 word list"

definition new_ImageData :: "nat \<Rightarrow> nat \<Rightarrow> ImageData" where
  "new_ImageData width height =
     \<lparr>img_width = width, img_height = height, img_data = replicate (width * height * 4) 0\<rparr>"

text \<open>
  A store into a \<^verbatim>\<open>Uint8ClampedArray\<close> turns NaN into \<open>0\<close>, clamps the value to
  \<open>0..255\<close> and rounds it to the nearest integer, a tie to the even one. A store at an
  index outside the array is dropped, as \<^const>\<open>list_update\<close> drops it.
\<close>

definition to_uint8_clamped :: "double \<Rightarrow> 8 word" where
  "to_uint8_clamped d =
     (if d = NaN then 0
      else if le_d d (Num 0) then 0
      else if le_d (Num 255) d then 255
      else word_of_int (round_half_even (dval d)))"

text \<open>
  The inner loop over \<open>px\<close>, for a fixed row \<open>py\<close>, and the outer loop over \<open>py\<close>. A
  pixel whose escape-time loop never returns stops the rendering: the result is \<open>None\<close>.
\<close>

function render_px_fl ::
  "(double \<Rightarrow> double) \<Rightarrow> nat \<Rightarrow> nat \<Rightarrow> Viewport \<Rightarrow> RenderOptions \<Rightarrow> nat \<Rightarrow> nat \<Rightarrow> 8 word list
     \<Rightarrow> 8 word list option" where
  "render_px_fl msin width height viewport options py px buf =
     (if px < width
      then let c = pixelToComplex_fl (Num (real px)) (Num (real py)) (Num (real width)) (Num (real height)) viewport
           in case calculateMandelbrot_fl (real_part c) (imaginary_part c) (maxIterations options) of
                None \<Rightarrow> None
              | Some iteration \<Rightarrow>
                  let color = getColor_fl msin iteration (maxIterations options) (colorScheme options);
                      index = (py * width + px) * 4;
                      buf = buf[index := to_uint8_clamped (r_fl color)];
                      buf = buf[index + 1 := to_uint8_clamped (g_fl color)];
                      buf = buf[index + 2 := to_uint8_clamped (b_fl color)];
                      buf = buf[index + 3 := 255]
                  in render_px_fl msin width height viewport options py (px + 1) buf
      else Some buf)"
  by pat_completeness auto
termination
  by (relation "measure (\<lambda>(msin, width, height, viewport, options, py, px, buf). width - px)") auto

declare render_px_fl.simps [simp del]

function render_py_fl ::
  "(double \<Rightarrow> double) \<Rightarrow> nat \<Rightarrow> nat \<Rightarrow> Viewport \<Rightarrow> RenderOptions \<Rightarrow> nat \<Rightarrow> 8 word list
     \<Rightarrow> 8 word list option" where
  "render_py_fl msin width height viewport options py buf =
     (if py < height
      then case render_px_fl msin width height viewport options py 0 buf of
             None \<Rightarrow> None
           | Some buf \<Rightarrow> render_py_fl msin width height viewport options (py + 1) buf
      else Some buf)"
  by pat_completeness auto
termination
  by (relation "measure (\<lambda>(msin, width, height, viewport, options, py, buf). height - py)") auto

declare render_py_fl.simps [simp del]

definition renderMandelbrot_fl ::
  "(double \<Rightarrow> double) \<Rightarrow> nat \<Rightarrow> nat \<Rightarrow> Viewport \<Rightarrow> RenderOptions \<Rightarrow> ImageData option" where
  "renderMandelbrot_fl msin width height viewport options =
     (let imageData = new_ImageData width height
      in case render_py_fl msin width height viewport options 0 (img_data imageData) of
           None \<Rightarrow> None
         | Some buf \<Rightarrow> Some (imageData\<lparr>img_data := buf\<rparr>))"

subsection \<open>Names for the statements and the proofs\<close>

text \<open>
  The colour the loop body computes for the pixel \<open>(px, py)\<close>, if its escape-time loop
  returns, and its four stores at \<open>index\<close>. Both only name parts of the body of
  \<^const>\<open>render_px_fl\<close>.
\<close>

definition pixel_color_fl ::
  "(double \<Rightarrow> double) \<Rightarrow> nat \<Rightarrow> nat \<Rightarrow> Viewport \<Rightarrow> RenderOptions \<Rightarrow> nat \<Rightarrow> nat \<Rightarrow> RGB_fl option" where
  "pixel_color_fl msin width height viewport options px py =
     (let c = pixelToComplex_fl (Num (real px)) (Num (real py)) (Num (real width)) (Num (real height)) viewport
      in case calculateMandelbrot_fl (real_part c) (imaginary_part c) (maxIterations options) of
           None \<Rightarrow> None
         | Some iteration \<Rightarrow> Some (getColor_fl msin iteration (maxIterations options) (colorScheme options)))"

definition put_pixel :: "8 word list \<Rightarrow> nat \<Rightarrow> RGB_fl \<Rightarrow> 8 word list" where
  "put_pixel buf index color =
     buf[index := to_uint8_clamped (r_fl color), index + 1 := to_uint8_clamped (g_fl color),
         index + 2 := to_uint8_clamped (b_fl color), index + 3 := 255]"

text \<open>
  Rounding to 53 significant bits with an exponent that is not bounded. It agrees with
  \<^const>\<open>fl\<close> from \<open>2^-1022\<close> on, and the proofs about \<^const>\<open>fl\<close> go through it.
\<close>

definition rn :: "real \<Rightarrow> real" where
  "rn x = (if x = 0 then 0
           else let u = 2 powr (of_int \<lfloor>log 2 \<bar>x\<bar>\<rfloor> - 52)
                in of_int (round_half_even (x / u)) * u)"

text \<open>A real at which rounding has its relative precision: zero, or not below \<open>2^-1022\<close>.\<close>

definition normal :: "real \<Rightarrow> bool" where
  "normal x = (x = 0 \<or> 2 powr (- 1022) \<le> \<bar>x\<bar>)"

text \<open>
  The rounding error that one coordinate \<open>p\<close> of a pixel gathers on its way through
  \<open>pixelToComplex\<close> and back through \<open>complexToPixel\<close>, in pixels, for the axis from
  \<open>lo\<close> to \<open>hi\<close> over \<open>n\<close> pixels: five roundings act on \<open>p\<close> itself, and the rounding of
  the complex coordinate is magnified by the number of pixels per unit. The bound holds
  when none of the two divisions and two multiplications on the way underflows, which
  \<open>roundtrip_normal\<close> says.
\<close>

definition roundtrip_error :: "real \<Rightarrow> real \<Rightarrow> real \<Rightarrow> real \<Rightarrow> real" where
  "roundtrip_error lo hi n p =
     ((1 + 1 / 2 ^ 53) ^ 5 - 1) * \<bar>p\<bar>
     + (1 / 2 ^ 53) * (1 + 1 / 2 ^ 53) ^ 3
       * (\<bar>lo + fl (p * fl (fl (hi - lo) / n))\<bar> * (n / fl (hi - lo)))"

definition roundtrip_normal :: "real \<Rightarrow> real \<Rightarrow> real \<Rightarrow> real \<Rightarrow> bool" where
  "roundtrip_normal lo hi n p =
     (normal (fl (hi - lo) / n)
      \<and> normal (p * fl (fl (hi - lo) / n))
      \<and> normal (n / fl (hi - lo))
      \<and> normal (fl (fl (lo + fl (p * fl (fl (hi - lo) / n))) - lo) * fl (n / fl (hi - lo))))"

section \<open>Rounding\<close>

text \<open>
  Rounding with an unbounded exponent first: its error, its monotonicity, and the numbers
  it leaves alone.
\<close>

lemma rn_in_binade:
  assumes "2 powr of_int e \<le> \<bar>x\<bar>" "\<bar>x\<bar> < 2 powr (of_int e + 1)"
  shows "rn x = of_int (round_half_even (x / 2 powr (of_int e - 52))) * 2 powr (of_int e - 52)"
proof -
  have "0 < \<bar>x\<bar>" using assms(1) by (smt (verit) powr_gt_zero)
  then have "\<lfloor>log 2 \<bar>x\<bar>\<rfloor> = e"
    using assms by (simp add: floor_log_eq_powr_iff)
  moreover have "x \<noteq> 0" using \<open>0 < \<bar>x\<bar>\<close> by simp
  ultimately show ?thesis by (simp add: rn_def Let_def)
qed

lemma rn_0: "rn 0 = 0" by (simp add: rn_def)

lemma round_half_even_error: "\<bar>of_int (round_half_even y) - y\<bar> \<le> 1 / 2"
proof -
  have "0 \<le> y - of_int \<lfloor>y\<rfloor>" "y - of_int \<lfloor>y\<rfloor> < 1" by linarith+
  then show ?thesis by (auto simp: round_half_even_def Let_def)
qed

lemma round_half_even_of_int: "round_half_even (of_int k) = k"
  by (simp add: round_half_even_def)

lemma round_half_even_mono:
  assumes "y \<le> z"
  shows "round_half_even y \<le> round_half_even z"
proof (cases "\<lfloor>y\<rfloor> = \<lfloor>z\<rfloor>")
  case True
  then have "y - of_int \<lfloor>y\<rfloor> \<le> z - of_int \<lfloor>z\<rfloor>" using assms by simp
  then show ?thesis using True by (auto simp: round_half_even_def Let_def)
next
  case False
  then have "\<lfloor>y\<rfloor> + 1 \<le> \<lfloor>z\<rfloor>" using floor_mono [OF assms] by simp
  moreover have "round_half_even y \<le> \<lfloor>y\<rfloor> + 1" by (simp add: round_half_even_def Let_def)
  moreover have "\<lfloor>z\<rfloor> \<le> round_half_even z" by (simp add: round_half_even_def Let_def)
  ultimately show ?thesis by linarith
qed

lemma round_half_even_minus: "round_half_even (- y) = - round_half_even y"
proof (cases "y \<in> \<int>")
  case True
  then obtain k where "y = of_int k" by (auto elim: Ints_cases)
  then show ?thesis
    by (simp add: round_half_even_of_int flip: of_int_minus)
next
  case False
  have ne: "y \<noteq> of_int \<lfloor>y\<rfloor>"
    using False by (metis Ints_of_int)
  then have rn: "\<lfloor>- y\<rfloor> = - \<lfloor>y\<rfloor> - 1"
    by (simp add: floor_minus ceiling_altdef)
  from ne have "0 < y - of_int \<lfloor>y\<rfloor>" "y - of_int \<lfloor>y\<rfloor> < 1"
    by linarith+
  then show ?thesis
    unfolding round_half_even_def Let_def rn by auto
qed

text \<open>The unit in the last place of the binade of \<open>x\<close>.\<close>

lemma binade_bounds:
  assumes "x \<noteq> 0"
  shows "2 powr of_int \<lfloor>log 2 \<bar>x\<bar>\<rfloor> \<le> \<bar>x\<bar>" and "\<bar>x\<bar> < 2 powr (of_int \<lfloor>log 2 \<bar>x\<bar>\<rfloor> + 1)"
  using assms floor_log_eq_powr_iff [of "\<bar>x\<bar>" 2 "\<lfloor>log 2 \<bar>x\<bar>\<rfloor>"] by simp_all

lemma rn_error: "\<bar>rn x - x\<bar> \<le> \<bar>x\<bar> / 2 ^ 53"
proof (cases "x = 0")
  case True
  then show ?thesis by (simp add: rn_def)
next
  case False
  define e where "e = \<lfloor>log 2 \<bar>x\<bar>\<rfloor>"
  define u :: real where "u = 2 powr (of_int e - 52)"
  have u: "0 < u" by (simp add: u_def)
  have rn: "rn x = of_int (round_half_even (x / u)) * u"
    using False by (simp add: rn_def Let_def e_def u_def)
  have "rn x - x = (of_int (round_half_even (x / u)) - x / u) * u"
    using u by (simp add: rn field_simps)
  then have "\<bar>rn x - x\<bar> = \<bar>of_int (round_half_even (x / u)) - x / u\<bar> * u"
    using u by (simp add: abs_mult)
  also have "\<dots> \<le> 1 / 2 * u"
    using u round_half_even_error [of "x / u"] by (intro mult_right_mono) simp_all
  also have "\<dots> = 2 powr of_int e / 2 ^ 53"
    by (simp add: u_def powr_diff)
  also have "\<dots> \<le> \<bar>x\<bar> / 2 ^ 53"
    using binade_bounds(1) [OF False] by (simp add: e_def divide_right_mono)
  finally show ?thesis .
qed

lemma rn_minus: "rn (- x) = - rn x"
  by (simp add: rn_def Let_def round_half_even_minus)

text \<open>A positive number and its rounding lie in the same closed binade.\<close>

lemma rn_pos_bounds:
  assumes "0 < x"
  shows "2 powr of_int \<lfloor>log 2 x\<rfloor> \<le> rn x" and "rn x \<le> 2 powr (of_int \<lfloor>log 2 x\<rfloor> + 1)"
proof -
  define e where "e = \<lfloor>log 2 x\<rfloor>"
  define u :: real where "u = 2 powr (of_int e - 52)"
  have u: "0 < u" by (simp add: u_def)
  have rn: "rn x = of_int (round_half_even (x / u)) * u"
    using assms by (simp add: rn_def Let_def e_def u_def)
  have lo: "2 powr of_int e = 2 ^ 52 * u" and hi: "2 powr (of_int e + 1) = 2 ^ 53 * u"
    by (simp_all add: u_def powr_diff powr_add)
  from binade_bounds [of x] assms have "2 powr of_int e \<le> x" "x < 2 powr (of_int e + 1)"
    by (simp_all add: e_def)
  then have "2 ^ 52 * u \<le> x" "x < 2 ^ 53 * u"
    unfolding lo hi .
  then have "of_int (2 ^ 52) \<le> x / u" "x / u \<le> of_int (2 ^ 53)"
    using u by (simp_all add: field_simps)
  then have "round_half_even (of_int (2 ^ 52)) \<le> round_half_even (x / u)"
      "round_half_even (x / u) \<le> round_half_even (of_int (2 ^ 53))"
    by (simp_all only: round_half_even_mono)
  then have "2 ^ 52 \<le> round_half_even (x / u)" "round_half_even (x / u) \<le> 2 ^ 53"
    unfolding round_half_even_of_int by simp_all
  then have "(of_int (2 ^ 52) :: real) \<le> of_int (round_half_even (x / u))"
      "of_int (round_half_even (x / u)) \<le> (of_int (2 ^ 53) :: real)"
    by (simp_all only: of_int_le_iff)
  then have "(2 ^ 52 :: real) \<le> of_int (round_half_even (x / u))"
      "of_int (round_half_even (x / u)) \<le> (2 ^ 53 :: real)"
    by simp_all
  then have "2 ^ 52 * u \<le> rn x" "rn x \<le> 2 ^ 53 * u"
    using u by (simp_all add: rn)
  then show "2 powr of_int \<lfloor>log 2 x\<rfloor> \<le> rn x" and "rn x \<le> 2 powr (of_int \<lfloor>log 2 x\<rfloor> + 1)"
    by (simp_all add: lo hi flip: e_def)
qed

lemma rn_pos: "0 < x \<Longrightarrow> 0 < rn x"
  using rn_pos_bounds(1) [of x] by (smt (verit) powr_gt_zero)

lemma rn_neg: "x < 0 \<Longrightarrow> rn x < 0"
  using rn_pos [of "- x"] by (simp add: rn_minus)

lemma rn_mono_pos:
  assumes "0 < x" "x \<le> y"
  shows "rn x \<le> rn y"
proof (cases "\<lfloor>log 2 x\<rfloor> = \<lfloor>log 2 y\<rfloor>")
  case True
  define u :: real where "u = 2 powr (of_int \<lfloor>log 2 x\<rfloor> - 52)"
  have u: "0 < u" by (simp add: u_def)
  have "rn x = of_int (round_half_even (x / u)) * u" "rn y = of_int (round_half_even (y / u)) * u"
    using assms True by (simp_all add: rn_def Let_def u_def)
  moreover have "round_half_even (x / u) \<le> round_half_even (y / u)"
    using assms u by (intro round_half_even_mono) (simp add: divide_right_mono)
  ultimately show ?thesis using u by simp
next
  case False
  have "log 2 x \<le> log 2 y" using assms by simp
  then have "\<lfloor>log 2 x\<rfloor> + 1 \<le> \<lfloor>log 2 y\<rfloor>" using False floor_mono [of "log 2 x" "log 2 y"] by simp
  then have "(of_int \<lfloor>log 2 x\<rfloor> :: real) + 1 \<le> of_int \<lfloor>log 2 y\<rfloor>"
    by (metis of_int_1 of_int_add of_int_le_iff)
  then have "(2::real) powr (of_int \<lfloor>log 2 x\<rfloor> + 1) \<le> 2 powr of_int \<lfloor>log 2 y\<rfloor>"
    by (intro powr_mono) simp_all
  moreover have "rn x \<le> 2 powr (of_int \<lfloor>log 2 x\<rfloor> + 1)"
    using assms by (intro rn_pos_bounds)
  moreover have "2 powr of_int \<lfloor>log 2 y\<rfloor> \<le> rn y"
    using assms by (intro rn_pos_bounds) simp
  ultimately show ?thesis by linarith
qed

lemma rn_mono:
  assumes "x \<le> y"
  shows "rn x \<le> rn y"
proof -
  consider "0 < x" | "y < 0" | "x \<le> 0" "0 \<le> y" by linarith
  then show ?thesis
  proof cases
    case 1
    then show ?thesis using assms by (rule rn_mono_pos)
  next
    case 2
    then have "rn (- y) \<le> rn (- x)" using assms by (intro rn_mono_pos) simp_all
    then show ?thesis by (simp add: rn_minus)
  next
    case 3
    have "rn x \<le> 0" using 3(1) rn_neg [of x] by (cases "x = 0") (simp_all add: rn_0)
    moreover have "0 \<le> rn y" using 3(2) rn_pos [of y] by (cases "y = 0") (simp_all add: rn_0)
    ultimately show ?thesis by simp
  qed
qed

lemma rn_idem_pos:
  assumes "0 < x"
  shows "rn (rn x) = rn x"
proof -
  define e where "e = \<lfloor>log 2 x\<rfloor>"
  define u :: real where "u = 2 powr (of_int e - 52)"
  define m where "m = round_half_even (x / u)"
  have u: "0 < u" by (simp add: u_def)
  have rn: "rn x = of_int m * u"
    using assms by (simp add: rn_def Let_def e_def u_def m_def)
  have lo: "2 powr of_int e = 2 ^ 52 * u" and hi: "2 powr (of_int e + 1) = 2 ^ 53 * u"
    by (simp_all add: u_def powr_diff powr_add)
  from rn_pos_bounds [OF assms] have b: "2 powr of_int e \<le> rn x" "rn x \<le> 2 powr (of_int e + 1)"
    by (simp_all add: e_def)
  show ?thesis
  proof (cases "rn x = 2 powr (of_int e + 1)")
    case True
    have "rn (2 powr (of_int e + 1)) = of_int (round_half_even (2 powr (of_int e + 1) / 2 powr (of_int (e + 1) - 52))) * 2 powr (of_int (e + 1) - 52)"
      by (rule rn_in_binade) (simp_all add: powr_add)
    also have "(2::real) powr (of_int e + 1) / 2 powr (of_int (e + 1) - 52) = of_int (2 ^ 52)"
      by (simp add: powr_diff powr_add)
    also have "of_int (round_half_even (of_int (2 ^ 52))) * 2 powr (of_int (e + 1) - 52) = (2::real) powr (of_int e + 1)"
      unfolding round_half_even_of_int by (simp add: powr_diff powr_add)
    finally show ?thesis by (simp add: True)
  next
    case False
    with b have "\<bar>rn x\<bar> < 2 powr (of_int e + 1)" "2 powr of_int e \<le> \<bar>rn x\<bar>"
      using rn_pos [OF assms] by simp_all
    then have "rn (rn x) = of_int (round_half_even (rn x / 2 powr (of_int e - 52))) * 2 powr (of_int e - 52)"
      by (intro rn_in_binade)
    also have "rn x / 2 powr (of_int e - 52) = of_int m"
      using u by (simp add: rn u_def)
    also have "of_int (round_half_even (of_int m)) * 2 powr (of_int e - 52) = rn x"
      unfolding round_half_even_of_int by (simp add: rn u_def)
    finally show ?thesis .
  qed
qed

lemma rn_idem: "rn (rn x) = rn x"
proof -
  consider "0 < x" | "x = 0" | "x < 0" by linarith
  then show ?thesis
  proof cases
    case 1
    then show ?thesis by (rule rn_idem_pos)
  next
    case 2
    then show ?thesis by (simp add: rn_0)
  next
    case 3
    then have "rn (rn (- x)) = rn (- x)" by (intro rn_idem_pos) simp
    then show ?thesis by (simp add: rn_minus)
  qed
qed

lemma rn_double: "rn (2 * x) = 2 * rn x"
proof (cases "x = 0")
  case True
  then show ?thesis by (simp add: rn_0)
next
  case False
  define e where "e = \<lfloor>log 2 \<bar>x\<bar>\<rfloor>"
  from binade_bounds [OF False] have b: "2 powr of_int e \<le> \<bar>x\<bar>" "\<bar>x\<bar> < 2 powr (of_int e + 1)"
    by (simp_all add: e_def)
  then have "2 powr of_int (e + 1) \<le> \<bar>2 * x\<bar>" "\<bar>2 * x\<bar> < 2 powr (of_int (e + 1) + 1)"
    by (simp_all add: powr_add)
  then have "rn (2 * x) = of_int (round_half_even (2 * x / 2 powr (of_int (e + 1) - 52))) * 2 powr (of_int (e + 1) - 52)"
    by (rule rn_in_binade)
  moreover have "2 * x / 2 powr (of_int (e + 1) - 52) = x / 2 powr (of_int e - 52)"
    by (simp add: powr_diff powr_add)
  moreover have "(2::real) powr (of_int (e + 1) - 52) = 2 * 2 powr (of_int e - 52)"
    by (simp add: powr_diff powr_add)
  moreover have "rn x = of_int (round_half_even (x / 2 powr (of_int e - 52))) * 2 powr (of_int e - 52)"
    using b by (rule rn_in_binade)
  ultimately show ?thesis by simp
qed

lemma rn_half: "rn (x / 2) = rn x / 2"
  using rn_double [of "x / 2"] by simp

lemma rn_exact:
  assumes "x / 2 powr (of_int \<lfloor>log 2 \<bar>x\<bar>\<rfloor> - 52) = of_int m"
  shows "rn x = x"
proof (cases "x = 0")
  case True
  then show ?thesis by (simp add: rn_0)
next
  case False
  have "rn x = of_int (round_half_even (of_int m)) * 2 powr (of_int \<lfloor>log 2 \<bar>x\<bar>\<rfloor> - 52)"
    using False by (simp add: rn_def Let_def assms)
  also have "\<dots> = x / 2 powr (of_int \<lfloor>log 2 \<bar>x\<bar>\<rfloor> - 52) * 2 powr (of_int \<lfloor>log 2 \<bar>x\<bar>\<rfloor> - 52)"
    by (simp only: round_half_even_of_int assms)
  also have "\<dots> = x" by simp
  finally show ?thesis .
qed

lemma rn_of_nat:
  assumes "k \<le> 2 ^ 53"
  shows "rn (real k) = real k"
proof (cases "k = 0")
  case True
  then show ?thesis by (simp add: rn_0)
next
  case False
  define e where "e = \<lfloor>log 2 (real k)\<rfloor>"
  have pos: "0 < real k" using False by simp
  have le: "real k \<le> 2 ^ 53" using assms by (metis of_nat_le_iff of_nat_numeral of_nat_power)
  have "log 2 (real k) \<le> 53" using log2_of_power_le [of k 53] assms False by simp
  then have "e \<le> 53" unfolding e_def by (simp add: floor_le_iff)
  have lo: "2 powr real_of_int e \<le> real k"
    using binade_bounds(1) [of "real k"] False by (simp add: e_def)
  show ?thesis
  proof (cases "e = 53")
    case True
    then have "(2::real) ^ 53 \<le> real k" using lo by simp
    then have k: "real k = 2 ^ 53" using le by simp
    have "2 powr (real_of_int e - 52) = 2" using True by simp
    then have "real k / 2 powr (real_of_int e - 52) = real_of_int (2 ^ 52)"
      by (simp add: k)
    then have "real k / 2 powr (real_of_int \<lfloor>log 2 \<bar>real k\<bar>\<rfloor> - 52) = real_of_int (2 ^ 52)"
      by (simp only: e_def abs_of_nat)
    then show ?thesis by (rule rn_exact)
  next
    case False
    then have "0 \<le> 52 - e" using \<open>e \<le> 53\<close> by simp
    then have "2 powr (real_of_int (52 - e)) = (2::real) ^ nat (52 - e)"
      using powr_real_of_int [of 2 "52 - e"] by simp
    moreover have "real k / 2 powr (real_of_int e - 52) = real k * 2 powr (real_of_int (52 - e))"
      by (simp add: powr_diff field_simps)
    ultimately have "real k / 2 powr (real_of_int e - 52) = real_of_int (int k * 2 ^ nat (52 - e))"
      by simp
    then have "real k / 2 powr (real_of_int \<lfloor>log 2 \<bar>real k\<bar>\<rfloor> - 52) = real_of_int (int k * 2 ^ nat (52 - e))"
      by (simp only: e_def abs_of_nat)
    then show ?thesis by (rule rn_exact)
  qed
qed

lemma rel_step:
  fixes e p c u :: real
  assumes "\<bar>e\<bar> \<le> u" "\<bar>p - 1\<bar> \<le> c"
  shows "\<bar>(1 + e) * p - 1\<bar> \<le> (1 + u) * (1 + c) - 1"
proof -
  have p: "\<bar>p\<bar> \<le> 1 + c" using assms(2) by linarith
  have u: "0 \<le> u" using assms(1) by linarith
  have "\<bar>(1 + e) * p - 1\<bar> = \<bar>(p - 1) + e * p\<bar>" by (simp add: algebra_simps)
  also have "\<dots> \<le> \<bar>p - 1\<bar> + \<bar>e\<bar> * \<bar>p\<bar>" by (metis abs_mult abs_triangle_ineq)
  also have "\<dots> \<le> c + u * (1 + c)"
    using assms p u by (intro add_mono mult_mono) simp_all
  also have "\<dots> = (1 + u) * (1 + c) - 1" by (simp add: algebra_simps)
  finally show ?thesis .
qed

lemma rel_prod5:
  fixes u :: real
  assumes "\<bar>e1\<bar> \<le> u" "\<bar>e2\<bar> \<le> u" "\<bar>e3\<bar> \<le> u" "\<bar>e4\<bar> \<le> u" "\<bar>e5\<bar> \<le> u"
  shows "\<bar>(1 + e1) * ((1 + e2) * ((1 + e3) * ((1 + e4) * (1 + e5)))) - 1\<bar> \<le> (1 + u) ^ 5 - 1"
proof -
  have "\<bar>(1 + e5) - 1\<bar> \<le> u" using assms by simp
  from rel_step [OF assms(4) this] have "\<bar>(1 + e4) * (1 + e5) - 1\<bar> \<le> (1 + u) * (1 + u) - 1" .
  from rel_step [OF assms(3) this]
  have "\<bar>(1 + e3) * ((1 + e4) * (1 + e5)) - 1\<bar> \<le> (1 + u) * ((1 + u) * (1 + u)) - 1" by simp
  from rel_step [OF assms(2) this]
  have "\<bar>(1 + e2) * ((1 + e3) * ((1 + e4) * (1 + e5))) - 1\<bar> \<le> (1 + u) * ((1 + u) * ((1 + u) * (1 + u))) - 1"
    by simp
  from rel_step [OF assms(1) this] show ?thesis by (simp add: power_def numeral_eq_Suc)
qed

lemma rel_prod3:
  fixes u :: real
  assumes "\<bar>e1\<bar> \<le> u" "\<bar>e2\<bar> \<le> u" "\<bar>e3\<bar> \<le> u"
  shows "\<bar>(1 + e1) * ((1 + e2) * (1 + e3))\<bar> \<le> (1 + u) ^ 3"
proof -
  have "\<bar>(1 + e3) - 1\<bar> \<le> u" using assms by simp
  from rel_step [OF assms(2) this] have "\<bar>(1 + e2) * (1 + e3) - 1\<bar> \<le> (1 + u) * (1 + u) - 1" .
  from rel_step [OF assms(1) this]
  have "\<bar>(1 + e1) * ((1 + e2) * (1 + e3)) - 1\<bar> \<le> (1 + u) * ((1 + u) * (1 + u)) - 1" by simp
  then have "\<bar>(1 + e1) * ((1 + e2) * (1 + e3))\<bar> \<le> (1 + u) * ((1 + u) * (1 + u))" by linarith
  then show ?thesis by (simp add: power_def numeral_eq_Suc)
qed

text \<open>
  The rounding of the format: it is the rounding above from \<open>2^-1022\<close> on, and below that
  the rounding to a multiple of \<open>2^-1074\<close>.
\<close>

lemma floor_log_ge:
  assumes "2 powr (- 1022) \<le> \<bar>x\<bar>"
  shows "- 1022 \<le> \<lfloor>log 2 \<bar>x\<bar>\<rfloor>"
proof -
  have "0 < \<bar>x\<bar>" using assms by (smt (verit) powr_gt_zero)
  then have "- 1022 \<le> log 2 \<bar>x\<bar>" using assms by (simp add: le_log_iff)
  then show ?thesis by (simp add: le_floor_iff)
qed

lemma floor_log_ge_real:
  assumes "2 powr (- 1022) \<le> \<bar>x\<bar>"
  shows "(- 1022 :: real) \<le> of_int \<lfloor>log 2 \<bar>x\<bar>\<rfloor>"
proof -
  have "(- 1022 :: int) \<le> \<lfloor>log 2 \<bar>x\<bar>\<rfloor>" using assms by (rule floor_log_ge)
  then have "(of_int (- 1022) :: real) \<le> of_int \<lfloor>log 2 \<bar>x\<bar>\<rfloor>" by (simp only: of_int_le_iff)
  then show ?thesis by simp
qed

lemma fl_normal:
  assumes "2 powr (- 1022) \<le> \<bar>x\<bar>"
  shows "fl x = rn x"
proof -
  have "x \<noteq> 0" using assms by (smt (verit) powr_gt_zero)
  moreover have "max \<lfloor>log 2 \<bar>x\<bar>\<rfloor> (- 1022) = \<lfloor>log 2 \<bar>x\<bar>\<rfloor>"
    using floor_log_ge [OF assms] by simp
  ultimately show ?thesis by (simp add: fl_def rn_def Let_def)
qed

lemma fl_subnormal:
  assumes "\<bar>x\<bar> < 2 powr (- 1022)"
  shows "fl x = of_int (round_half_even (x / 2 powr (- 1074))) * 2 powr (- 1074)"
proof (cases "x = 0")
  case True
  then show ?thesis by (simp add: fl_def round_half_even_def)
next
  case False
  then have "log 2 \<bar>x\<bar> < - 1022" using assms by (simp add: log_less_iff)
  then have "\<lfloor>log 2 \<bar>x\<bar>\<rfloor> < - 1022" by (simp add: floor_less_iff)
  then have "max \<lfloor>log 2 \<bar>x\<bar>\<rfloor> (- 1022) = - 1022" by simp
  then show ?thesis using False by (simp add: fl_def Let_def)
qed

lemma fl_0: "fl 0 = 0"
  by (simp add: fl_def)

lemma fl_minus: "fl (- x) = - fl x"
  by (simp add: fl_def Let_def round_half_even_minus)

lemma fl_in_binade:
  assumes "- 1022 \<le> e" "2 powr of_int e \<le> \<bar>x\<bar>" "\<bar>x\<bar> < 2 powr (of_int e + 1)"
  shows "fl x = of_int (round_half_even (x / 2 powr (of_int e - 52))) * 2 powr (of_int e - 52)"
proof -
  have "(- 1022 :: real) \<le> of_int e" using assms(1) by simp
  then have "(2::real) powr (- 1022) \<le> 2 powr of_int e" by (intro powr_mono) simp_all
  with assms(2) have "2 powr (- 1022) \<le> \<bar>x\<bar>" by linarith
  then have "fl x = rn x" by (rule fl_normal)
  then show ?thesis using rn_in_binade [OF assms(2,3)] by simp
qed

lemma subnormal_unit:
  "(0::real) < 2 powr (- 1074)" "(2::real) ^ 52 * 2 powr (- 1074) = 2 powr (- 1022)"
proof -
  show "(0::real) < 2 powr (- 1074)" by simp
  have "(2::real) ^ 52 = 2 powr 52" by simp
  then have "(2::real) ^ 52 * 2 powr (- 1074) = 2 powr (52 + (- 1074))" by (simp only: powr_add)
  then show "(2::real) ^ 52 * 2 powr (- 1074) = 2 powr (- 1022)" by simp
qed

lemma round_half_even_0: "round_half_even 0 = 0"
  using round_half_even_of_int [of 0] by simp

lemma fl_nonneg:
  assumes "0 \<le> x"
  shows "0 \<le> fl x"
proof (cases "2 powr (- 1022) \<le> \<bar>x\<bar>")
  case True
  then have "0 < x" using assms by (smt (verit) powr_gt_zero)
  then show ?thesis using rn_pos [of x] fl_normal [OF True] by simp
next
  case False
  then have f: "fl x = of_int (round_half_even (x / 2 powr (- 1074))) * 2 powr (- 1074)"
    by (intro fl_subnormal) simp
  have "round_half_even 0 \<le> round_half_even (x / 2 powr (- 1074))"
    using assms by (intro round_half_even_mono) simp
  then show ?thesis by (simp add: f round_half_even_0)
qed

lemma fl_nonpos: "x \<le> 0 \<Longrightarrow> fl x \<le> 0"
  using fl_nonneg [of "- x"] by (simp add: fl_minus)

text \<open>Below \<open>2^-1022\<close> the rounding stays at or below \<open>2^-1022\<close>; from there on it stays at or above.\<close>

lemma fl_subnormal_le:
  assumes "0 \<le> x" "x < 2 powr (- 1022)"
  shows "fl x \<le> 2 powr (- 1022)"
proof -
  define u :: real where "u = 2 powr (- 1074)"
  have u: "0 < u" "2 ^ 52 * u = 2 powr (- 1022)" unfolding u_def by (rule subnormal_unit)+
  have f: "fl x = of_int (round_half_even (x / u)) * u"
    unfolding u_def using assms by (intro fl_subnormal) simp
  have "x < 2 ^ 52 * u" using assms(2) u(2) by simp
  then have "x / u \<le> of_int (2 ^ 52)" using u(1) by (simp add: field_simps)
  then have "round_half_even (x / u) \<le> round_half_even (of_int (2 ^ 52))"
    by (rule round_half_even_mono)
  then have "round_half_even (x / u) \<le> 2 ^ 52" by (simp only: round_half_even_of_int)
  then have "(of_int (round_half_even (x / u)) :: real) \<le> of_int (2 ^ 52)" by (simp only: of_int_le_iff)
  then have "of_int (round_half_even (x / u)) * u \<le> of_int (2 ^ 52) * u"
    using u(1) by (intro mult_right_mono) simp_all
  also have "(of_int (2 ^ 52) :: real) * u = 2 powr (- 1022)" using u(2) by simp
  finally show ?thesis by (simp only: f)
qed

lemma fl_normal_ge:
  assumes "2 powr (- 1022) \<le> x"
  shows "2 powr (- 1022) \<le> fl x"
proof -
  have x: "0 < x" using assms by (smt (verit) powr_gt_zero)
  have n: "2 powr (- 1022) \<le> \<bar>x\<bar>" using assms by simp
  have "(- 1022 :: real) \<le> of_int \<lfloor>log 2 \<bar>x\<bar>\<rfloor>" using n by (rule floor_log_ge_real)
  then have "(- 1022 :: real) \<le> of_int \<lfloor>log 2 x\<rfloor>" using x by (simp only: abs_of_pos)
  then have "(2::real) powr (- 1022) \<le> 2 powr of_int \<lfloor>log 2 x\<rfloor>" by (intro powr_mono) simp_all
  also have "\<dots> \<le> rn x" using x by (rule rn_pos_bounds)
  finally show ?thesis by (simp add: fl_normal [OF n])
qed

lemma fl_mono_nonneg:
  assumes "0 \<le> x" "x \<le> y"
  shows "fl x \<le> fl y"
proof -
  consider "y < 2 powr (- 1022)" | "2 powr (- 1022) \<le> x" | "x < 2 powr (- 1022)" "2 powr (- 1022) \<le> y"
    by linarith
  then show ?thesis
  proof cases
    case 1
    then have "fl x = of_int (round_half_even (x / 2 powr (- 1074))) * 2 powr (- 1074)"
        "fl y = of_int (round_half_even (y / 2 powr (- 1074))) * 2 powr (- 1074)"
      using assms by (simp_all add: fl_subnormal)
    moreover have "round_half_even (x / 2 powr (- 1074)) \<le> round_half_even (y / 2 powr (- 1074))"
      using assms by (intro round_half_even_mono) (simp add: divide_right_mono)
    ultimately show ?thesis by simp
  next
    case 2
    then have "fl x = rn x" "fl y = rn y" using assms by (simp_all add: fl_normal)
    then show ?thesis using rn_mono [OF assms(2)] by simp
  next
    case 3
    have "fl x \<le> 2 powr (- 1022)" using assms(1) 3(1) by (rule fl_subnormal_le)
    also have "\<dots> \<le> fl y" using 3(2) by (rule fl_normal_ge)
    finally show ?thesis .
  qed
qed

lemma fl_mono:
  assumes "x \<le> y"
  shows "fl x \<le> fl y"
proof -
  consider "0 \<le> x" | "y \<le> 0" | "x \<le> 0" "0 \<le> y" by linarith
  then show ?thesis
  proof cases
    case 1
    then show ?thesis using assms by (rule fl_mono_nonneg)
  next
    case 2
    then have "fl (- y) \<le> fl (- x)" using assms by (intro fl_mono_nonneg) simp_all
    then show ?thesis by (simp add: fl_minus)
  next
    case 3
    then show ?thesis using fl_nonneg [of y] fl_nonpos [of x] by simp
  qed
qed

lemma fl_idem_nonneg:
  assumes "0 \<le> x"
  shows "fl (fl x) = fl x"
proof (cases "2 powr (- 1022) \<le> x")
  case True
  then have n: "2 powr (- 1022) \<le> \<bar>x\<bar>" by simp
  have "2 powr (- 1022) \<le> fl x" using True by (rule fl_normal_ge)
  then have "2 powr (- 1022) \<le> \<bar>fl x\<bar>" by simp
  then have "fl (fl x) = rn (fl x)" by (rule fl_normal)
  then show ?thesis by (simp add: fl_normal [OF n] rn_idem)
next
  case False
  define u :: real where "u = 2 powr (- 1074)"
  define m where "m = round_half_even (x / u)"
  have u: "0 < u" "2 ^ 52 * u = 2 powr (- 1022)" unfolding u_def by (rule subnormal_unit)+
  have f: "fl x = of_int m * u"
    unfolding u_def m_def using assms False by (intro fl_subnormal) simp
  have le: "fl x \<le> 2 powr (- 1022)" using assms False by (intro fl_subnormal_le) simp_all
  have ge: "0 \<le> fl x" using assms by (rule fl_nonneg)
  show ?thesis
  proof (cases "fl x = 2 powr (- 1022)")
    case True
    have "fl (2 powr (- 1022)) = of_int (round_half_even (2 powr (- 1022) / 2 powr (of_int (- 1022) - 52))) * 2 powr (of_int (- 1022) - 52)"
      by (rule fl_in_binade) (simp_all add: powr_add)
    also have "(2::real) powr (- 1022) / 2 powr (of_int (- 1022) - 52) = of_int (2 ^ 52)"
      using u by (simp add: u_def field_simps)
    also have "of_int (round_half_even (of_int (2 ^ 52))) * 2 powr (of_int (- 1022) - 52) = (2::real) powr (- 1022)"
      unfolding round_half_even_of_int using u(2) by (simp add: u_def)
    finally show ?thesis by (simp add: True)
  next
    case False
    then have "\<bar>fl x\<bar> < 2 powr (- 1022)" using le ge by simp
    then have "fl (fl x) = of_int (round_half_even (fl x / u)) * u"
      unfolding u_def by (rule fl_subnormal)
    also have "fl x / u = of_int m" using u(1) by (simp add: f)
    also have "of_int (round_half_even (of_int m)) * u = fl x"
      by (simp only: round_half_even_of_int f)
    finally show ?thesis .
  qed
qed

lemma fl_idem: "fl (fl x) = fl x"
proof (cases "0 \<le> x")
  case True
  then show ?thesis by (rule fl_idem_nonneg)
next
  case False
  then have "fl (fl (- x)) = fl (- x)" by (intro fl_idem_nonneg) simp
  then show ?thesis by (simp add: fl_minus)
qed

lemma fl_abs_le:
  assumes "\<bar>x\<bar> \<le> c" "fl c = c"
  shows "\<bar>fl x\<bar> \<le> c"
proof -
  have "fl x \<le> fl c" using assms(1) by (intro fl_mono) simp
  moreover have "fl (- c) \<le> fl x" using assms(1) by (intro fl_mono) simp
  ultimately show ?thesis by (simp add: fl_minus assms(2))
qed

text \<open>Every real of the format is an integer multiple of \<open>2^-1074\<close>.\<close>

lemma representable_grid:
  assumes "fl x = x"
  obtains m :: int where "x = of_int m * 2 powr (- 1074)"
proof (cases "x = 0")
  case True
  show ?thesis by (rule that [of 0]) (simp add: True)
next
  case False
  define e where "e = max \<lfloor>log 2 \<bar>x\<bar>\<rfloor> (- 1022)"
  define k where "k = round_half_even (x / 2 powr (of_int e - 52))"
  have e: "0 \<le> e + 1022" by (simp add: e_def)
  have "fl x = of_int k * 2 powr (of_int e - 52)"
    using False by (simp add: fl_def Let_def e_def k_def)
  moreover have "(2::real) powr (of_int e - 52) = 2 powr (of_int (e + 1022)) * 2 powr (- 1074)"
    by (simp add: powr_add [symmetric])
  moreover have "(2::real) powr (of_int (e + 1022)) = of_int (2 ^ nat (e + 1022))"
    using e powr_real_of_int [of 2 "e + 1022"] by simp
  ultimately have "x = of_int (k * 2 ^ nat (e + 1022)) * 2 powr (- 1074)"
    using assms by simp
  then show ?thesis by (rule that)
qed

lemma fl_grid_small:
  assumes "x = of_int m * 2 powr (- 1074)" "\<bar>x\<bar> < 2 powr (- 1022)"
  shows "fl x = x"
proof -
  have "x / 2 powr (- 1074) = of_int m" by (simp add: assms(1))
  then show ?thesis
    using fl_subnormal [OF assms(2)] by (simp only: round_half_even_of_int assms(1))
qed

text \<open>
  The relative error of a rounding is at most \<open>2^-53\<close> outside the subnormal range; and
  always for a sum or a difference of two reals of the format, which is exact there.
\<close>

lemma fl_error:
  assumes "normal x"
  shows "\<bar>fl x - x\<bar> \<le> \<bar>x\<bar> / 2 ^ 53"
proof (cases "x = 0")
  case True
  then show ?thesis by (simp add: fl_0)
next
  case False
  then have "2 powr (- 1022) \<le> \<bar>x\<bar>" using assms by (simp add: normal_def)
  then show ?thesis using rn_error [of x] by (simp add: fl_normal)
qed

lemma fl_add_error:
  assumes "fl p = p" "fl q = q"
  shows "\<bar>fl (p + q) - (p + q)\<bar> \<le> \<bar>p + q\<bar> / 2 ^ 53"
proof (cases "2 powr (- 1022) \<le> \<bar>p + q\<bar>")
  case True
  then show ?thesis by (intro fl_error) (simp add: normal_def)
next
  case False
  obtain m where m: "p = of_int m * 2 powr (- 1074)" using assms(1) by (rule representable_grid)
  obtain n where n: "q = of_int n * 2 powr (- 1074)" using assms(2) by (rule representable_grid)
  have "fl (p + q) = p + q"
  proof (rule fl_grid_small)
    show "p + q = of_int (m + n) * 2 powr (- 1074)" by (simp add: m n distrib_right)
    show "\<bar>p + q\<bar> < 2 powr (- 1022)" using False by simp
  qed
  then show ?thesis by simp
qed

lemma fl_sub_error:
  assumes "fl p = p" "fl q = q"
  shows "\<bar>fl (p - q) - (p - q)\<bar> \<le> \<bar>p - q\<bar> / 2 ^ 53"
  using fl_add_error [of p "- q"] assms by (simp add: fl_minus)

lemma rel_of_error:
  fixes y z :: real
  assumes "\<bar>z - y\<bar> \<le> \<bar>y\<bar> / 2 ^ 53"
  obtains e where "z = y * (1 + e)" "\<bar>e\<bar> \<le> 1 / 2 ^ 53"
proof (cases "y = 0")
  case True
  show ?thesis by (rule that [of 0]) (use assms True in simp_all)
next
  case False
  show ?thesis
  proof (rule that [of "(z - y) / y"])
    show "z = y * (1 + (z - y) / y)" using False by (simp add: field_simps)
    have "\<bar>(z - y) / y\<bar> = \<bar>z - y\<bar> / \<bar>y\<bar>" by simp
    also have "\<dots> \<le> (\<bar>y\<bar> / 2 ^ 53) / \<bar>y\<bar>"
      using assms by (intro divide_right_mono) simp_all
    also have "\<dots> = 1 / 2 ^ 53" using False by simp
    finally show "\<bar>(z - y) / y\<bar> \<le> 1 / 2 ^ 53" .
  qed
qed

lemma fl_rel:
  assumes "normal y"
  obtains e where "fl y = y * (1 + e)" "\<bar>e\<bar> \<le> 1 / 2 ^ 53"
  using fl_error [OF assms] by (rule rel_of_error)

lemma fl_add_rel:
  assumes "fl p = p" "fl q = q"
  obtains e where "fl (p + q) = (p + q) * (1 + e)" "\<bar>e\<bar> \<le> 1 / 2 ^ 53"
  using fl_add_error [OF assms] by (rule rel_of_error)

lemma fl_sub_rel:
  assumes "fl p = p" "fl q = q"
  obtains e where "fl (p - q) = (p - q) * (1 + e)" "\<bar>e\<bar> \<le> 1 / 2 ^ 53"
  using fl_sub_error [OF assms] by (rule rel_of_error)

lemma le_rel_of_error:
  fixes y z :: real
  assumes "\<bar>z - y\<bar> \<le> \<bar>y\<bar> / 2 ^ 53" "0 \<le> y"
  shows "z \<le> y * (1 + 1 / 2 ^ 53)"
proof -
  have "z - y \<le> \<bar>z - y\<bar>" by simp
  also have "\<dots> \<le> \<bar>y\<bar> / 2 ^ 53" by (rule assms(1))
  also have "\<dots> = y / 2 ^ 53" using assms(2) by simp
  finally have "z \<le> y + y / 2 ^ 53" by simp
  then show ?thesis by (simp only: distrib_left mult_1_right times_divide_eq_right)
qed

lemma fl_le_rel:
  assumes "0 \<le> y" "normal y"
  shows "fl y \<le> y * (1 + 1 / 2 ^ 53)"
  using fl_error [OF assms(2)] assms(1) by (rule le_rel_of_error)

lemma fl_sub_le_rel:
  assumes "fl p = p" "fl q = q" "q \<le> p"
  shows "fl (p - q) \<le> (p - q) * (1 + 1 / 2 ^ 53)"
  using fl_sub_error [OF assms(1,2)] by (rule le_rel_of_error) (use assms(3) in simp)

text \<open>A difference of two reals of the format that differ does not underflow to zero.\<close>

lemma fl_sub_pos:
  assumes "fl p = p" "fl q = q" "q < p"
  shows "0 < fl (p - q)"
proof -
  have "\<bar>fl (p - q) - (p - q)\<bar> \<le> \<bar>p - q\<bar> / 2 ^ 53" using assms(1,2) by (rule fl_sub_error)
  moreover have "\<bar>p - q\<bar> / 2 ^ 53 < \<bar>p - q\<bar>" using assms(3) by simp
  ultimately show ?thesis using assms(3) by linarith
qed

text \<open>Halving and doubling are exact as long as the result does not underflow.\<close>

lemma fl_half:
  assumes "fl w = w" "2 powr (- 1021) \<le> \<bar>w\<bar>"
  shows "fl (w / 2) = w / 2"
proof -
  have "(2::real) powr (- 1021) = 2 * 2 powr (- 1022)"
    using powr_add [of "2::real" 1 "- 1022"] by simp
  then have h: "2 powr (- 1022) \<le> \<bar>w / 2\<bar>" and n: "2 powr (- 1022) \<le> \<bar>w\<bar>"
    using assms(2) by simp_all
  have "fl (w / 2) = rn (w / 2)" using h by (rule fl_normal)
  also have "\<dots> = rn w / 2" by (rule rn_half)
  also have "rn w = w" using fl_normal [OF n] assms(1) by simp
  finally show ?thesis .
qed

lemma fl_double:
  assumes "fl w = w" "2 powr (- 1022) \<le> \<bar>w\<bar>"
  shows "fl (2 * w) = 2 * w"
proof -
  have "2 powr (- 1022) \<le> \<bar>2 * w\<bar>" using assms(2) by simp
  then have "fl (2 * w) = rn (2 * w)" by (rule fl_normal)
  also have "\<dots> = 2 * rn w" by (rule rn_double)
  also have "rn w = w" using fl_normal [OF assms(2)] assms(1) by simp
  finally show ?thesis .
qed

text \<open>The natural numbers up to \<open>2^53\<close> are reals of the format: counting up to there is exact.\<close>

lemma fl_of_nat:
  assumes "k \<le> 2 ^ 53"
  shows "fl (real k) = real k"
proof (cases "k = 0")
  case True
  then show ?thesis by (simp add: fl_0)
next
  case False
  then have "(1::real) \<le> \<bar>real k\<bar>" by simp
  moreover have "(2::real) powr (- 1022) \<le> 1"
    using powr_mono [of "- 1022" 0 "2::real"] by simp
  ultimately have "2 powr (- 1022) \<le> \<bar>real k\<bar>" by linarith
  then show ?thesis using rn_of_nat [OF assms] by (simp add: fl_normal)
qed

lemma fl_of_int:
  assumes "\<bar>k\<bar> \<le> 2 ^ 53"
  shows "fl (of_int k) = of_int k"
proof (cases "0 \<le> k")
  case True
  then have "nat k \<le> 2 ^ 53" using assms by (simp add: nat_le_iff)
  then have "fl (real (nat k)) = real (nat k)" by (rule fl_of_nat)
  then show ?thesis using True by simp
next
  case False
  then have "nat (- k) \<le> 2 ^ 53" using assms by (simp add: nat_le_iff)
  then have "fl (real (nat (- k))) = real (nat (- k))" by (rule fl_of_nat)
  then have "fl (- of_int k) = - of_int k" using False by simp
  then show ?thesis by (simp add: fl_minus)
qed

text \<open>At \<open>2^53\<close> the next integer is not in the format: the tie goes back to the even \<open>2^53\<close>.\<close>

lemma fl_counter_stall: "fl (9007199254740992 + 1) = 9007199254740992"
  by (subst fl_in_binade [where e = 53]) (simp_all add: round_half_even_def powr_minus Let_def)

section \<open>The operations on doubles\<close>

text \<open>What \<open>to_double\<close> gives: never NaN, and the rounded real as long as that is below \<open>2^1024\<close>.\<close>

lemma to_double_not_NaN [simp]: "to_double s x \<noteq> NaN"
  by (simp add: to_double_def Let_def)

lemma to_double_finite_iff: "is_finite (to_double s x) \<longleftrightarrow> \<bar>fl x\<bar> < 2 ^ 1024"
  by (auto simp: to_double_def Let_def)

lemma to_double_dval: "is_finite (to_double s x) \<Longrightarrow> dval (to_double s x) = fl x"
  by (auto simp: to_double_def Let_def split: if_splits)

lemma to_double_finite_double:
  assumes "is_finite (to_double s x)"
  shows "finite_double (to_double s x)"
proof -
  from assms have "\<bar>fl x\<bar> < 2 ^ 1024" by (simp only: to_double_finite_iff)
  moreover have "dval (to_double s x) = fl x" using assms by (rule to_double_dval)
  ultimately show ?thesis
    unfolding finite_double_def representable_def using assms by (simp only: fl_idem simp_thms)
qed

lemma to_double_Num:
  assumes "fl x = y" "y \<noteq> 0" "\<bar>y\<bar> < 2 ^ 1024"
  shows "to_double s x = Num y"
  using assms by (auto simp: to_double_def Let_def)

lemma to_double_nonneg:
  assumes "0 \<le> x" "fl x < 2 ^ 1024"
  shows "to_double False x = Num (fl x)"
  using assms fl_nonneg [of x] by (auto simp: to_double_def Let_def)

lemma to_double_0: "to_double False 0 = Num 0"
  by (simp add: to_double_def fl_0)

text \<open>The operations on finite arguments.\<close>

lemma fadd_finite:
  assumes "is_finite p" "is_finite q"
  shows "fadd p q = to_double (p = NegZero \<and> q = NegZero) (dval p + dval q)"
  using assms by (cases p; cases q; simp add: fadd_def)

lemma fneg_finite: "is_finite (fneg q) = is_finite q" "dval (fneg q) = - dval q"
  by (cases q; simp)+

lemma fsub_finite:
  assumes "is_finite p" "is_finite q"
  shows "fsub p q = to_double (p = NegZero \<and> fneg q = NegZero) (dval p - dval q)"
  using assms by (simp add: fsub_def fadd_finite fneg_finite)

lemma fmul_finite:
  assumes "is_finite p" "is_finite q"
  shows "fmul p q = to_double (is_neg p \<noteq> is_neg q) (dval p * dval q)"
  using assms by (cases p; cases q; simp add: fmul_def)

lemma fdiv_finite:
  assumes "is_finite p" "is_finite q" "dval q \<noteq> 0"
  shows "fdiv p q = to_double (is_neg p \<noteq> is_neg q) (dval p / dval q)"
  using assms by (cases p; cases q; simp add: fdiv_def is_zero_def)

text \<open>
  A finite result: the arguments were finite, and the result is the rounded exact result,
  a real of the format.
\<close>

lemma fadd_result:
  assumes "is_finite (fadd p q)"
  shows "is_finite p" "is_finite q" "dval (fadd p q) = fl (dval p + dval q)" "finite_double (fadd p q)"
proof -
  show p: "is_finite p" and q: "is_finite q"
    using assms by (cases p; cases q; simp add: fadd_def split: if_splits)+
  show "dval (fadd p q) = fl (dval p + dval q)" "finite_double (fadd p q)"
    using assms by (simp_all add: fadd_finite [OF p q] to_double_dval to_double_finite_double)
qed

lemma fsub_result:
  assumes "is_finite (fsub p q)"
  shows "is_finite p" "is_finite q" "dval (fsub p q) = fl (dval p - dval q)" "finite_double (fsub p q)"
  using fadd_result [of p "fneg q"] assms by (simp_all add: fsub_def fneg_finite)

lemma fmul_result:
  assumes "is_finite (fmul p q)"
  shows "is_finite p" "is_finite q" "dval (fmul p q) = fl (dval p * dval q)" "finite_double (fmul p q)"
proof -
  show p: "is_finite p" and q: "is_finite q"
    using assms by (cases p; cases q; simp add: fmul_def split: if_splits)+
  show "dval (fmul p q) = fl (dval p * dval q)" "finite_double (fmul p q)"
    using assms by (simp_all add: fmul_finite [OF p q] to_double_dval to_double_finite_double)
qed

lemma fdiv_result:
  assumes "is_finite (fdiv p q)" "is_finite q"
  shows "is_finite p" "dval q \<noteq> 0" "dval (fdiv p q) = fl (dval p / dval q)" "finite_double (fdiv p q)"
proof -
  show p: "is_finite p" and q: "dval q \<noteq> 0"
    using assms by (cases p; cases q; simp add: fdiv_def is_zero_def split: if_splits)+
  show "dval (fdiv p q) = fl (dval p / dval q)" "finite_double (fdiv p q)"
    using assms(1) by (simp_all add: fdiv_finite [OF p assms(2) q] to_double_dval to_double_finite_double)
qed

lemma finite_doubleD: "finite_double d \<Longrightarrow> is_finite d" "finite_double d \<Longrightarrow> fl (dval d) = dval d"
  by (simp_all add: finite_double_def representable_def)

text \<open>The operations on two numbers \<open>Num a\<close> and \<open>Num b\<close>, by which the examples are computed.\<close>

lemma fadd_Num: "fadd (Num a) (Num c) = to_double False (a + c)"
  by (simp add: fadd_def)

lemma fsub_Num: "fsub (Num a) (Num c) = to_double False (a - c)"
  by (simp add: fsub_def fadd_def)

lemma fmul_Num: "fmul (Num a) (Num c) = to_double ((a < 0) \<noteq> (c < 0)) (a * c)"
  by (simp add: fmul_def)

lemma fdiv_Num: "c \<noteq> 0 \<Longrightarrow> fdiv (Num a) (Num c) = to_double ((a < 0) \<noteq> (c < 0)) (a / c)"
  by (simp add: fdiv_def is_zero_def)

lemma lt_d_Num [simp]: "lt_d (Num a) (Num c) = (a < c)"
  by (simp add: lt_d_def)

lemma le_d_Num [simp]: "le_d (Num a) (Num c) = (a \<le> c)"
  by (simp add: le_d_def)

lemma eq_d_Num [simp]: "eq_d (Num a) (Num c) = (a = c)"
  by (simp add: eq_d_def)

lemma math_min_Num: "math_min (Num a) (Num c) = Num (min a c)"
  by (auto simp: math_min_def)

lemma math_max_Num: "math_max (Num a) (Num c) = Num (max a c)"
  by (auto simp: math_max_def)

text \<open>\<^verbatim>\<open>Math.min\<close> and \<^verbatim>\<open>Math.max\<close> do not depend on the order of their arguments.\<close>

lemma math_min_commute: "math_min p q = math_min q p"
  by (cases p; cases q; auto simp: math_min_def lt_d_def)

lemma math_max_commute: "math_max p q = math_max q p"
  by (cases p; cases q; auto simp: math_max_def lt_d_def)

lemma math_min_finite:
  assumes "is_finite p" "is_finite q"
  shows "is_finite (math_min p q)" "dval (math_min p q) = min (dval p) (dval q)"
  using assms by (cases p; cases q; auto simp: math_min_def lt_d_def)+

lemma math_max_finite:
  assumes "is_finite p" "is_finite q"
  shows "is_finite (math_max p q)" "dval (math_max p q) = max (dval p) (dval q)"
  using assms by (cases p; cases q; auto simp: math_max_def lt_d_def)+

lemma math_min_cases: "math_min p q = NaN \<or> math_min p q = p \<or> math_min p q = q"
  by (simp add: math_min_def)

lemma math_max_cases: "math_max p q = NaN \<or> math_max p q = p \<or> math_max p q = q"
  by (simp add: math_max_def)

lemma math_round_finite:
  assumes "is_finite p"
  shows "is_finite (math_round p)" "dval (math_round p) = of_int (round (dval p))"
proof -
  show "is_finite (math_round p)" using assms by (cases p) simp_all
  have "- (1 / 2) \<le> x \<Longrightarrow> x < 0 \<Longrightarrow> round x = 0" for x :: real
    by (simp add: round_def floor_eq_iff)
  then show "dval (math_round p) = of_int (round (dval p))"
    using assms by (cases p) (auto simp: round_def)
qed

lemma math_round_result:
  assumes "is_finite (math_round p)"
  shows "is_finite p"
  using assms by (cases p) simp_all

section \<open>Evaluation of the examples\<close>

text \<open>
  The operations that the examples of the following sections go through, one lemma for
  each: the operation on doubles, the rounding it performs on the reals, and the bounds
  of the viewports among the reals of the format.
\<close>

lemma representable_1: "representable (- (5 / 2))"
  unfolding representable_def
  by (subst fl_in_binade [where e = 1]) (simp_all add: round_half_even_def powr_minus Let_def)

lemma representable_2: "representable (1)"
  unfolding representable_def
  by (subst fl_in_binade [where e = 0]) (simp_all add: round_half_even_def powr_minus Let_def)

lemma representable_3: "representable (- (3 / 2))"
  unfolding representable_def
  by (subst fl_in_binade [where e = 0]) (simp_all add: round_half_even_def powr_minus Let_def)

lemma representable_4: "representable (3 / 2)"
  unfolding representable_def
  by (subst fl_in_binade [where e = 0]) (simp_all add: round_half_even_def powr_minus Let_def)

lemma representable_5: "representable (4503599627370497 / 4503599627370496)"
  unfolding representable_def
  by (subst fl_in_binade [where e = 0]) (simp_all add: round_half_even_def powr_minus Let_def)

lemma representable_6: "representable (0)"
  by (simp add: representable_def fl_0)

lemma eval_step_1: "fsub (Num 1) (Num (- (5 / 2))) = Num (7 / 2)"
  by (subst fsub_Num, rule to_double_Num, subst fl_in_binade [where e = 1])
    (simp_all add: round_half_even_def powr_minus Let_def)

lemma round_step_1: "fl (7 / 2) = 7 / 2"
  by (subst fl_in_binade [where e = 1]) (simp_all add: round_half_even_def powr_minus Let_def)

lemma eval_step_2: "fdiv (Num (7 / 2)) (Num 800) = Num (1261007895663739 / 288230376151711744)"
  by (subst fdiv_Num, simp, rule to_double_Num, subst fl_in_binade [where e = "- 8"])
    (simp_all add: round_half_even_def powr_minus Let_def)

lemma round_step_2: "fl (7 / 1600) = 1261007895663739 / 288230376151711744"
  by (subst fl_in_binade [where e = "- 8"]) (simp_all add: round_half_even_def powr_minus Let_def)

lemma eval_step_3: "fmul (Num 353) (Num (1261007895663739 / 288230376151711744)) = Num (3477623337260155 / 2251799813685248)"
  by (subst fmul_Num, rule to_double_Num, subst fl_in_binade [where e = 0])
    (simp_all add: round_half_even_def powr_minus Let_def)

lemma round_step_3: "fl (445135787169299867 / 288230376151711744) = 3477623337260155 / 2251799813685248"
  by (subst fl_in_binade [where e = 0]) (simp_all add: round_half_even_def powr_minus Let_def)

lemma eval_step_4: "fsub (Num (3 / 2)) (Num (- (3 / 2))) = Num 3"
  by (subst fsub_Num, rule to_double_Num, subst fl_in_binade [where e = 1])
    (simp_all add: round_half_even_def powr_minus Let_def)

lemma round_step_4: "fl (3) = 3"
  by (subst fl_in_binade [where e = 1]) (simp_all add: round_half_even_def powr_minus Let_def)

lemma eval_step_5: "fdiv (Num 3) (Num 600) = Num (5764607523034235 / 1152921504606846976)"
  by (subst fdiv_Num, simp, rule to_double_Num, subst fl_in_binade [where e = "- 8"])
    (simp_all add: round_half_even_def powr_minus Let_def)

lemma round_step_5: "fl (1 / 200) = 5764607523034235 / 1152921504606846976"
  by (subst fl_in_binade [where e = "- 8"]) (simp_all add: round_half_even_def powr_minus Let_def)

lemma eval_step_6: "fmul (Num 0) (Num (5764607523034235 / 1152921504606846976)) = Num 0"
  by (simp add: fmul_Num to_double_0)

lemma eval_step_7: "fsub (Num (- (5 / 2))) (Num (3477623337260155 / 2251799813685248)) = Num (- (2276780717868319 / 562949953421312))"
  by (subst fsub_Num, rule to_double_Num, subst fl_in_binade [where e = 2])
    (simp_all add: round_half_even_def powr_minus Let_def)

lemma round_step_6: "fl (- (9107122871473275 / 2251799813685248)) = - (2276780717868319 / 562949953421312)"
  by (subst fl_in_binade [where e = 2]) (simp_all add: round_half_even_def powr_minus Let_def)

lemma eval_step_8: "fsub (Num 1) (Num (3477623337260155 / 2251799813685248)) = Num (- (1225823523574907 / 2251799813685248))"
  by (subst fsub_Num, rule to_double_Num, subst fl_in_binade [where e = "- 1"])
    (simp_all add: round_half_even_def powr_minus Let_def)

lemma round_step_7: "fl (- (1225823523574907 / 2251799813685248)) = - (1225823523574907 / 2251799813685248)"
  by (subst fl_in_binade [where e = "- 1"]) (simp_all add: round_half_even_def powr_minus Let_def)

lemma eval_step_9: "fsub (Num (- (3 / 2))) (Num 0) = Num (- (3 / 2))"
  by (subst fsub_Num, rule to_double_Num, subst fl_in_binade [where e = 0])
    (simp_all add: round_half_even_def powr_minus Let_def)

lemma round_step_8: "fl (- (3 / 2)) = - (3 / 2)"
  by (subst fl_in_binade [where e = 0]) (simp_all add: round_half_even_def powr_minus Let_def)

lemma eval_step_10: "fsub (Num (3 / 2)) (Num 0) = Num (3 / 2)"
  by (subst fsub_Num, rule to_double_Num, subst fl_in_binade [where e = 0])
    (simp_all add: round_half_even_def powr_minus Let_def)

lemma round_step_9: "fl (3 / 2) = 3 / 2"
  by (subst fl_in_binade [where e = 0]) (simp_all add: round_half_even_def powr_minus Let_def)

lemma representable_7: "representable (- (2276780717868319 / 562949953421312))"
  unfolding representable_def
  by (subst fl_in_binade [where e = 2]) (simp_all add: round_half_even_def powr_minus Let_def)

lemma representable_8: "representable (- (1225823523574907 / 2251799813685248))"
  unfolding representable_def
  by (subst fl_in_binade [where e = "- 1"]) (simp_all add: round_half_even_def powr_minus Let_def)

lemma eval_step_11: "fmul (Num 50) (Num (1261007895663739 / 288230376151711744)) = Num (7881299347898369 / 36028797018963968)"
  by (subst fmul_Num, rule to_double_Num, subst fl_in_binade [where e = "- 3"])
    (simp_all add: round_half_even_def powr_minus Let_def)

lemma round_step_10: "fl (31525197391593475 / 144115188075855872) = 7881299347898369 / 36028797018963968"
  by (subst fl_in_binade [where e = "- 3"]) (simp_all add: round_half_even_def powr_minus Let_def)

lemma eval_step_12: "fsub (Num (- (5 / 2))) (Num (7881299347898369 / 36028797018963968)) = Num (- (87 / 32))"
  by (subst fsub_Num, rule to_double_Num, subst fl_in_binade [where e = 1])
    (simp_all add: round_half_even_def powr_minus Let_def)

lemma round_step_11: "fl (- (97953291895308289 / 36028797018963968)) = - (87 / 32)"
  by (subst fl_in_binade [where e = 1]) (simp_all add: round_half_even_def powr_minus Let_def)

lemma eval_step_13: "fsub (Num 1) (Num (7881299347898369 / 36028797018963968)) = Num (25 / 32)"
  by (subst fsub_Num, rule to_double_Num, subst fl_in_binade [where e = "- 1"])
    (simp_all add: round_half_even_def powr_minus Let_def)

lemma round_step_12: "fl (28147497671065599 / 36028797018963968) = 25 / 32"
  by (subst fl_in_binade [where e = "- 1"]) (simp_all add: round_half_even_def powr_minus Let_def)

lemma representable_9: "representable (- (87 / 32))"
  unfolding representable_def
  by (subst fl_in_binade [where e = 1]) (simp_all add: round_half_even_def powr_minus Let_def)

lemma representable_10: "representable (25 / 32)"
  unfolding representable_def
  by (subst fl_in_binade [where e = "- 1"]) (simp_all add: round_half_even_def powr_minus Let_def)

lemma eval_step_14: "fmul (Num (- 50)) (Num (1261007895663739 / 288230376151711744)) = Num (- (7881299347898369 / 36028797018963968))"
  by (subst fmul_Num, rule to_double_Num, subst fl_in_binade [where e = "- 3"])
    (simp_all add: round_half_even_def powr_minus Let_def)

lemma round_step_13: "fl (- (31525197391593475 / 144115188075855872)) = - (7881299347898369 / 36028797018963968)"
  by (subst fl_in_binade [where e = "- 3"]) (simp_all add: round_half_even_def powr_minus Let_def)

lemma eval_step_15: "fsub (Num (- (5 / 2))) (Num (- (7881299347898369 / 36028797018963968))) = Num (- (73 / 32))"
  by (subst fsub_Num, rule to_double_Num, subst fl_in_binade [where e = 1])
    (simp_all add: round_half_even_def powr_minus Let_def)

lemma round_step_14: "fl (- (82190693199511551 / 36028797018963968)) = - (73 / 32)"
  by (subst fl_in_binade [where e = 1]) (simp_all add: round_half_even_def powr_minus Let_def)

lemma eval_step_16: "fsub (Num 1) (Num (- (7881299347898369 / 36028797018963968))) = Num (39 / 32)"
  by (subst fsub_Num, rule to_double_Num, subst fl_in_binade [where e = 0])
    (simp_all add: round_half_even_def powr_minus Let_def)

lemma round_step_15: "fl (43910096366862337 / 36028797018963968) = 39 / 32"
  by (subst fl_in_binade [where e = 0]) (simp_all add: round_half_even_def powr_minus Let_def)

lemma representable_11: "representable (- (73 / 32))"
  unfolding representable_def
  by (subst fl_in_binade [where e = 1]) (simp_all add: round_half_even_def powr_minus Let_def)

lemma representable_12: "representable (39 / 32)"
  unfolding representable_def
  by (subst fl_in_binade [where e = 0]) (simp_all add: round_half_even_def powr_minus Let_def)

lemma eval_step_17: "fmul (Num 0) (Num (1261007895663739 / 288230376151711744)) = Num 0"
  by (simp add: fmul_Num to_double_0)

lemma eval_step_18: "fmul (Num 50) (Num (5764607523034235 / 1152921504606846976)) = Num (1 / 4)"
  by (subst fmul_Num, rule to_double_Num, subst fl_in_binade [where e = "- 2"])
    (simp_all add: round_half_even_def powr_minus Let_def)

lemma round_step_16: "fl (144115188075855875 / 576460752303423488) = 1 / 4"
  by (subst fl_in_binade [where e = "- 2"]) (simp_all add: round_half_even_def powr_minus Let_def)

lemma eval_step_19: "fsub (Num (- (5 / 2))) (Num 0) = Num (- (5 / 2))"
  by (subst fsub_Num, rule to_double_Num, subst fl_in_binade [where e = 1])
    (simp_all add: round_half_even_def powr_minus Let_def)

lemma round_step_17: "fl (- (5 / 2)) = - (5 / 2)"
  by (subst fl_in_binade [where e = 1]) (simp_all add: round_half_even_def powr_minus Let_def)

lemma eval_step_20: "fsub (Num 1) (Num 0) = Num 1"
  by (subst fsub_Num, rule to_double_Num, subst fl_in_binade [where e = 0])
    (simp_all add: round_half_even_def powr_minus Let_def)

lemma round_step_18: "fl (1) = 1"
  by (subst fl_in_binade [where e = 0]) (simp_all add: round_half_even_def powr_minus Let_def)

lemma eval_step_21: "fsub (Num (- (3 / 2))) (Num (1 / 4)) = Num (- (7 / 4))"
  by (subst fsub_Num, rule to_double_Num, subst fl_in_binade [where e = 0])
    (simp_all add: round_half_even_def powr_minus Let_def)

lemma round_step_19: "fl (- (7 / 4)) = - (7 / 4)"
  by (subst fl_in_binade [where e = 0]) (simp_all add: round_half_even_def powr_minus Let_def)

lemma eval_step_22: "fsub (Num (3 / 2)) (Num (1 / 4)) = Num (5 / 4)"
  by (subst fsub_Num, rule to_double_Num, subst fl_in_binade [where e = 0])
    (simp_all add: round_half_even_def powr_minus Let_def)

lemma round_step_20: "fl (5 / 4) = 5 / 4"
  by (subst fl_in_binade [where e = 0]) (simp_all add: round_half_even_def powr_minus Let_def)

lemma representable_13: "representable (- (7 / 4))"
  unfolding representable_def
  by (subst fl_in_binade [where e = 0]) (simp_all add: round_half_even_def powr_minus Let_def)

lemma representable_14: "representable (5 / 4)"
  unfolding representable_def
  by (subst fl_in_binade [where e = 0]) (simp_all add: round_half_even_def powr_minus Let_def)

lemma eval_step_23: "fmul (Num 115) (Num (1261007895663739 / 288230376151711744)) = Num (2265873562520781 / 4503599627370496)"
  by (subst fmul_Num, rule to_double_Num, subst fl_in_binade [where e = "- 1"])
    (simp_all add: round_half_even_def powr_minus Let_def)

lemma round_step_21: "fl (145015908001329985 / 288230376151711744) = 2265873562520781 / 4503599627370496"
  by (subst fl_in_binade [where e = "- 1"]) (simp_all add: round_half_even_def powr_minus Let_def)

lemma eval_step_24: "fadd (Num (- (5 / 2))) (Num (2265873562520781 / 4503599627370496)) = Num (- (8993125505905459 / 4503599627370496))"
  by (subst fadd_Num, rule to_double_Num, subst fl_in_binade [where e = 0])
    (simp_all add: round_half_even_def powr_minus Let_def)

lemma round_step_22: "fl (- (8993125505905459 / 4503599627370496)) = - (8993125505905459 / 4503599627370496)"
  by (subst fl_in_binade [where e = 0]) (simp_all add: round_half_even_def powr_minus Let_def)

lemma eval_step_25: "fmul (Num 300) (Num (5764607523034235 / 1152921504606846976)) = Num (3 / 2)"
  by (subst fmul_Num, rule to_double_Num, subst fl_in_binade [where e = 0])
    (simp_all add: round_half_even_def powr_minus Let_def)

lemma round_step_23: "fl (432345564227567625 / 288230376151711744) = 3 / 2"
  by (subst fl_in_binade [where e = 0]) (simp_all add: round_half_even_def powr_minus Let_def)

lemma eval_step_26: "fadd (Num (- (3 / 2))) (Num (3 / 2)) = Num 0"
  by (simp add: fadd_Num to_double_0)

lemma eval_step_27: "fdiv (Num (7 / 2)) (Num 2) = Num (7 / 4)"
  by (subst fdiv_Num, simp, rule to_double_Num, subst fl_in_binade [where e = 0])
    (simp_all add: round_half_even_def powr_minus Let_def)

lemma round_step_24: "fl (7 / 4) = 7 / 4"
  by (subst fl_in_binade [where e = 0]) (simp_all add: round_half_even_def powr_minus Let_def)

lemma eval_step_28: "fdiv (Num 3) (Num 2) = Num (3 / 2)"
  by (subst fdiv_Num, simp, rule to_double_Num, subst fl_in_binade [where e = 0])
    (simp_all add: round_half_even_def powr_minus Let_def)

lemma eval_step_29: "fdiv (Num (7 / 4)) (Num 2) = Num (7 / 8)"
  by (subst fdiv_Num, simp, rule to_double_Num, subst fl_in_binade [where e = "- 1"])
    (simp_all add: round_half_even_def powr_minus Let_def)

lemma round_step_25: "fl (7 / 8) = 7 / 8"
  by (subst fl_in_binade [where e = "- 1"]) (simp_all add: round_half_even_def powr_minus Let_def)

lemma eval_step_30: "fsub (Num (- (8993125505905459 / 4503599627370496))) (Num (7 / 8)) = Num (- (3233443794963661 / 1125899906842624))"
  by (subst fsub_Num, rule to_double_Num, subst fl_in_binade [where e = 1])
    (simp_all add: round_half_even_def powr_minus Let_def)

lemma round_step_26: "fl (- (12933775179854643 / 4503599627370496)) = - (3233443794963661 / 1125899906842624)"
  by (subst fl_in_binade [where e = 1]) (simp_all add: round_half_even_def powr_minus Let_def)

lemma eval_step_31: "fadd (Num (- (8993125505905459 / 4503599627370496))) (Num (7 / 8)) = Num (- (5052475831956275 / 4503599627370496))"
  by (subst fadd_Num, rule to_double_Num, subst fl_in_binade [where e = 0])
    (simp_all add: round_half_even_def powr_minus Let_def)

lemma round_step_27: "fl (- (5052475831956275 / 4503599627370496)) = - (5052475831956275 / 4503599627370496)"
  by (subst fl_in_binade [where e = 0]) (simp_all add: round_half_even_def powr_minus Let_def)

lemma eval_step_32: "fdiv (Num (3 / 2)) (Num 2) = Num (3 / 4)"
  by (subst fdiv_Num, simp, rule to_double_Num, subst fl_in_binade [where e = "- 1"])
    (simp_all add: round_half_even_def powr_minus Let_def)

lemma round_step_28: "fl (3 / 4) = 3 / 4"
  by (subst fl_in_binade [where e = "- 1"]) (simp_all add: round_half_even_def powr_minus Let_def)

lemma eval_step_33: "fsub (Num 0) (Num (3 / 4)) = Num (- (3 / 4))"
  by (subst fsub_Num, rule to_double_Num, subst fl_in_binade [where e = "- 1"])
    (simp_all add: round_half_even_def powr_minus Let_def)

lemma round_step_29: "fl (- (3 / 4)) = - (3 / 4)"
  by (subst fl_in_binade [where e = "- 1"]) (simp_all add: round_half_even_def powr_minus Let_def)

lemma eval_step_34: "fadd (Num 0) (Num (3 / 4)) = Num (3 / 4)"
  by (subst fadd_Num, rule to_double_Num, subst fl_in_binade [where e = "- 1"])
    (simp_all add: round_half_even_def powr_minus Let_def)

lemma representable_15: "representable (- (3233443794963661 / 1125899906842624))"
  unfolding representable_def
  by (subst fl_in_binade [where e = 1]) (simp_all add: round_half_even_def powr_minus Let_def)

lemma representable_16: "representable (- (5052475831956275 / 4503599627370496))"
  unfolding representable_def
  by (subst fl_in_binade [where e = 0]) (simp_all add: round_half_even_def powr_minus Let_def)

lemma representable_17: "representable (- (3 / 4))"
  unfolding representable_def
  by (subst fl_in_binade [where e = "- 1"]) (simp_all add: round_half_even_def powr_minus Let_def)

lemma representable_18: "representable (3 / 4)"
  unfolding representable_def
  by (subst fl_in_binade [where e = "- 1"]) (simp_all add: round_half_even_def powr_minus Let_def)

lemma eval_step_35: "fdiv (Num (7 / 2)) (Num (1 / 2)) = Num 7"
  by (subst fdiv_Num, simp, rule to_double_Num, subst fl_in_binade [where e = 2])
    (simp_all add: round_half_even_def powr_minus Let_def)

lemma round_step_30: "fl (7) = 7"
  by (subst fl_in_binade [where e = 2]) (simp_all add: round_half_even_def powr_minus Let_def)

lemma eval_step_36: "fdiv (Num 3) (Num (1 / 2)) = Num 6"
  by (subst fdiv_Num, simp, rule to_double_Num, subst fl_in_binade [where e = 2])
    (simp_all add: round_half_even_def powr_minus Let_def)

lemma round_step_31: "fl (6) = 6"
  by (subst fl_in_binade [where e = 2]) (simp_all add: round_half_even_def powr_minus Let_def)

lemma eval_step_37: "fdiv (Num 7) (Num 2) = Num (7 / 2)"
  by (subst fdiv_Num, simp, rule to_double_Num, subst fl_in_binade [where e = 1])
    (simp_all add: round_half_even_def powr_minus Let_def)

lemma eval_step_38: "fsub (Num (- (8993125505905459 / 4503599627370496))) (Num (7 / 2)) = Num (- (6188931050425549 / 1125899906842624))"
  by (subst fsub_Num, rule to_double_Num, subst fl_in_binade [where e = 2])
    (simp_all add: round_half_even_def powr_minus Let_def)

lemma round_step_32: "fl (- (24755724201702195 / 4503599627370496)) = - (6188931050425549 / 1125899906842624)"
  by (subst fl_in_binade [where e = 2]) (simp_all add: round_half_even_def powr_minus Let_def)

lemma eval_step_39: "fadd (Num (- (8993125505905459 / 4503599627370496))) (Num (7 / 2)) = Num (6769473189891277 / 4503599627370496)"
  by (subst fadd_Num, rule to_double_Num, subst fl_in_binade [where e = 0])
    (simp_all add: round_half_even_def powr_minus Let_def)

lemma round_step_33: "fl (6769473189891277 / 4503599627370496) = 6769473189891277 / 4503599627370496"
  by (subst fl_in_binade [where e = 0]) (simp_all add: round_half_even_def powr_minus Let_def)

lemma eval_step_40: "fdiv (Num 6) (Num 2) = Num 3"
  by (subst fdiv_Num, simp, rule to_double_Num, subst fl_in_binade [where e = 1])
    (simp_all add: round_half_even_def powr_minus Let_def)

lemma eval_step_41: "fsub (Num 0) (Num 3) = Num (- 3)"
  by (subst fsub_Num, rule to_double_Num, subst fl_in_binade [where e = 1])
    (simp_all add: round_half_even_def powr_minus Let_def)

lemma round_step_34: "fl (- 3) = - 3"
  by (subst fl_in_binade [where e = 1]) (simp_all add: round_half_even_def powr_minus Let_def)

lemma eval_step_42: "fadd (Num 0) (Num 3) = Num 3"
  by (subst fadd_Num, rule to_double_Num, subst fl_in_binade [where e = 1])
    (simp_all add: round_half_even_def powr_minus Let_def)

lemma representable_19: "representable (- (6188931050425549 / 1125899906842624))"
  unfolding representable_def
  by (subst fl_in_binade [where e = 2]) (simp_all add: round_half_even_def powr_minus Let_def)

lemma representable_20: "representable (6769473189891277 / 4503599627370496)"
  unfolding representable_def
  by (subst fl_in_binade [where e = 0]) (simp_all add: round_half_even_def powr_minus Let_def)

lemma representable_21: "representable (- 3)"
  unfolding representable_def
  by (subst fl_in_binade [where e = 1]) (simp_all add: round_half_even_def powr_minus Let_def)

lemma representable_22: "representable (3)"
  unfolding representable_def
  by (subst fl_in_binade [where e = 1]) (simp_all add: round_half_even_def powr_minus Let_def)

lemma eval_step_43: "fmul (Num 100) (Num (1261007895663739 / 288230376151711744)) = Num (7881299347898369 / 18014398509481984)"
  by (subst fmul_Num, rule to_double_Num, subst fl_in_binade [where e = "- 2"])
    (simp_all add: round_half_even_def powr_minus Let_def)

lemma round_step_35: "fl (31525197391593475 / 72057594037927936) = 7881299347898369 / 18014398509481984"
  by (subst fl_in_binade [where e = "- 2"]) (simp_all add: round_half_even_def powr_minus Let_def)

lemma eval_step_44: "fadd (Num (- (5 / 2))) (Num (7881299347898369 / 18014398509481984)) = Num (- (33 / 16))"
  by (subst fadd_Num, rule to_double_Num, subst fl_in_binade [where e = 1])
    (simp_all add: round_half_even_def powr_minus Let_def)

lemma round_step_36: "fl (- (37154696925806591 / 18014398509481984)) = - (33 / 16)"
  by (subst fl_in_binade [where e = 1]) (simp_all add: round_half_even_def powr_minus Let_def)

lemma eval_step_45: "fmul (Num 100) (Num (5764607523034235 / 1152921504606846976)) = Num (1 / 2)"
  by (subst fmul_Num, rule to_double_Num, subst fl_in_binade [where e = "- 1"])
    (simp_all add: round_half_even_def powr_minus Let_def)

lemma round_step_37: "fl (144115188075855875 / 288230376151711744) = 1 / 2"
  by (subst fl_in_binade [where e = "- 1"]) (simp_all add: round_half_even_def powr_minus Let_def)

lemma eval_step_46: "fadd (Num (- (3 / 2))) (Num (1 / 2)) = Num (- 1)"
  by (subst fadd_Num, rule to_double_Num, subst fl_in_binade [where e = 0])
    (simp_all add: round_half_even_def powr_minus Let_def)

lemma round_step_38: "fl (- 1) = - 1"
  by (subst fl_in_binade [where e = 0]) (simp_all add: round_half_even_def powr_minus Let_def)

lemma eval_step_47: "fmul (Num 300) (Num (1261007895663739 / 288230376151711744)) = Num (5910974510923777 / 4503599627370496)"
  by (subst fmul_Num, rule to_double_Num, subst fl_in_binade [where e = 0])
    (simp_all add: round_half_even_def powr_minus Let_def)

lemma round_step_39: "fl (94575592174780425 / 72057594037927936) = 5910974510923777 / 4503599627370496"
  by (subst fl_in_binade [where e = 0]) (simp_all add: round_half_even_def powr_minus Let_def)

lemma eval_step_48: "fadd (Num (- (5 / 2))) (Num (5910974510923777 / 4503599627370496)) = Num (- (5348024557502463 / 4503599627370496))"
  by (subst fadd_Num, rule to_double_Num, subst fl_in_binade [where e = 0])
    (simp_all add: round_half_even_def powr_minus Let_def)

lemma round_step_40: "fl (- (5348024557502463 / 4503599627370496)) = - (5348024557502463 / 4503599627370496)"
  by (subst fl_in_binade [where e = 0]) (simp_all add: round_half_even_def powr_minus Let_def)

lemma representable_23: "representable (- (33 / 16))"
  unfolding representable_def
  by (subst fl_in_binade [where e = 1]) (simp_all add: round_half_even_def powr_minus Let_def)

lemma representable_24: "representable (- (5348024557502463 / 4503599627370496))"
  unfolding representable_def
  by (subst fl_in_binade [where e = 0]) (simp_all add: round_half_even_def powr_minus Let_def)

lemma representable_25: "representable (- 1)"
  unfolding representable_def
  by (subst fl_in_binade [where e = 0]) (simp_all add: round_half_even_def powr_minus Let_def)

lemma eval_step_49: "fsub (Num (- (1225823523574907 / 2251799813685248))) (Num (- (2276780717868319 / 562949953421312))) = Num (7881299347898369 / 2251799813685248)"
  by (subst fsub_Num, rule to_double_Num, subst fl_in_binade [where e = 1])
    (simp_all add: round_half_even_def powr_minus Let_def)

lemma round_step_41: "fl (7881299347898369 / 2251799813685248) = 7881299347898369 / 2251799813685248"
  by (subst fl_in_binade [where e = 1]) (simp_all add: round_half_even_def powr_minus Let_def)

lemma eval_step_50: "fsub (Num (4503599627370497 / 4503599627370496)) (Num 1) = Num (1 / 4503599627370496)"
  by (subst fsub_Num, rule to_double_Num, subst fl_in_binade [where e = "- 52"])
    (simp_all add: round_half_even_def powr_minus Let_def)

lemma round_step_42: "fl (1 / 4503599627370496) = 1 / 4503599627370496"
  by (subst fl_in_binade [where e = "- 52"]) (simp_all add: round_half_even_def powr_minus Let_def)

lemma eval_step_51: "fdiv (Num (1 / 4503599627370496)) (Num 800) = Num (5764607523034235 / 20769187434139310514121985316880384)"
  by (subst fdiv_Num, simp, rule to_double_Num, subst fl_in_binade [where e = "- 62"])
    (simp_all add: round_half_even_def powr_minus Let_def)

lemma round_step_43: "fl (1 / 3602879701896396800) = 5764607523034235 / 20769187434139310514121985316880384"
  by (subst fl_in_binade [where e = "- 62"]) (simp_all add: round_half_even_def powr_minus Let_def)

lemma eval_step_52: "fmul (Num 50) (Num (5764607523034235 / 20769187434139310514121985316880384)) = Num (1 / 72057594037927936)"
  by (subst fmul_Num, rule to_double_Num, subst fl_in_binade [where e = "- 56"])
    (simp_all add: round_half_even_def powr_minus Let_def)

lemma round_step_44: "fl (144115188075855875 / 10384593717069655257060992658440192) = 1 / 72057594037927936"
  by (subst fl_in_binade [where e = "- 56"]) (simp_all add: round_half_even_def powr_minus Let_def)

lemma eval_step_53: "fdiv (Num 1) (Num 600) = Num (7686143364045647 / 4611686018427387904)"
  by (subst fdiv_Num, simp, rule to_double_Num, subst fl_in_binade [where e = "- 10"])
    (simp_all add: round_half_even_def powr_minus Let_def)

lemma round_step_45: "fl (1 / 600) = 7686143364045647 / 4611686018427387904"
  by (subst fl_in_binade [where e = "- 10"]) (simp_all add: round_half_even_def powr_minus Let_def)

lemma eval_step_54: "fmul (Num 0) (Num (7686143364045647 / 4611686018427387904)) = Num 0"
  by (simp add: fmul_Num to_double_0)

lemma eval_step_55: "fsub (Num 1) (Num (1 / 72057594037927936)) = Num 1"
  by (subst fsub_Num, rule to_double_Num, subst fl_in_binade [where e = "- 1"])
    (simp_all add: round_half_even_def powr_minus Let_def)

lemma round_step_46: "fl (72057594037927935 / 72057594037927936) = 1"
  by (subst fl_in_binade [where e = "- 1"]) (simp_all add: round_half_even_def powr_minus Let_def)

lemma eval_step_56: "fsub (Num (4503599627370497 / 4503599627370496)) (Num (1 / 72057594037927936)) = Num (4503599627370497 / 4503599627370496)"
  by (subst fsub_Num, rule to_double_Num, subst fl_in_binade [where e = 0])
    (simp_all add: round_half_even_def powr_minus Let_def)

lemma round_step_47: "fl (72057594037927951 / 72057594037927936) = 4503599627370497 / 4503599627370496"
  by (subst fl_in_binade [where e = 0]) (simp_all add: round_half_even_def powr_minus Let_def)

lemma eval_step_57: "fsub (Num 0) (Num 0) = Num 0"
  by (simp add: fsub_Num to_double_0)

lemma eval_step_58: "fsub (Num (- (5052475831956275 / 4503599627370496))) (Num (- (3233443794963661 / 1125899906842624))) = Num (7881299347898369 / 4503599627370496)"
  by (subst fsub_Num, rule to_double_Num, subst fl_in_binade [where e = 0])
    (simp_all add: round_half_even_def powr_minus Let_def)

lemma round_step_48: "fl (7881299347898369 / 4503599627370496) = 7881299347898369 / 4503599627370496"
  by (subst fl_in_binade [where e = 0]) (simp_all add: round_half_even_def powr_minus Let_def)

lemma eval_step_59: "fadd (Num (- (3233443794963661 / 1125899906842624))) (Num (- (5052475831956275 / 4503599627370496))) = Num (- (2248281376476365 / 562949953421312))"
  by (subst fadd_Num, rule to_double_Num, subst fl_in_binade [where e = 1])
    (simp_all add: round_half_even_def powr_minus Let_def)

lemma round_step_49: "fl (- (17986251011810919 / 4503599627370496)) = - (2248281376476365 / 562949953421312)"
  by (subst fl_in_binade [where e = 1]) (simp_all add: round_half_even_def powr_minus Let_def)

lemma eval_step_60: "fdiv (Num (- (2248281376476365 / 562949953421312))) (Num 2) = Num (- (2248281376476365 / 1125899906842624))"
  by (subst fdiv_Num, simp, rule to_double_Num, subst fl_in_binade [where e = 0])
    (simp_all add: round_half_even_def powr_minus Let_def)

lemma round_step_50: "fl (- (2248281376476365 / 1125899906842624)) = - (2248281376476365 / 1125899906842624)"
  by (subst fl_in_binade [where e = 0]) (simp_all add: round_half_even_def powr_minus Let_def)

lemma eval_step_61: "fsub (Num (6769473189891277 / 4503599627370496)) (Num (- (6188931050425549 / 1125899906842624))) = Num 7"
  by (subst fsub_Num, rule to_double_Num, subst fl_in_binade [where e = 2])
    (simp_all add: round_half_even_def powr_minus Let_def)

lemma round_step_51: "fl (31525197391593473 / 4503599627370496) = 7"
  by (subst fl_in_binade [where e = 2]) (simp_all add: round_half_even_def powr_minus Let_def)

lemma eval_step_62: "fadd (Num (- (6188931050425549 / 1125899906842624))) (Num (6769473189891277 / 4503599627370496)) = Num (- (2248281376476365 / 562949953421312))"
  by (subst fadd_Num, rule to_double_Num, subst fl_in_binade [where e = 1])
    (simp_all add: round_half_even_def powr_minus Let_def)

lemma eval_step_63: "fmul (Num 400) (Num (1261007895663739 / 288230376151711744)) = Num (7881299347898369 / 4503599627370496)"
  by (subst fmul_Num, rule to_double_Num, subst fl_in_binade [where e = 0])
    (simp_all add: round_half_even_def powr_minus Let_def)

lemma round_step_52: "fl (31525197391593475 / 18014398509481984) = 7881299347898369 / 4503599627370496"
  by (subst fl_in_binade [where e = 0]) (simp_all add: round_half_even_def powr_minus Let_def)

lemma eval_step_64: "fadd (Num (- (5 / 2))) (Num (7881299347898369 / 4503599627370496)) = Num (- (3377699720527871 / 4503599627370496))"
  by (subst fadd_Num, rule to_double_Num, subst fl_in_binade [where e = "- 1"])
    (simp_all add: round_half_even_def powr_minus Let_def)

lemma round_step_53: "fl (- (3377699720527871 / 4503599627370496)) = - (3377699720527871 / 4503599627370496)"
  by (subst fl_in_binade [where e = "- 1"]) (simp_all add: round_half_even_def powr_minus Let_def)

lemma eval_step_65: "fdiv (Num 800) (Num (7 / 2)) = Num (8042142191733029 / 35184372088832)"
  by (subst fdiv_Num, simp, rule to_double_Num, subst fl_in_binade [where e = 7])
    (simp_all add: round_half_even_def powr_minus Let_def)

lemma round_step_54: "fl (1600 / 7) = 8042142191733029 / 35184372088832"
  by (subst fl_in_binade [where e = 7]) (simp_all add: round_half_even_def powr_minus Let_def)

lemma eval_step_66: "fdiv (Num 600) (Num 3) = Num 200"
  by (subst fdiv_Num, simp, rule to_double_Num, subst fl_in_binade [where e = 7])
    (simp_all add: round_half_even_def powr_minus Let_def)

lemma round_step_55: "fl (200) = 200"
  by (subst fl_in_binade [where e = 7]) (simp_all add: round_half_even_def powr_minus Let_def)

lemma eval_step_67: "fsub (Num (- (3377699720527871 / 4503599627370496))) (Num (- (5 / 2))) = Num (7881299347898369 / 4503599627370496)"
  by (subst fsub_Num, rule to_double_Num, subst fl_in_binade [where e = 0])
    (simp_all add: round_half_even_def powr_minus Let_def)

lemma eval_step_68: "fmul (Num (7881299347898369 / 4503599627370496)) (Num (8042142191733029 / 35184372088832)) = Num (7036874417766401 / 17592186044416)"
  by (subst fmul_Num, rule to_double_Num, subst fl_in_binade [where e = 8])
    (simp_all add: round_half_even_def powr_minus Let_def)

lemma round_step_56: "fl (63382530011411481494677072529701 / 158456325028528675187087900672) = 7036874417766401 / 17592186044416"
  by (subst fl_in_binade [where e = 8]) (simp_all add: round_half_even_def powr_minus Let_def)

lemma eval_step_69: "fsub (Num 0) (Num (- (3 / 2))) = Num (3 / 2)"
  by (subst fsub_Num, rule to_double_Num, subst fl_in_binade [where e = 0])
    (simp_all add: round_half_even_def powr_minus Let_def)

lemma eval_step_70: "fmul (Num (3 / 2)) (Num 200) = Num 300"
  by (subst fmul_Num, rule to_double_Num, subst fl_in_binade [where e = 8])
    (simp_all add: round_half_even_def powr_minus Let_def)

lemma round_step_57: "fl (300) = 300"
  by (subst fl_in_binade [where e = 8]) (simp_all add: round_half_even_def powr_minus Let_def)

lemma eval_step_71: "fmul (Num 400) (Num (5764607523034235 / 20769187434139310514121985316880384)) = Num (1 / 9007199254740992)"
  by (subst fmul_Num, rule to_double_Num, subst fl_in_binade [where e = "- 53"])
    (simp_all add: round_half_even_def powr_minus Let_def)

lemma round_step_58: "fl (144115188075855875 / 1298074214633706907132624082305024) = 1 / 9007199254740992"
  by (subst fl_in_binade [where e = "- 53"]) (simp_all add: round_half_even_def powr_minus Let_def)

lemma eval_step_72: "fadd (Num 1) (Num (1 / 9007199254740992)) = Num 1"
  by (subst fadd_Num, rule to_double_Num, subst fl_in_binade [where e = 0])
    (simp_all add: round_half_even_def powr_minus Let_def)

lemma round_step_59: "fl (9007199254740993 / 9007199254740992) = 1"
  by (subst fl_in_binade [where e = 0]) (simp_all add: round_half_even_def powr_minus Let_def)

lemma eval_step_73: "fmul (Num 300) (Num (7686143364045647 / 4611686018427387904)) = Num (1 / 2)"
  by (subst fmul_Num, rule to_double_Num, subst fl_in_binade [where e = "- 1"])
    (simp_all add: round_half_even_def powr_minus Let_def)

lemma round_step_60: "fl (576460752303423525 / 1152921504606846976) = 1 / 2"
  by (subst fl_in_binade [where e = "- 1"]) (simp_all add: round_half_even_def powr_minus Let_def)

lemma eval_step_74: "fadd (Num 0) (Num (1 / 2)) = Num (1 / 2)"
  by (subst fadd_Num, rule to_double_Num, subst fl_in_binade [where e = "- 1"])
    (simp_all add: round_half_even_def powr_minus Let_def)

lemma round_step_61: "fl (1 / 2) = 1 / 2"
  by (subst fl_in_binade [where e = "- 1"]) (simp_all add: round_half_even_def powr_minus Let_def)

lemma eval_step_75: "fdiv (Num 800) (Num (1 / 4503599627370496)) = Num 3602879701896396800"
  by (subst fdiv_Num, simp, rule to_double_Num, subst fl_in_binade [where e = 61])
    (simp_all add: round_half_even_def powr_minus Let_def)

lemma round_step_62: "fl (3602879701896396800) = 3602879701896396800"
  by (subst fl_in_binade [where e = 61]) (simp_all add: round_half_even_def powr_minus Let_def)

lemma eval_step_76: "fdiv (Num 600) (Num 1) = Num 600"
  by (subst fdiv_Num, simp, rule to_double_Num, subst fl_in_binade [where e = 9])
    (simp_all add: round_half_even_def powr_minus Let_def)

lemma round_step_63: "fl (600) = 600"
  by (subst fl_in_binade [where e = 9]) (simp_all add: round_half_even_def powr_minus Let_def)

lemma eval_step_77: "fsub (Num 1) (Num 1) = Num 0"
  by (simp add: fsub_Num to_double_0)

lemma eval_step_78: "fmul (Num 0) (Num 3602879701896396800) = Num 0"
  by (simp add: fmul_Num to_double_0)

lemma eval_step_79: "fsub (Num (1 / 2)) (Num 0) = Num (1 / 2)"
  by (subst fsub_Num, rule to_double_Num, subst fl_in_binade [where e = "- 1"])
    (simp_all add: round_half_even_def powr_minus Let_def)

lemma eval_step_80: "fmul (Num (1 / 2)) (Num 600) = Num 300"
  by (subst fmul_Num, rule to_double_Num, subst fl_in_binade [where e = 8])
    (simp_all add: round_half_even_def powr_minus Let_def)

lemma eval_step_81: "fmul (Num 700) (Num (1261007895663739 / 288230376151711744)) = Num (6896136929411073 / 2251799813685248)"
  by (subst fmul_Num, rule to_double_Num, subst fl_in_binade [where e = 1])
    (simp_all add: round_half_even_def powr_minus Let_def)

lemma round_step_64: "fl (220676381741154325 / 72057594037927936) = 6896136929411073 / 2251799813685248"
  by (subst fl_in_binade [where e = 1]) (simp_all add: round_half_even_def powr_minus Let_def)

lemma eval_step_82: "fadd (Num (- (5 / 2))) (Num (6896136929411073 / 2251799813685248)) = Num (1266637395197953 / 2251799813685248)"
  by (subst fadd_Num, rule to_double_Num, subst fl_in_binade [where e = "- 1"])
    (simp_all add: round_half_even_def powr_minus Let_def)

lemma round_step_65: "fl (1266637395197953 / 2251799813685248) = 1266637395197953 / 2251799813685248"
  by (subst fl_in_binade [where e = "- 1"]) (simp_all add: round_half_even_def powr_minus Let_def)

lemma eval_step_83: "fmul (Num 900) (Num (1261007895663739 / 288230376151711744)) = Num (8866461766385665 / 2251799813685248)"
  by (subst fmul_Num, rule to_double_Num, subst fl_in_binade [where e = 1])
    (simp_all add: round_half_even_def powr_minus Let_def)

lemma round_step_66: "fl (283726776524341275 / 72057594037927936) = 8866461766385665 / 2251799813685248"
  by (subst fl_in_binade [where e = 1]) (simp_all add: round_half_even_def powr_minus Let_def)

lemma eval_step_84: "fadd (Num (- (5 / 2))) (Num (8866461766385665 / 2251799813685248)) = Num (3236962232172545 / 2251799813685248)"
  by (subst fadd_Num, rule to_double_Num, subst fl_in_binade [where e = 0])
    (simp_all add: round_half_even_def powr_minus Let_def)

lemma round_step_67: "fl (3236962232172545 / 2251799813685248) = 3236962232172545 / 2251799813685248"
  by (subst fl_in_binade [where e = 0]) (simp_all add: round_half_even_def powr_minus Let_def)

lemma eval_step_85: "fmul (Num 100) (Num (5764607523034235 / 20769187434139310514121985316880384)) = Num (1 / 36028797018963968)"
  by (subst fmul_Num, rule to_double_Num, subst fl_in_binade [where e = "- 55"])
    (simp_all add: round_half_even_def powr_minus Let_def)

lemma round_step_68: "fl (144115188075855875 / 5192296858534827628530496329220096) = 1 / 36028797018963968"
  by (subst fl_in_binade [where e = "- 55"]) (simp_all add: round_half_even_def powr_minus Let_def)

lemma eval_step_86: "fadd (Num 1) (Num (1 / 36028797018963968)) = Num 1"
  by (subst fadd_Num, rule to_double_Num, subst fl_in_binade [where e = 0])
    (simp_all add: round_half_even_def powr_minus Let_def)

lemma round_step_69: "fl (36028797018963969 / 36028797018963968) = 1"
  by (subst fl_in_binade [where e = 0]) (simp_all add: round_half_even_def powr_minus Let_def)

lemma eval_step_87: "fmul (Num 100) (Num (7686143364045647 / 4611686018427387904)) = Num (3002399751580331 / 18014398509481984)"
  by (subst fmul_Num, rule to_double_Num, subst fl_in_binade [where e = "- 3"])
    (simp_all add: round_half_even_def powr_minus Let_def)

lemma round_step_70: "fl (192153584101141175 / 1152921504606846976) = 3002399751580331 / 18014398509481984"
  by (subst fl_in_binade [where e = "- 3"]) (simp_all add: round_half_even_def powr_minus Let_def)

lemma eval_step_88: "fadd (Num 0) (Num (3002399751580331 / 18014398509481984)) = Num (3002399751580331 / 18014398509481984)"
  by (subst fadd_Num, rule to_double_Num, subst fl_in_binade [where e = "- 3"])
    (simp_all add: round_half_even_def powr_minus Let_def)

lemma round_step_71: "fl (3002399751580331 / 18014398509481984) = 3002399751580331 / 18014398509481984"
  by (subst fl_in_binade [where e = "- 3"]) (simp_all add: round_half_even_def powr_minus Let_def)

lemma eval_step_89: "fmul (Num 300) (Num (5764607523034235 / 20769187434139310514121985316880384)) = Num (3 / 36028797018963968)"
  by (subst fmul_Num, rule to_double_Num, subst fl_in_binade [where e = "- 54"])
    (simp_all add: round_half_even_def powr_minus Let_def)

lemma round_step_72: "fl (432345564227567625 / 5192296858534827628530496329220096) = 3 / 36028797018963968"
  by (subst fl_in_binade [where e = "- 54"]) (simp_all add: round_half_even_def powr_minus Let_def)

lemma eval_step_90: "fadd (Num 1) (Num (3 / 36028797018963968)) = Num 1"
  by (subst fadd_Num, rule to_double_Num, subst fl_in_binade [where e = 0])
    (simp_all add: round_half_even_def powr_minus Let_def)

lemma round_step_73: "fl (36028797018963971 / 36028797018963968) = 1"
  by (subst fl_in_binade [where e = 0]) (simp_all add: round_half_even_def powr_minus Let_def)

lemma eval_step_91: "fmul (Num 800) (Num (1261007895663739 / 288230376151711744)) = Num (7881299347898369 / 2251799813685248)"
  by (subst fmul_Num, rule to_double_Num, subst fl_in_binade [where e = 1])
    (simp_all add: round_half_even_def powr_minus Let_def)

lemma round_step_74: "fl (31525197391593475 / 9007199254740992) = 7881299347898369 / 2251799813685248"
  by (subst fl_in_binade [where e = 1]) (simp_all add: round_half_even_def powr_minus Let_def)

lemma eval_step_92: "fadd (Num (- (5 / 2))) (Num (7881299347898369 / 2251799813685248)) = Num (2251799813685249 / 2251799813685248)"
  by (subst fadd_Num, rule to_double_Num, subst fl_in_binade [where e = 0])
    (simp_all add: round_half_even_def powr_minus Let_def)

lemma round_step_75: "fl (2251799813685249 / 2251799813685248) = 2251799813685249 / 2251799813685248"
  by (subst fl_in_binade [where e = 0]) (simp_all add: round_half_even_def powr_minus Let_def)

lemma eval_step_93: "fmul (Num 600) (Num (5764607523034235 / 1152921504606846976)) = Num 3"
  by (subst fmul_Num, rule to_double_Num, subst fl_in_binade [where e = 1])
    (simp_all add: round_half_even_def powr_minus Let_def)

lemma round_step_76: "fl (432345564227567625 / 144115188075855872) = 3"
  by (subst fl_in_binade [where e = 1]) (simp_all add: round_half_even_def powr_minus Let_def)

lemma eval_step_94: "fadd (Num (- (3 / 2))) (Num 3) = Num (3 / 2)"
  by (subst fadd_Num, rule to_double_Num, subst fl_in_binade [where e = 0])
    (simp_all add: round_half_even_def powr_minus Let_def)

lemma eval_step_95: "fdiv (Num 3) (Num 1) = Num 3"
  by (subst fdiv_Num, simp, rule to_double_Num, subst fl_in_binade [where e = 1])
    (simp_all add: round_half_even_def powr_minus Let_def)

lemma eval_step_96: "fmul (Num 0) (Num (7 / 4)) = Num 0"
  by (simp add: fmul_Num to_double_0)

lemma eval_step_97: "fadd (Num (- (5 / 2))) (Num 0) = Num (- (5 / 2))"
  by (subst fadd_Num, rule to_double_Num, subst fl_in_binade [where e = 1])
    (simp_all add: round_half_even_def powr_minus Let_def)

lemma eval_step_98: "fmul (Num 0) (Num 3) = Num 0"
  by (simp add: fmul_Num to_double_0)

lemma eval_step_99: "fadd (Num (- (3 / 2))) (Num 0) = Num (- (3 / 2))"
  by (subst fadd_Num, rule to_double_Num, subst fl_in_binade [where e = 0])
    (simp_all add: round_half_even_def powr_minus Let_def)

lemma eval_step_100: "fmul (Num 0) (Num 0) = Num 0"
  by (simp add: fmul_Num to_double_0)

lemma eval_step_101: "fadd (Num 0) (Num 0) = Num 0"
  by (simp add: fadd_Num to_double_0)

lemma eval_step_102: "fadd (Num 0) (Num (- (5 / 2))) = Num (- (5 / 2))"
  by (subst fadd_Num, rule to_double_Num, subst fl_in_binade [where e = 1])
    (simp_all add: round_half_even_def powr_minus Let_def)

lemma eval_step_103: "fmul (Num 2) (Num 0) = Num 0"
  by (simp add: fmul_Num to_double_0)

lemma eval_step_104: "fadd (Num 0) (Num (- (3 / 2))) = Num (- (3 / 2))"
  by (subst fadd_Num, rule to_double_Num, subst fl_in_binade [where e = 0])
    (simp_all add: round_half_even_def powr_minus Let_def)

lemma eval_step_105: "fadd (Num 0) (Num 1) = Num 1"
  by (subst fadd_Num, rule to_double_Num, subst fl_in_binade [where e = 0])
    (simp_all add: round_half_even_def powr_minus Let_def)

lemma eval_step_106: "fmul (Num (- (5 / 2))) (Num (- (5 / 2))) = Num (25 / 4)"
  by (subst fmul_Num, rule to_double_Num, subst fl_in_binade [where e = 2])
    (simp_all add: round_half_even_def powr_minus Let_def)

lemma round_step_77: "fl (25 / 4) = 25 / 4"
  by (subst fl_in_binade [where e = 2]) (simp_all add: round_half_even_def powr_minus Let_def)

lemma eval_step_107: "fmul (Num (- (3 / 2))) (Num (- (3 / 2))) = Num (9 / 4)"
  by (subst fmul_Num, rule to_double_Num, subst fl_in_binade [where e = 1])
    (simp_all add: round_half_even_def powr_minus Let_def)

lemma round_step_78: "fl (9 / 4) = 9 / 4"
  by (subst fl_in_binade [where e = 1]) (simp_all add: round_half_even_def powr_minus Let_def)

lemma eval_step_108: "fadd (Num (25 / 4)) (Num (9 / 4)) = Num (17 / 2)"
  by (subst fadd_Num, rule to_double_Num, subst fl_in_binade [where e = 3])
    (simp_all add: round_half_even_def powr_minus Let_def)

lemma round_step_79: "fl (17 / 2) = 17 / 2"
  by (subst fl_in_binade [where e = 3]) (simp_all add: round_half_even_def powr_minus Let_def)

lemma eval_step_109: "fdiv (Num 1) (Num 2) = Num (1 / 2)"
  by (subst fdiv_Num, simp, rule to_double_Num, subst fl_in_binade [where e = "- 1"])
    (simp_all add: round_half_even_def powr_minus Let_def)

lemma eval_step_110: "fsub (Num 1) (Num (1 / 2)) = Num (1 / 2)"
  by (subst fsub_Num, rule to_double_Num, subst fl_in_binade [where e = "- 1"])
    (simp_all add: round_half_even_def powr_minus Let_def)

lemma eval_step_111: "fmul (Num 255) (Num (1 / 2)) = Num (255 / 2)"
  by (subst fmul_Num, rule to_double_Num, subst fl_in_binade [where e = 6])
    (simp_all add: round_half_even_def powr_minus Let_def)

lemma round_step_80: "fl (255 / 2) = 255 / 2"
  by (subst fl_in_binade [where e = 6]) (simp_all add: round_half_even_def powr_minus Let_def)

lemma eval_step_112: "fmul (Num 1) (Num (7 / 4)) = Num (7 / 4)"
  by (subst fmul_Num, rule to_double_Num, subst fl_in_binade [where e = 0])
    (simp_all add: round_half_even_def powr_minus Let_def)

lemma eval_step_113: "fadd (Num (- (5 / 2))) (Num (7 / 4)) = Num (- (3 / 4))"
  by (subst fadd_Num, rule to_double_Num, subst fl_in_binade [where e = "- 1"])
    (simp_all add: round_half_even_def powr_minus Let_def)

lemma eval_step_114: "fadd (Num 0) (Num (- (3 / 4))) = Num (- (3 / 4))"
  by (subst fadd_Num, rule to_double_Num, subst fl_in_binade [where e = "- 1"])
    (simp_all add: round_half_even_def powr_minus Let_def)

lemma eval_step_115: "fmul (Num (- (3 / 4))) (Num (- (3 / 4))) = Num (9 / 16)"
  by (subst fmul_Num, rule to_double_Num, subst fl_in_binade [where e = "- 1"])
    (simp_all add: round_half_even_def powr_minus Let_def)

lemma round_step_81: "fl (9 / 16) = 9 / 16"
  by (subst fl_in_binade [where e = "- 1"]) (simp_all add: round_half_even_def powr_minus Let_def)

lemma eval_step_116: "fadd (Num (9 / 16)) (Num (9 / 4)) = Num (45 / 16)"
  by (subst fadd_Num, rule to_double_Num, subst fl_in_binade [where e = 1])
    (simp_all add: round_half_even_def powr_minus Let_def)

lemma round_step_82: "fl (45 / 16) = 45 / 16"
  by (subst fl_in_binade [where e = 1]) (simp_all add: round_half_even_def powr_minus Let_def)

lemma eval_step_117: "fsub (Num (9 / 16)) (Num (9 / 4)) = Num (- (27 / 16))"
  by (subst fsub_Num, rule to_double_Num, subst fl_in_binade [where e = 0])
    (simp_all add: round_half_even_def powr_minus Let_def)

lemma round_step_83: "fl (- (27 / 16)) = - (27 / 16)"
  by (subst fl_in_binade [where e = 0]) (simp_all add: round_half_even_def powr_minus Let_def)

lemma eval_step_118: "fadd (Num (- (27 / 16))) (Num (- (3 / 4))) = Num (- (39 / 16))"
  by (subst fadd_Num, rule to_double_Num, subst fl_in_binade [where e = 1])
    (simp_all add: round_half_even_def powr_minus Let_def)

lemma round_step_84: "fl (- (39 / 16)) = - (39 / 16)"
  by (subst fl_in_binade [where e = 1]) (simp_all add: round_half_even_def powr_minus Let_def)

lemma eval_step_119: "fmul (Num 2) (Num (- (3 / 4))) = Num (- (3 / 2))"
  by (subst fmul_Num, rule to_double_Num, subst fl_in_binade [where e = 0])
    (simp_all add: round_half_even_def powr_minus Let_def)

lemma eval_step_120: "fadd (Num (9 / 4)) (Num (- (3 / 2))) = Num (3 / 4)"
  by (subst fadd_Num, rule to_double_Num, subst fl_in_binade [where e = "- 1"])
    (simp_all add: round_half_even_def powr_minus Let_def)

lemma eval_step_121: "fadd (Num 1) (Num 1) = Num 2"
  by (subst fadd_Num, rule to_double_Num, subst fl_in_binade [where e = 1])
    (simp_all add: round_half_even_def powr_minus Let_def)

lemma round_step_85: "fl (2) = 2"
  by (subst fl_in_binade [where e = 1]) (simp_all add: round_half_even_def powr_minus Let_def)

lemma eval_step_122: "fmul (Num (- (39 / 16))) (Num (- (39 / 16))) = Num (1521 / 256)"
  by (subst fmul_Num, rule to_double_Num, subst fl_in_binade [where e = 2])
    (simp_all add: round_half_even_def powr_minus Let_def)

lemma round_step_86: "fl (1521 / 256) = 1521 / 256"
  by (subst fl_in_binade [where e = 2]) (simp_all add: round_half_even_def powr_minus Let_def)

lemma eval_step_123: "fmul (Num (3 / 4)) (Num (3 / 4)) = Num (9 / 16)"
  by (subst fmul_Num, rule to_double_Num, subst fl_in_binade [where e = "- 1"])
    (simp_all add: round_half_even_def powr_minus Let_def)

lemma eval_step_124: "fadd (Num (1521 / 256)) (Num (9 / 16)) = Num (1665 / 256)"
  by (subst fadd_Num, rule to_double_Num, subst fl_in_binade [where e = 2])
    (simp_all add: round_half_even_def powr_minus Let_def)

lemma round_step_87: "fl (1665 / 256) = 1665 / 256"
  by (subst fl_in_binade [where e = 2]) (simp_all add: round_half_even_def powr_minus Let_def)

lemma eval_step_125: "fdiv (Num 30) (Num 100) = Num (5404319552844595 / 18014398509481984)"
  by (subst fdiv_Num, simp, rule to_double_Num, subst fl_in_binade [where e = "- 2"])
    (simp_all add: round_half_even_def powr_minus Let_def)

lemma round_step_88: "fl (3 / 10) = 5404319552844595 / 18014398509481984"
  by (subst fl_in_binade [where e = "- 2"]) (simp_all add: round_half_even_def powr_minus Let_def)

lemma eval_step_126: "fmul (Num (5404319552844595 / 18014398509481984)) (Num 4) = Num (5404319552844595 / 4503599627370496)"
  by (subst fmul_Num, rule to_double_Num, subst fl_in_binade [where e = 0])
    (simp_all add: round_half_even_def powr_minus Let_def)

lemma round_step_89: "fl (5404319552844595 / 4503599627370496) = 5404319552844595 / 4503599627370496"
  by (subst fl_in_binade [where e = 0]) (simp_all add: round_half_even_def powr_minus Let_def)

lemma eval_step_127: "fsub (Num (5404319552844595 / 4503599627370496)) (Num 1) = Num (900719925474099 / 4503599627370496)"
  by (subst fsub_Num, rule to_double_Num, subst fl_in_binade [where e = "- 3"])
    (simp_all add: round_half_even_def powr_minus Let_def)

lemma round_step_90: "fl (900719925474099 / 4503599627370496) = 900719925474099 / 4503599627370496"
  by (subst fl_in_binade [where e = "- 3"]) (simp_all add: round_half_even_def powr_minus Let_def)

lemma eval_step_128: "fmul (Num 255) (Num (900719925474099 / 4503599627370496)) = Num (3588805953060863 / 70368744177664)"
  by (subst fmul_Num, rule to_double_Num, subst fl_in_binade [where e = 5])
    (simp_all add: round_half_even_def powr_minus Let_def)

lemma round_step_91: "fl (229683580995895245 / 4503599627370496) = 3588805953060863 / 70368744177664"
  by (subst fl_in_binade [where e = 5]) (simp_all add: round_half_even_def powr_minus Let_def)

lemma eval_step_129: "fdiv (Num 1) (Num 1) = Num 1"
  by (subst fdiv_Num, simp, rule to_double_Num, subst fl_in_binade [where e = 0])
    (simp_all add: round_half_even_def powr_minus Let_def)

lemma eval_step_130: "fmul (Num 0) (Num 1) = Num 0"
  by (simp add: fmul_Num to_double_0)

lemma eval_step_131: "fadd (Num 2) (Num 1) = Num 3"
  by (subst fadd_Num, rule to_double_Num, subst fl_in_binade [where e = 1])
    (simp_all add: round_half_even_def powr_minus Let_def)

lemma eval_step_132: "fdiv (Num 3) (Num (5 / 2)) = Num (5404319552844595 / 4503599627370496)"
  by (subst fdiv_Num, simp, rule to_double_Num, subst fl_in_binade [where e = 0])
    (simp_all add: round_half_even_def powr_minus Let_def)

lemma round_step_92: "fl (6 / 5) = 5404319552844595 / 4503599627370496"
  by (subst fl_in_binade [where e = 0]) (simp_all add: round_half_even_def powr_minus Let_def)

lemma eval_step_133: "fsub (Num 1) (Num (5404319552844595 / 4503599627370496)) = Num (- (900719925474099 / 4503599627370496))"
  by (subst fsub_Num, rule to_double_Num, subst fl_in_binade [where e = "- 3"])
    (simp_all add: round_half_even_def powr_minus Let_def)

lemma round_step_93: "fl (- (900719925474099 / 4503599627370496)) = - (900719925474099 / 4503599627370496)"
  by (subst fl_in_binade [where e = "- 3"]) (simp_all add: round_half_even_def powr_minus Let_def)

lemma eval_step_134: "fmul (Num 255) (Num (- (900719925474099 / 4503599627370496))) = Num (- (3588805953060863 / 70368744177664))"
  by (subst fmul_Num, rule to_double_Num, subst fl_in_binade [where e = 5])
    (simp_all add: round_half_even_def powr_minus Let_def)

lemma round_step_94: "fl (- (229683580995895245 / 4503599627370496)) = - (3588805953060863 / 70368744177664)"
  by (subst fl_in_binade [where e = 5]) (simp_all add: round_half_even_def powr_minus Let_def)

lemmas eval_steps = eval_step_1 eval_step_2 eval_step_3 eval_step_4 eval_step_5 eval_step_6
  eval_step_7 eval_step_8 eval_step_9 eval_step_10 eval_step_11 eval_step_12 eval_step_13
  eval_step_14 eval_step_15 eval_step_16 eval_step_17 eval_step_18 eval_step_19 eval_step_20
  eval_step_21 eval_step_22 eval_step_23 eval_step_24 eval_step_25 eval_step_26 eval_step_27
  eval_step_28 eval_step_29 eval_step_30 eval_step_31 eval_step_32 eval_step_33 eval_step_34
  eval_step_35 eval_step_36 eval_step_37 eval_step_38 eval_step_39 eval_step_40 eval_step_41
  eval_step_42 eval_step_43 eval_step_44 eval_step_45 eval_step_46 eval_step_47 eval_step_48
  eval_step_49 eval_step_50 eval_step_51 eval_step_52 eval_step_53 eval_step_54 eval_step_55
  eval_step_56 eval_step_57 eval_step_58 eval_step_59 eval_step_60 eval_step_61 eval_step_62
  eval_step_63 eval_step_64 eval_step_65 eval_step_66 eval_step_67 eval_step_68 eval_step_69
  eval_step_70 eval_step_71 eval_step_72 eval_step_73 eval_step_74 eval_step_75 eval_step_76
  eval_step_77 eval_step_78 eval_step_79 eval_step_80 eval_step_81 eval_step_82 eval_step_83
  eval_step_84 eval_step_85 eval_step_86 eval_step_87 eval_step_88 eval_step_89 eval_step_90
  eval_step_91 eval_step_92 eval_step_93 eval_step_94 eval_step_95 eval_step_96 eval_step_97
  eval_step_98 eval_step_99 eval_step_100 eval_step_101 eval_step_102 eval_step_103
  eval_step_104 eval_step_105 eval_step_106 eval_step_107 eval_step_108 eval_step_109
  eval_step_110 eval_step_111 eval_step_112 eval_step_113 eval_step_114 eval_step_115
  eval_step_116 eval_step_117 eval_step_118 eval_step_119 eval_step_120 eval_step_121
  eval_step_122 eval_step_123 eval_step_124 eval_step_125 eval_step_126 eval_step_127
  eval_step_128 eval_step_129 eval_step_130 eval_step_131 eval_step_132 eval_step_133
  eval_step_134

lemmas round_steps = round_step_1 round_step_2 round_step_3 round_step_4 round_step_5
  round_step_6 round_step_7 round_step_8 round_step_9 round_step_10 round_step_11
  round_step_12 round_step_13 round_step_14 round_step_15 round_step_16 round_step_17
  round_step_18 round_step_19 round_step_20 round_step_21 round_step_22 round_step_23
  round_step_24 round_step_25 round_step_26 round_step_27 round_step_28 round_step_29
  round_step_30 round_step_31 round_step_32 round_step_33 round_step_34 round_step_35
  round_step_36 round_step_37 round_step_38 round_step_39 round_step_40 round_step_41
  round_step_42 round_step_43 round_step_44 round_step_45 round_step_46 round_step_47
  round_step_48 round_step_49 round_step_50 round_step_51 round_step_52 round_step_53
  round_step_54 round_step_55 round_step_56 round_step_57 round_step_58 round_step_59
  round_step_60 round_step_61 round_step_62 round_step_63 round_step_64 round_step_65
  round_step_66 round_step_67 round_step_68 round_step_69 round_step_70 round_step_71
  round_step_72 round_step_73 round_step_74 round_step_75 round_step_76 round_step_77
  round_step_78 round_step_79 round_step_80 round_step_81 round_step_82 round_step_83
  round_step_84 round_step_85 round_step_86 round_step_87 round_step_88 round_step_89
  round_step_90 round_step_91 round_step_92 round_step_93 round_step_94

lemmas representable_steps = representable_1 representable_2 representable_3 representable_4
  representable_5 representable_6 representable_7 representable_8 representable_9
  representable_10 representable_11 representable_12 representable_13 representable_14
  representable_15 representable_16 representable_17 representable_18 representable_19
  representable_20 representable_21 representable_22 representable_23 representable_24
  representable_25

text \<open>
  The two viewports of the examples: the default one, and the one from \<open>1\<close> to the next
  double, which repeated zooming reaches.
\<close>

lemma finite_viewport_default: "finite_viewport getDefaultViewport"
  by (simp add: finite_viewport_def finite_double_def getDefaultViewport_def representable_steps)

lemma finite_viewport_deep:
  "finite_viewport \<lparr>xMin = Num 1, xMax = Num (4503599627370497 / 4503599627370496), yMin = Num 0, yMax = Num 1\<rparr>"
  by (simp add: finite_viewport_def finite_double_def representable_steps)

section \<open>The escape-time evaluator\<close>

subsection \<open>On doubles\<close>

text \<open>
  The counter: \<^verbatim>\<open>iteration++\<close> is exact below \<open>2^53\<close>, and at \<open>2^53\<close> it leaves the
  counter where it is.
\<close>

lemma fadd_counter:
  assumes "k < 2 ^ 53"
  shows "fadd (Num (real k)) (Num 1) = Num (real (Suc k))"
proof -
  have le: "real (Suc k) \<le> 2 ^ 53"
    using assms by (metis Suc_leI of_nat_le_iff of_nat_numeral of_nat_power)
  have "fl (real (Suc k)) = real (Suc k)" using assms by (intro fl_of_nat) simp
  moreover have "\<bar>real (Suc k)\<bar> < 2 ^ 1024"
  proof -
    have "(2::real) ^ 53 < 2 ^ 1024" by (intro power_strict_increasing) simp_all
    then show ?thesis using le by linarith
  qed
  ultimately have "to_double False (real (Suc k)) = Num (real (Suc k))"
    by (intro to_double_Num) simp_all
  then show ?thesis by (simp add: fadd_Num add.commute)
qed

lemma fadd_counter_stall: "fadd (Num 9007199254740992) (Num 1) = Num 9007199254740992"
proof -
  have "fl 9007199254740993 = 9007199254740992"
    by (subst fl_in_binade [where e = 53]) (simp_all add: round_half_even_def powr_minus Let_def)
  then have "to_double False 9007199254740993 = Num 9007199254740992"
    by (rule to_double_Num) simp_all
  then show ?thesis by (simp add: fadd_Num)
qed

text \<open>With \<open>c = 0\<close> the iterate never leaves the origin, so only the counter can end the loop.\<close>

lemma origin_iterate:
  "le_d (fadd (fmul (Num 0) (Num 0)) (fmul (Num 0) (Num 0))) (Num 4)"
  "fadd (fsub (fmul (Num 0) (Num 0)) (fmul (Num 0) (Num 0))) (Num 0) = Num 0"
  "fadd (fmul (fmul (Num 2) (Num 0)) (Num 0)) (Num 0) = Num 0"
  by (simp_all add: fmul_Num fsub_Num fadd_Num to_double_0)

lemma mandelbrot_loop_fl_origin_step:
  assumes "it < m"
  shows "mandelbrot_loop_fl (Num 0) (Num 0) (Num m) (Num 0) (Num 0) (Num it)
       = mandelbrot_loop_fl (Num 0) (Num 0) (Num m) (Num 0) (Num 0) (fadd (Num it) (Num 1))"
  by (subst mandelbrot_loop_fl.simps) (simp add: origin_iterate assms)

lemma mandelbrot_loop_fl_stop:
  assumes "\<not> (le_d (fadd (fmul x x) (fmul y y)) (Num 4) \<and> lt_d iteration maxIter)"
  shows "mandelbrot_loop_fl cx cy maxIter x y iteration = Some iteration"
  by (subst mandelbrot_loop_fl.simps) (use assms in auto)

lemma mandelbrot_loop_fl_origin:
  assumes "k \<le> n" "n \<le> 2 ^ 53"
  shows "mandelbrot_loop_fl (Num 0) (Num 0) (Num (real n)) (Num 0) (Num 0) (Num (real k))
       = Some (Num (real n))"
  using assms(1)
proof (induction "n - k" arbitrary: k)
  case 0
  then have "k = n" by simp
  then show ?case by (simp add: mandelbrot_loop_fl_stop)
next
  case (Suc d)
  then have lt: "k < n" and d: "d = n - Suc k" by simp_all
  then have k: "k < 2 ^ 53" using assms(2) by simp
  have "mandelbrot_loop_fl (Num 0) (Num 0) (Num (real n)) (Num 0) (Num 0) (Num (real k))
      = mandelbrot_loop_fl (Num 0) (Num 0) (Num (real n)) (Num 0) (Num 0) (fadd (Num (real k)) (Num 1))"
    using lt by (intro mandelbrot_loop_fl_origin_step) simp
  also have "\<dots> = mandelbrot_loop_fl (Num 0) (Num 0) (Num (real n)) (Num 0) (Num 0) (Num (real (Suc k)))"
    by (simp only: fadd_counter [OF k])
  also have "\<dots> = Some (Num (real n))"
    using lt by (intro Suc.hyps(1) [OF d]) simp
  finally show ?case .
qed

text \<open>
  Beyond \<open>2^53\<close> the loop at the origin does not return: the counter reaches \<open>2^53\<close> and
  stays there, below the limit.
\<close>

lemma mandelbrot_loop_fl_stuck:
  assumes "9007199254740992 < m"
  shows "mandelbrot_loop_fl (Num 0) (Num 0) (Num m) (Num 0) (Num 0) (Num 9007199254740992) = None"
proof (rule ccontr)
  assume "mandelbrot_loop_fl (Num 0) (Num 0) (Num m) (Num 0) (Num 0) (Num 9007199254740992) \<noteq> None"
  then obtain res where res:
    "mandelbrot_loop_fl (Num 0) (Num 0) (Num m) (Num 0) (Num 0) (Num 9007199254740992) = Some res"
    by auto
  define stuck where "stuck cx cy mx x y it \<longleftrightarrow>
      cx = Num 0 \<and> cy = Num 0 \<and> mx = Num m \<and> x = Num 0 \<and> y = Num 0 \<and> it = Num 9007199254740992"
    for cx cy mx x y it :: double
  have "\<not> stuck (Num 0) (Num 0) (Num m) (Num 0) (Num 0) (Num 9007199254740992)"
  proof (rule mandelbrot_loop_fl.raw_induct
      [where P = "\<lambda>cx cy mx x y it v. \<not> stuck cx cy mx x y it"
         and xa = "(((((Num 0, Num 0), Num m), Num 0), Num 0), Num 9007199254740992)"
         and ya = res, unfolded prod.case])
    fix f :: "double \<Rightarrow> double \<Rightarrow> double \<Rightarrow> double \<Rightarrow> double \<Rightarrow> double \<Rightarrow> double option"
    fix cx cy mx x y it v
    assume IH: "\<And>cx cy mx x y it v. f cx cy mx x y it = Some v \<Longrightarrow> \<not> stuck cx cy mx x y it"
    assume eq: "(if le_d (fadd (fmul x x) (fmul y y)) (Num 4) \<and> lt_d it mx
             then f cx cy mx (fadd (fsub (fmul x x) (fmul y y)) cx)
                    (fadd (fmul (fmul (Num 2) x) y) cy) (fadd it (Num 1))
             else Some it) = Some v"
    show "\<not> stuck cx cy mx x y it"
    proof
      assume s: "stuck cx cy mx x y it"
      then have "f (Num 0) (Num 0) (Num m) (Num 0) (Num 0) (Num 9007199254740992) = Some v"
        using eq assms by (simp add: stuck_def origin_iterate fadd_counter_stall)
      from IH [OF this] show False by (simp add: stuck_def)
    qed
  next
    show "mandelbrot_loop_fl (Num 0) (Num 0) (Num m) (Num 0) (Num 0) (Num 9007199254740992) = Some res"
      by (rule res)
  qed
  then show False by (simp add: stuck_def)
qed

lemma mandelbrot_loop_fl_reach:
  assumes "9007199254740992 < m" "k \<le> 2 ^ 53"
  shows "mandelbrot_loop_fl (Num 0) (Num 0) (Num m) (Num 0) (Num 0) (Num (real k)) = None"
  using assms(2)
proof (induction "2 ^ 53 - k" arbitrary: k)
  case 0
  then have "k = 2 ^ 53" by simp
  then have "real k = 9007199254740992" by simp
  then show ?case using mandelbrot_loop_fl_stuck [OF assms(1)] by simp
next
  case (Suc d)
  then have k: "k < 2 ^ 53" and d: "d = 2 ^ 53 - Suc k" by simp_all
  from k have "real k < real (2 ^ 53)" by (simp only: of_nat_less_iff)
  then have "real k < 9007199254740992" by simp
  then have lt: "real k < m" using assms(1) by simp
  have "mandelbrot_loop_fl (Num 0) (Num 0) (Num m) (Num 0) (Num 0) (Num (real k))
      = mandelbrot_loop_fl (Num 0) (Num 0) (Num m) (Num 0) (Num 0) (fadd (Num (real k)) (Num 1))"
    using lt by (rule mandelbrot_loop_fl_origin_step)
  also have "\<dots> = mandelbrot_loop_fl (Num 0) (Num 0) (Num m) (Num 0) (Num 0) (Num (real (Suc k)))"
    by (simp only: fadd_counter [OF k])
  also have "\<dots> = None"
    using k by (intro Suc.hyps(1) [OF d]) simp
  finally show ?case .
qed

lemma calculateMandelbrot_fl_origin_diverges:
  assumes "9007199254740992 < m"
  shows "calculateMandelbrot_fl (Num 0) (Num 0) (Num m) = None"
  using mandelbrot_loop_fl_reach [OF assms, of 0] by (simp add: calculateMandelbrot_fl_def)

text \<open>
  C1, as stated: for every integer \<open>maxIterations \<ge> 1\<close>,
  \<open>calculateMandelbrot(0, 0, maxIterations)\<close> returns exactly \<open>maxIterations\<close>. For the
  limit \<open>2^53 + 2\<close>, an integer among the doubles, the call does not return: the counter
  is a double, and \<^verbatim>\<open>iteration++\<close> leaves it at \<open>2^53\<close>.
\<close>

theorem calculateMandelbrot_origin_counterexample:
  "calculateMandelbrot_fl (Num 0) (Num 0) (Num 9007199254740994) = None"
  by (rule calculateMandelbrot_fl_origin_diverges) simp

text \<open>
  C1, amended: for every integer \<open>maxIterations\<close> with \<open>1 \<le> maxIterations \<le> 2^53\<close>,
  \<open>calculateMandelbrot(0, 0, maxIterations)\<close> returns exactly \<open>maxIterations\<close>: the iterate
  stays at the origin, so the loop never escapes and runs to the iteration limit.
\<close>

theorem calculateMandelbrot_origin:
  assumes "1 \<le> n" "n \<le> 2 ^ 53"
  shows "calculateMandelbrot_fl (Num 0) (Num 0) (Num (of_int n)) = Some (Num (of_int n))"
proof -
  have "nat n \<le> 2 ^ 53" using assms by (simp add: nat_le_iff)
  then have "mandelbrot_loop_fl (Num 0) (Num 0) (Num (real (nat n))) (Num 0) (Num 0) (Num (real 0))
      = Some (Num (real (nat n)))"
    by (intro mandelbrot_loop_fl_origin) simp_all
  moreover have "real (nat n) = of_int n" using assms(1) by simp
  ultimately show ?thesis by (simp add: calculateMandelbrot_fl_def)
qed

theorem calculateMandelbrot_origin_witness:
  "(1::int) \<le> 100 \<and> (100::int) \<le> 2 ^ 53
   \<and> calculateMandelbrot_fl (Num 0) (Num 0) (Num (of_int 100)) = Some (Num (of_int 100))"
  using calculateMandelbrot_origin [of 100] by simp

text \<open>A limit that is not positive, or not a number at all, ends the loop before its first round.\<close>

lemma calculateMandelbrot_fl_nonpositive:
  assumes "\<not> lt_d (Num 0) maxIter"
  shows "calculateMandelbrot_fl cx cy maxIter = Some (Num 0)"
  unfolding calculateMandelbrot_fl_def using assms by (intro mandelbrot_loop_fl_stop) simp

text \<open>
  A limit of at most \<open>2^53\<close> ends the loop for every point: the result is a natural
  number, the start of the counter or a number whose predecessor is below the limit.
\<close>

lemma mandelbrot_loop_fl_returns:
  assumes "m \<le> 2 ^ 53"
  shows "\<exists>j. mandelbrot_loop_fl cx cy (Num m) x y (Num (real k)) = Some (Num (real j))
           \<and> k \<le> j \<and> (real j < m + 1 \<or> j = k)"
proof (induction "nat \<lceil>m - real k\<rceil>" arbitrary: k x y)
  case 0
  then have "m \<le> real k" by simp
  then have "mandelbrot_loop_fl cx cy (Num m) x y (Num (real k)) = Some (Num (real k))"
    by (intro mandelbrot_loop_fl_stop) simp
  then show ?case by auto
next
  case (Suc d)
  then have lt: "real k < m" by linarith
  from Suc(2) have d: "d = nat \<lceil>m - real (Suc k)\<rceil>" by simp linarith
  show ?case
  proof (cases "le_d (fadd (fmul x x) (fmul y y)) (Num 4)")
    case False
    then have "mandelbrot_loop_fl cx cy (Num m) x y (Num (real k)) = Some (Num (real k))"
      by (intro mandelbrot_loop_fl_stop) simp
    then show ?thesis by auto
  next
    case True
    have "real k < 2 ^ 53" using lt assms by simp
    then have k: "k < 2 ^ 53"
      by (metis of_nat_less_iff of_nat_numeral of_nat_power)
    obtain j where j: "mandelbrot_loop_fl cx cy (Num m) (fadd (fsub (fmul x x) (fmul y y)) cx)
          (fadd (fmul (fmul (Num 2) x) y) cy) (Num (real (Suc k))) = Some (Num (real j))"
        "Suc k \<le> j" "real j < m + 1 \<or> j = Suc k"
      using Suc.hyps(1) [OF d] by blast
    have "mandelbrot_loop_fl cx cy (Num m) x y (Num (real k))
        = mandelbrot_loop_fl cx cy (Num m) (fadd (fsub (fmul x x) (fmul y y)) cx)
          (fadd (fmul (fmul (Num 2) x) y) cy) (fadd (Num (real k)) (Num 1))"
      by (subst mandelbrot_loop_fl.simps) (simp add: True lt)
    also have "\<dots> = Some (Num (real j))"
      by (simp only: fadd_counter [OF k] j(1))
    finally have "mandelbrot_loop_fl cx cy (Num m) x y (Num (real k)) = Some (Num (real j))" .
    moreover have "real j < m + 1" using j(3) lt by auto
    ultimately show ?thesis using j(2) by auto
  qed
qed

subsection \<open>In exact arithmetic\<close>

lemma mandelbrot_loop_stop:
  "\<not> (x * x + y * y \<le> 4 \<and> iteration < maxIter) \<Longrightarrow>
   mandelbrot_loop cx cy maxIter x y iteration = iteration"
  by (subst mandelbrot_loop.simps) auto

text \<open>
  C9. For every \<open>(cx, cy)\<close> and every integer \<open>maxIterations \<le> 0\<close>,
  \<open>calculateMandelbrot(cx, cy, maxIterations)\<close> returns \<open>0\<close>: the loop body never runs. (The
  theorem is for every real limit \<open>\<le> 0\<close>, the integers among them.)
\<close>

theorem calculateMandelbrot_nonpositive:
  assumes "maxIter \<le> 0"
  shows "calculateMandelbrot cx cy maxIter = 0"
  unfolding calculateMandelbrot_def using assms by (simp add: mandelbrot_loop_stop)

theorem calculateMandelbrot_nonpositive_witness:
  "(of_int (- 3) :: real) \<le> 0 \<and> calculateMandelbrot 2 2 (of_int (- 3)) = 0"
  using calculateMandelbrot_nonpositive [of "of_int (- 3)" 2 2] by simp

section \<open>The colour mapper\<close>

subsection \<open>In exact arithmetic\<close>

text \<open>
  C6. For every \<open>maxIterations\<close> and every colour scheme, known or not,
  \<open>getColor(maxIterations, maxIterations, scheme)\<close> is black \<open>(0, 0, 0)\<close>.
\<close>

theorem getColor_in_set:
  "getColor maxIter maxIter scheme = \<lparr>r = 0, g = 0, b = 0\<rparr>"
  by (simp add: getColor_def)

lemma floor_255_bounds:
  fixes u :: real
  assumes "0 \<le> u" "u \<le> 1"
  shows "0 \<le> \<lfloor>255 * u\<rfloor> \<and> \<lfloor>255 * u\<rfloor> \<le> 255"
proof -
  have "0 \<le> 255 * u" "255 * u \<le> 255" using assms by simp_all
  then show ?thesis by (simp add: floor_le_iff le_floor_iff)
qed

text \<open>
  Every channel is in \<open>0..255\<close> as soon as the ratio \<open>t\<close> is in \<open>0..1\<close>: the grey value
  by the bounds of the floor, the other schemes by their clamp.
\<close>

lemma getColor_range:
  assumes "0 \<le> iteration / maxIter" "iteration / maxIter \<le> 1"
  shows "0 \<le> r (getColor iteration maxIter scheme) \<and> r (getColor iteration maxIter scheme) \<le> 255
       \<and> 0 \<le> g (getColor iteration maxIter scheme) \<and> g (getColor iteration maxIter scheme) \<le> 255
       \<and> 0 \<le> b (getColor iteration maxIter scheme) \<and> b (getColor iteration maxIter scheme) \<le> 255"
proof -
  have gray: "0 \<le> \<lfloor>255 * (1 - iteration / maxIter)\<rfloor> \<and> \<lfloor>255 * (1 - iteration / maxIter)\<rfloor> \<le> 255"
    using assms by (intro floor_255_bounds) simp_all
  show ?thesis
    using gray by (simp add: getColor_def Let_def split: prod.split)
qed

text \<open>
  C7. For every colour scheme (known or not), every \<open>maxIterations \<ge> 1\<close> and every integer
  \<open>iteration\<close> with \<open>0 \<le> iteration \<le> maxIterations\<close>, each of the three channels of
  \<open>getColor(iteration, maxIterations, scheme)\<close> is an integer in \<open>[0, 255]\<close>.
\<close>

theorem getColor_channels_in_range:
  assumes "1 \<le> m" "0 \<le> i" "i \<le> m"
  shows "0 \<le> r (getColor (of_int i) (of_int m) scheme) \<and> r (getColor (of_int i) (of_int m) scheme) \<le> 255
       \<and> 0 \<le> g (getColor (of_int i) (of_int m) scheme) \<and> g (getColor (of_int i) (of_int m) scheme) \<le> 255
       \<and> 0 \<le> b (getColor (of_int i) (of_int m) scheme) \<and> b (getColor (of_int i) (of_int m) scheme) \<le> 255"
proof (rule getColor_range)
  show "0 \<le> (of_int i :: real) / of_int m" using assms by simp
  show "(of_int i :: real) / of_int m \<le> 1" using assms by simp
qed

theorem getColor_channels_in_range_witness:
  "(1::int) \<le> 100 \<and> (0::int) \<le> 30 \<and> (30::int) \<le> 100
   \<and> 0 \<le> r (getColor (of_int 30) (of_int 100) ''rainbow'') \<and> r (getColor (of_int 30) (of_int 100) ''rainbow'') \<le> 255
   \<and> 0 \<le> g (getColor (of_int 30) (of_int 100) ''rainbow'') \<and> g (getColor (of_int 30) (of_int 100) ''rainbow'') \<le> 255
   \<and> 0 \<le> b (getColor (of_int 30) (of_int 100) ''rainbow'') \<and> b (getColor (of_int 30) (of_int 100) ''rainbow'') \<le> 255"
  using getColor_channels_in_range [of 100 30 "''rainbow''"] by simp

subsection \<open>On doubles\<close>

text \<open>A result between \<open>0\<close> and a natural number of the format is finite and stays there.\<close>

lemma to_double_bounded:
  assumes "0 \<le> x" "x \<le> real c" "c \<le> 2 ^ 53"
  shows "\<exists>y. to_double False x = Num y \<and> 0 \<le> y \<and> y \<le> real c"
proof -
  have c: "fl (real c) = real c" using assms(3) by (rule fl_of_nat)
  have "fl x \<le> fl (real c)" using assms(2) by (rule fl_mono)
  then have le: "fl x \<le> real c" by (simp only: c)
  have "real c \<le> real (2 ^ 53)" using assms(3) by (simp only: of_nat_le_iff)
  then have "real c < 2 ^ 1024" by simp
  with le have "fl x < 2 ^ 1024" by linarith
  with assms(1) have "to_double False x = Num (fl x)" by (rule to_double_nonneg)
  moreover have "0 \<le> fl x" using assms(1) by (rule fl_nonneg)
  ultimately show ?thesis using le by blast
qed

lemma to_double_le_nat:
  assumes "\<bar>x\<bar> \<le> real c" "c \<le> 2 ^ 53"
  shows "is_finite (to_double s x) \<and> \<bar>dval (to_double s x)\<bar> \<le> real c"
proof -
  have c: "fl (real c) = real c" using assms(2) by (rule fl_of_nat)
  have le: "\<bar>fl x\<bar> \<le> real c" using assms(1) c by (rule fl_abs_le)
  have "real c \<le> real (2 ^ 53)" using assms(2) by (simp only: of_nat_le_iff)
  then have "real c < 2 ^ 1024" by simp
  with le have "\<bar>fl x\<bar> < 2 ^ 1024" by linarith
  then have f: "is_finite (to_double s x)" by (simp only: to_double_finite_iff)
  then have "dval (to_double s x) = fl x" by (rule to_double_dval)
  with f le show ?thesis by simp
qed

lemma fmul_le_nat:
  assumes "is_finite p" "is_finite q" "\<bar>dval p\<bar> \<le> real a" "\<bar>dval q\<bar> \<le> real c" "a * c \<le> 2 ^ 53"
  shows "is_finite (fmul p q) \<and> \<bar>dval (fmul p q)\<bar> \<le> real (a * c)"
proof -
  have "\<bar>dval p * dval q\<bar> \<le> real a * real c"
    unfolding abs_mult using assms(3,4) by (intro mult_mono) simp_all
  then have "\<bar>dval p * dval q\<bar> \<le> real (a * c)" by simp
  then show ?thesis
    unfolding fmul_finite [OF assms(1,2)] using assms(5) by (rule to_double_le_nat)
qed

lemma fadd_le_nat:
  assumes "is_finite p" "is_finite q" "\<bar>dval p\<bar> \<le> real a" "\<bar>dval q\<bar> \<le> real c" "a + c \<le> 2 ^ 53"
  shows "is_finite (fadd p q) \<and> \<bar>dval (fadd p q)\<bar> \<le> real (a + c)"
proof -
  have "\<bar>dval p + dval q\<bar> \<le> real (a + c)" using assms(3,4) by simp
  then show ?thesis
    unfolding fadd_finite [OF assms(1,2)] using assms(5) by (rule to_double_le_nat)
qed

lemma fdiv_3_le_nat:
  assumes "is_finite p" "\<bar>dval p\<bar> \<le> real a" "a \<le> 2 ^ 53"
  shows "is_finite (fdiv p (Num 3)) \<and> \<bar>dval (fdiv p (Num 3))\<bar> \<le> real a"
proof -
  have "\<bar>dval p / 3\<bar> \<le> real a" using assms(2) by simp
  moreover have "fdiv p (Num 3) = to_double (is_neg p \<noteq> is_neg (Num 3)) (dval p / dval (Num 3))"
    using assms(1) by (intro fdiv_finite) simp_all
  ultimately show ?thesis
    using to_double_le_nat [OF _ assms(3), of "dval p / 3"] by simp
qed

text \<open>The ratio \<open>t\<close> of an iteration count to its limit is a double between \<open>0\<close> and \<open>1\<close>.\<close>

lemma fdiv_ratio:
  assumes "j \<le> n" "1 \<le> n"
  shows "\<exists>t. fdiv (Num (real j)) (Num (real n)) = Num t \<and> 0 \<le> t \<and> t \<le> 1"
proof -
  have n: "real n \<noteq> 0" using assms(2) by simp
  have "0 \<le> real j / real n" "real j / real n \<le> real 1" using assms by simp_all
  then have "\<exists>t. to_double False (real j / real n) = Num t \<and> 0 \<le> t \<and> t \<le> real 1"
    by (rule to_double_bounded) simp
  then show ?thesis by (simp add: fdiv_Num [OF n])
qed

text \<open>The stores of a channel that is a natural number up to \<open>255\<close>.\<close>

lemma to_uint8_clamped_nat:
  assumes "k \<le> 255"
  shows "to_uint8_clamped (Num (real k)) = of_nat k"
proof -
  have "round_half_even (real k) = int k"
    using round_half_even_of_int [of "int k"] by simp
  moreover have "k = 255" if "255 \<le> real k" using that assms by simp
  ultimately show ?thesis by (auto simp: to_uint8_clamped_def)
qed

lemma to_uint8_clamped_unat:
  assumes "k \<le> 255"
  shows "unat (to_uint8_clamped (Num (real k))) = k"
proof -
  have "k < 2 ^ LENGTH(8)" using assms by simp
  then show ?thesis
    unfolding to_uint8_clamped_nat [OF assms] by (simp add: unsigned_of_nat take_bit_nat_eq_self)
qed

text \<open>The clamp \<^verbatim>\<open>Math.max(0, Math.min(255, Math.floor(d)))\<close> of a number \<open>d\<close>.\<close>

lemma clamp_Num:
  "\<exists>k\<le>255. math_max (Num 0) (math_min (Num 255) (Num (of_int i))) = Num (real k)"
proof -
  have "max 0 (min 255 (of_int i)) = real (nat (max 0 (min 255 i)))"
    by (simp add: max_def min_def)
  moreover have "nat (max 0 (min 255 i)) \<le> 255" by simp
  ultimately show ?thesis
    unfolding math_min_Num math_max_Num by blast
qed

lemma clamp_floor:
  assumes "d \<noteq> NaN"
  shows "\<exists>k\<le>255. math_max (Num 0) (math_min (Num 255) (math_floor d)) = Num (real k)"
proof (cases d)
  case (Num x)
  then show ?thesis using clamp_Num [of "\<lfloor>x\<rfloor>"] by simp
next
  case NegZero
  have "math_max (Num 0) (math_min (Num 255) NegZero) = Num (real 0)"
    by (simp add: math_max_def math_min_def lt_d_def)
  then show ?thesis unfolding NegZero by (intro exI [of _ 0]) simp
next
  case PInf
  have "math_max (Num 0) (math_min (Num 255) PInf) = Num (real 255)"
    by (simp add: math_max_def math_min_def lt_d_def)
  then show ?thesis unfolding PInf by (intro exI [of _ 255]) simp
next
  case NInf
  have "math_max (Num 0) (math_min (Num 255) NInf) = Num (real 0)"
    by (simp add: math_max_def math_min_def lt_d_def)
  then show ?thesis unfolding NInf by (intro exI [of _ 0]) simp
next
  case NaN
  with assms show ?thesis by simp
qed

lemma clamp_const:
  "\<exists>k\<le>255. math_max (Num 0) (math_min (Num 255) (Num 255)) = Num (real k)"
  "\<exists>k\<le>255. math_max (Num 0) (math_min (Num 255) (Num 0)) = Num (real k)"
  using clamp_Num [of 255] clamp_Num [of 0] by simp_all

text \<open>Operations that do not make a NaN out of a number.\<close>

lemma fmul_255_not_NaN: "d \<noteq> NaN \<Longrightarrow> fmul (Num 255) d \<noteq> NaN"
  by (cases d) (simp_all add: fmul_def is_zero_def)

lemma fsub_Num_not_NaN: "fsub (Num a) (Num c) \<noteq> NaN"
  by (simp add: fsub_Num)

lemma math_min_not_NaN: "p \<noteq> NaN \<Longrightarrow> q \<noteq> NaN \<Longrightarrow> math_min p q \<noteq> NaN"
  by (simp add: math_min_def)

text \<open>The three arguments of the sine in the \<^verbatim>\<open>rainbow\<close> scheme are finite.\<close>

lemma math_pi_le: "is_finite math_pi" "\<bar>dval math_pi\<bar> \<le> real 4"
  by (simp_all add: math_pi_def)

lemma rainbow_args:
  assumes "0 \<le> t" "t \<le> 1"
  shows "is_finite (fmul (fmul math_pi (Num t)) (Num 3))"
    and "is_finite (fadd (fmul (fmul math_pi (Num t)) (Num 3)) (fdiv (fmul (Num 2) math_pi) (Num 3)))"
    and "is_finite (fadd (fmul (fmul math_pi (Num t)) (Num 3)) (fdiv (fmul (Num 4) math_pi) (Num 3)))"
proof -
  have t: "is_finite (Num t)" "\<bar>dval (Num t)\<bar> \<le> real 1" using assms by simp_all
  have c: "is_finite (Num 2)" "\<bar>dval (Num 2)\<bar> \<le> real 2" "is_finite (Num 3)" "\<bar>dval (Num 3)\<bar> \<le> real 3"
    "is_finite (Num 4)" "\<bar>dval (Num 4)\<bar> \<le> real 4"
    by simp_all
  have a: "is_finite (fmul math_pi (Num t)) \<and> \<bar>dval (fmul math_pi (Num t))\<bar> \<le> real (4 * 1)"
    using math_pi_le(1) t(1) math_pi_le(2) t(2) by (rule fmul_le_nat) simp
  have a3: "is_finite (fmul (fmul math_pi (Num t)) (Num 3))
      \<and> \<bar>dval (fmul (fmul math_pi (Num t)) (Num 3))\<bar> \<le> real (4 * 1 * 3)"
    using a [THEN conjunct1] c(3) a [THEN conjunct2] c(4) by (rule fmul_le_nat) simp
  have p2: "is_finite (fmul (Num 2) math_pi) \<and> \<bar>dval (fmul (Num 2) math_pi)\<bar> \<le> real (2 * 4)"
    using c(1) math_pi_le(1) c(2) math_pi_le(2) by (rule fmul_le_nat) simp
  have p4: "is_finite (fmul (Num 4) math_pi) \<and> \<bar>dval (fmul (Num 4) math_pi)\<bar> \<le> real (4 * 4)"
    using c(5) math_pi_le(1) c(6) math_pi_le(2) by (rule fmul_le_nat) simp
  have q2: "is_finite (fdiv (fmul (Num 2) math_pi) (Num 3))
      \<and> \<bar>dval (fdiv (fmul (Num 2) math_pi) (Num 3))\<bar> \<le> real (2 * 4)"
    using p2 [THEN conjunct1] p2 [THEN conjunct2] by (rule fdiv_3_le_nat) simp
  have q4: "is_finite (fdiv (fmul (Num 4) math_pi) (Num 3))
      \<and> \<bar>dval (fdiv (fmul (Num 4) math_pi) (Num 3))\<bar> \<le> real (4 * 4)"
    using p4 [THEN conjunct1] p4 [THEN conjunct2] by (rule fdiv_3_le_nat) simp
  show "is_finite (fmul (fmul math_pi (Num t)) (Num 3))" using a3 by (rule conjunct1)
  show "is_finite (fadd (fmul (fmul math_pi (Num t)) (Num 3)) (fdiv (fmul (Num 2) math_pi) (Num 3)))"
    using fadd_le_nat [OF a3 [THEN conjunct1] q2 [THEN conjunct1] a3 [THEN conjunct2] q2 [THEN conjunct2]]
    by simp
  show "is_finite (fadd (fmul (fmul math_pi (Num t)) (Num 3)) (fdiv (fmul (Num 4) math_pi) (Num 3)))"
    using fadd_le_nat [OF a3 [THEN conjunct1] q4 [THEN conjunct1] a3 [THEN conjunct2] q4 [THEN conjunct2]]
    by simp
qed

text \<open>The grey value of a ratio between \<open>0\<close> and \<open>1\<close>.\<close>

lemma gray_channel:
  assumes "0 \<le> t" "t \<le> 1"
  shows "\<exists>k\<le>255. math_floor (fmul (Num 255) (fsub (Num 1) (Num t))) = Num (real k)"
proof -
  have "0 \<le> 1 - t" "1 - t \<le> real 1" using assms by simp_all
  then have "\<exists>u. to_double False (1 - t) = Num u \<and> 0 \<le> u \<and> u \<le> real 1"
    by (rule to_double_bounded) simp
  then obtain u where u: "fsub (Num 1) (Num t) = Num u" "0 \<le> u" "u \<le> 1"
    by (auto simp: fsub_Num)
  have "0 \<le> 255 * u" "255 * u \<le> real 255" using u(2,3) by simp_all
  then have "\<exists>w. to_double False (255 * u) = Num w \<and> 0 \<le> w \<and> w \<le> real 255"
    by (rule to_double_bounded) simp
  then obtain w where w: "fmul (Num 255) (Num u) = Num w" "0 \<le> w" "w \<le> 255"
    using u(2) by (auto simp: fmul_Num not_less)
  have "\<lfloor>w\<rfloor> \<le> \<lfloor>255 :: real\<rfloor>" using w(3) by (rule floor_mono)
  then have hi: "\<lfloor>w\<rfloor> \<le> 255" by simp
  have lo: "0 \<le> \<lfloor>w\<rfloor>" using w(2) by simp
  from lo have "of_int \<lfloor>w\<rfloor> = real (nat \<lfloor>w\<rfloor>)" by simp
  moreover from lo hi have "nat \<lfloor>w\<rfloor> \<le> 255" by linarith
  ultimately have "of_int \<lfloor>w\<rfloor> = real (nat \<lfloor>w\<rfloor>)" "nat \<lfloor>w\<rfloor> \<le> 255" by (simp_all only:)
  then show ?thesis unfolding u(1) w(1) by (intro exI [of _ "nat \<lfloor>w\<rfloor>"]) simp
qed

text \<open>The channels of the \<^verbatim>\<open>fire\<close> scheme, clamped.\<close>

lemma fire_channels:
  assumes "0 \<le> t"
  shows "\<exists>kr kg kb. kr \<le> 255 \<and> kg \<le> 255 \<and> kb \<le> 255
     \<and> (case fire_ramp_fl (fmul (Num t) (Num 4)) of
          (r0, g0, b0) \<Rightarrow>
            \<lparr>r_fl = math_max (Num 0) (math_min (Num 255) r0),
             g_fl = math_max (Num 0) (math_min (Num 255) g0),
             b_fl = math_max (Num 0) (math_min (Num 255) b0)\<rparr>)
       = \<lparr>r_fl = Num (real kr), g_fl = Num (real kg), b_fl = Num (real kb)\<rparr>"
proof -
  define ramp where "ramp = fmul (Num t) (Num 4)"
  have ramp: "ramp \<noteq> NaN" by (simp add: ramp_def fmul_Num)
  obtain x where x: "ramp = Num x \<or> ramp = NegZero \<or> ramp = PInf \<or> ramp = NInf"
    using ramp by (cases ramp) auto
  have s1: "fsub ramp (Num 1) \<noteq> NaN" and s2: "fsub ramp (Num 2) \<noteq> NaN" and s4: "fsub (Num 4) ramp \<noteq> NaN"
    using x by (auto simp: fsub_def fadd_def split: if_splits)
  note f = clamp_floor [OF fmul_255_not_NaN]
  obtain k1 where k1: "k1 \<le> 255" "math_max (Num 0) (math_min (Num 255) (math_floor (fmul (Num 255) ramp))) = Num (real k1)"
    using f [OF ramp] by blast
  obtain k2 where k2: "k2 \<le> 255"
      "math_max (Num 0) (math_min (Num 255) (math_floor (fmul (Num 255) (fsub ramp (Num 1))))) = Num (real k2)"
    using f [OF s1] by blast
  obtain k3 where k3: "k3 \<le> 255"
      "math_max (Num 0) (math_min (Num 255) (math_floor (fmul (Num 255) (fsub ramp (Num 2))))) = Num (real k3)"
    using f [OF s2] by blast
  obtain k4 where k4: "k4 \<le> 255"
      "math_max (Num 0) (math_min (Num 255) (math_floor (fmul (Num 255) (math_min (Num 1) (fsub (Num 4) ramp)))))
         = Num (real k4)"
    using f [OF math_min_not_NaN [OF _ s4, of "Num 1"]] by auto
  obtain c255 where c255: "c255 \<le> 255" "math_max (Num 0) (math_min (Num 255) (Num 255)) = Num (real c255)"
    using clamp_const(1) by blast
  obtain c0 where c0: "c0 \<le> 255" "math_max (Num 0) (math_min (Num 255) (Num 0)) = Num (real c0)"
    using clamp_const(2) by blast
  show ?thesis
    unfolding ramp_def [symmetric] fire_ramp_fl_def
    using k1 k2 k3 k4 c255 c0 by (auto simp only: prod.case RGB_fl.simps simp_thms split: if_splits)
qed

text \<open>
  For an iteration count up to a limit of at least one, and a sine that is a number at
  every finite argument, each channel is a natural number up to \<open>255\<close>.
\<close>

lemma getColor_fl_channels:
  assumes "j \<le> n" "1 \<le> n" "\<And>d. is_finite d \<Longrightarrow> msin d \<noteq> NaN"
  shows "\<exists>kr kg kb. kr \<le> 255 \<and> kg \<le> 255 \<and> kb \<le> 255
     \<and> getColor_fl msin (Num (real j)) (Num (real n)) scheme
         = \<lparr>r_fl = Num (real kr), g_fl = Num (real kg), b_fl = Num (real kb)\<rparr>"
proof -
  have black: "\<exists>kr kg kb. kr \<le> 255 \<and> kg \<le> 255 \<and> kb \<le> 255
     \<and> \<lparr>r_fl = Num 0, g_fl = Num 0, b_fl = Num 0\<rparr> = \<lparr>r_fl = Num (real kr), g_fl = Num (real kg), b_fl = Num (real kb)\<rparr>"
    by (intro exI [of _ 0]) simp
  obtain t where t: "fdiv (Num (real j)) (Num (real n)) = Num t" "0 \<le> t" "t \<le> 1"
    using fdiv_ratio [OF assms(1,2)] by blast
  show ?thesis
  proof (cases "j = n")
    case True
    then show ?thesis using black by (simp add: getColor_fl_def)
  next
    case False
    then have ne: "\<not> eq_d (Num (real j)) (Num (real n))" by simp
    consider "scheme = ''grayscale''" | "scheme = ''rainbow''" | "scheme = ''fire''"
      | "scheme \<noteq> ''grayscale''" "scheme \<noteq> ''rainbow''" "scheme \<noteq> ''fire''"
      by blast
    then show ?thesis
    proof cases
      case 1
      obtain k where "k \<le> 255" "math_floor (fmul (Num 255) (fsub (Num 1) (Num t))) = Num (real k)"
        using gray_channel [OF t(2,3)] by blast
      then show ?thesis
        unfolding getColor_fl_def Let_def t(1) using ne 1 by (intro exI [of _ k]) simp
    next
      case 2
      note arg = rainbow_args [OF t(2,3)]
      note f = clamp_floor [OF fmul_255_not_NaN, OF assms(3)]
      obtain kr where kr: "kr \<le> 255"
          "math_max (Num 0) (math_min (Num 255) (math_floor (fmul (Num 255)
             (msin (fmul (fmul math_pi (Num t)) (Num 3)))))) = Num (real kr)"
        using f [OF arg(1)] by blast
      obtain kg where kg: "kg \<le> 255"
          "math_max (Num 0) (math_min (Num 255) (math_floor (fmul (Num 255)
             (msin (fadd (fmul (fmul math_pi (Num t)) (Num 3)) (fdiv (fmul (Num 2) math_pi) (Num 3)))))))
           = Num (real kg)"
        using f [OF arg(2)] by blast
      obtain kb where kb: "kb \<le> 255"
          "math_max (Num 0) (math_min (Num 255) (math_floor (fmul (Num 255)
             (msin (fadd (fmul (fmul math_pi (Num t)) (Num 3)) (fdiv (fmul (Num 4) math_pi) (Num 3)))))))
           = Num (real kb)"
        using f [OF arg(3)] by blast
      have "getColor_fl msin (Num (real j)) (Num (real n)) scheme
          = \<lparr>r_fl = Num (real kr), g_fl = Num (real kg), b_fl = Num (real kb)\<rparr>"
        unfolding getColor_fl_def Let_def t(1) using ne 2 by (simp add: kr(2) kg(2) kb(2))
      with kr(1) kg(1) kb(1) show ?thesis by blast
    next
      case 3
      have "getColor_fl msin (Num (real j)) (Num (real n)) scheme
          = (case fire_ramp_fl (fmul (Num t) (Num 4)) of
               (r0, g0, b0) \<Rightarrow>
                 \<lparr>r_fl = math_max (Num 0) (math_min (Num 255) r0),
                  g_fl = math_max (Num 0) (math_min (Num 255) g0),
                  b_fl = math_max (Num 0) (math_min (Num 255) b0)\<rparr>)"
        unfolding getColor_fl_def Let_def t(1) using ne 3 by simp
      then show ?thesis using fire_channels [OF t(2)] by (simp only:)
    next
      case 4
      then show ?thesis using black ne by (simp add: getColor_fl_def Let_def)
    qed
  qed
qed

lemma math_sin_not_NaN: "is_finite d \<Longrightarrow> math_sin d \<noteq> NaN"
  by (simp add: math_sin_def)

text \<open>
  A value of the \<^verbatim>\<open>fire\<close> scheme. In exact arithmetic the green channel would be
  \<open>\<lfloor>255 * 0.2\<rfloor> = 51\<close>; the doubles give \<open>50\<close>.
\<close>

lemma getColor_fl_fire_30:
  "getColor_fl msin (Num 30) (Num 100) ''fire'' = \<lparr>r_fl = Num 255, g_fl = Num 50, b_fl = Num 0\<rparr>"
  by (simp add: getColor_fl_def fire_ramp_fl_def Let_def eval_steps math_min_Num math_max_Num)

text \<open>
  A point at the limit on doubles: for every limit that is a number, finite or infinite,
  the test \<^verbatim>\<open>iteration === maxIterations\<close> holds and the colour is black, whatever the
  scheme. NaN, which is outside the inputs of the module, is not equal to itself, and the
  grey value of it is NaN.
\<close>

lemma getColor_fl_black:
  assumes "maxIter \<noteq> NaN"
  shows "getColor_fl msin maxIter maxIter scheme = \<lparr>r_fl = Num 0, g_fl = Num 0, b_fl = Num 0\<rparr>"
proof -
  have "eq_d maxIter maxIter" using assms by (simp add: eq_d_def)
  then show ?thesis by (simp add: getColor_fl_def)
qed

lemma getColor_fl_NaN:
  "getColor_fl msin NaN NaN ''grayscale'' = \<lparr>r_fl = NaN, g_fl = NaN, b_fl = NaN\<rparr>"
  by (simp add: getColor_fl_def eq_d_def fdiv_def fsub_def fadd_def fmul_def Let_def)

section \<open>The coordinate mapper\<close>

text \<open>
  One coordinate of the round trip on the reals, with every rounding written out: the
  error of the six roundings that act on it.
\<close>

lemma roundtrip_fl_error:
  fixes lo hi n p :: real
  assumes "fl lo = lo" "fl hi = hi" "lo < hi" "0 < n" "roundtrip_normal lo hi n p"
  shows "\<bar>fl (fl (fl (lo + fl (p * fl (fl (hi - lo) / n))) - lo) * fl (n / fl (hi - lo))) - p\<bar>
           \<le> roundtrip_error lo hi n p"
proof -
  define W where "W = fl (hi - lo)"
  define s where "s = fl (W / n)"
  define t where "t = fl (p * s)"
  define c where "c = fl (lo + t)"
  define q where "q = n / W"
  define X where "X = fl (fl (c - lo) * fl q)"
  define u :: real where "u = 1 / 2 ^ 53"
  have nrm: "normal (W / n)" "normal (p * s)" "normal q" "normal (fl (c - lo) * fl q)"
    using assms(5) by (simp_all add: roundtrip_normal_def W_def s_def t_def c_def q_def)
  have W: "0 < W" unfolding W_def using assms(2,1,3) by (rule fl_sub_pos)
  have q: "0 < q" using W assms(4) by (simp add: q_def)
  have tr: "fl t = t" and cr: "fl c = c" by (simp_all add: t_def c_def fl_idem)
  obtain e1 where e1: "s = W / n * (1 + e1)" "\<bar>e1\<bar> \<le> u"
    unfolding s_def u_def using nrm(1) by (rule fl_rel)
  obtain e2 where e2: "t = p * s * (1 + e2)" "\<bar>e2\<bar> \<le> u"
    unfolding t_def u_def using nrm(2) by (rule fl_rel)
  obtain e3 where e3: "c = (lo + t) * (1 + e3)" "\<bar>e3\<bar> \<le> u"
    unfolding c_def u_def using assms(1) tr by (rule fl_add_rel)
  obtain e4 where e4: "fl (c - lo) = (c - lo) * (1 + e4)" "\<bar>e4\<bar> \<le> u"
    unfolding u_def using cr assms(1) by (rule fl_sub_rel)
  obtain e5 where e5: "fl q = q * (1 + e5)" "\<bar>e5\<bar> \<le> u"
    unfolding u_def using nrm(3) by (rule fl_rel)
  obtain e6 where e6: "X = fl (c - lo) * fl q * (1 + e6)" "\<bar>e6\<bar> \<le> u"
    unfolding X_def u_def using nrm(4) by (rule fl_rel)
  define P5 where "P5 = (1 + e1) * ((1 + e2) * ((1 + e4) * ((1 + e5) * (1 + e6))))"
  define P3 where "P3 = (1 + e4) * ((1 + e5) * (1 + e6))"
  have tw: "t * q = p * ((1 + e1) * (1 + e2))"
    using W assms(4) by (simp add: e2(1) e1(1) q_def)
  have "X = (c - lo) * (1 + e4) * (q * (1 + e5)) * (1 + e6)"
    by (simp only: e6(1) e4(1) e5(1))
  also have "\<dots> = ((lo + t) * (1 + e3) - lo) * (1 + e4) * (q * (1 + e5)) * (1 + e6)"
    by (simp only: e3(1) [symmetric])
  also have "\<dots> = t * q * P3 + (lo + t) * q * (e3 * P3)"
    unfolding P3_def by (simp add: algebra_simps)
  also have "t * q * P3 = p * P5"
    unfolding tw P5_def P3_def by (simp add: algebra_simps)
  finally have "X - p = p * (P5 - 1) + (lo + t) * q * (e3 * P3)"
    by (simp add: algebra_simps)
  then have "\<bar>X - p\<bar> \<le> \<bar>p * (P5 - 1)\<bar> + \<bar>(lo + t) * q * (e3 * P3)\<bar>"
    by (simp only: abs_triangle_ineq)
  also have "\<dots> = \<bar>p\<bar> * \<bar>P5 - 1\<bar> + \<bar>lo + t\<bar> * q * (\<bar>e3\<bar> * \<bar>P3\<bar>)"
    using q by (simp add: abs_mult)
  also have "\<dots> \<le> \<bar>p\<bar> * ((1 + u) ^ 5 - 1) + \<bar>lo + t\<bar> * q * (u * (1 + u) ^ 3)"
  proof (intro add_mono mult_left_mono mult_mono)
    show "\<bar>P5 - 1\<bar> \<le> (1 + u) ^ 5 - 1"
      unfolding P5_def using e1(2) e2(2) e4(2) e5(2) e6(2) by (rule rel_prod5)
    show "\<bar>P3\<bar> \<le> (1 + u) ^ 3"
      unfolding P3_def using e4(2) e5(2) e6(2) by (rule rel_prod3)
    show "\<bar>e3\<bar> \<le> u" by (rule e3(2))
    show "0 \<le> \<bar>lo + t\<bar> * q" using q by simp
  qed (simp_all add: u_def)
  finally show ?thesis
    by (simp add: roundtrip_error_def u_def W_def X_def c_def t_def s_def q_def algebra_simps)
qed

text \<open>The same coordinate on the doubles, from the pixel to the pixel.\<close>

lemma roundtrip_axis:
  assumes "finite_double lo" "finite_double hi" "dval lo < dval hi" "is_finite n" "0 < dval n"
    and "is_finite (math_round (fmul (fsub (fadd lo (fmul p (fdiv (fsub hi lo) n))) lo) (fdiv n (fsub hi lo))))"
    and "roundtrip_normal (dval lo) (dval hi) (dval n) (dval p)"
  shows "\<bar>dval (math_round (fmul (fsub (fadd lo (fmul p (fdiv (fsub hi lo) n))) lo) (fdiv n (fsub hi lo)))) - dval p\<bar>
           \<le> 1 / 2 + roundtrip_error (dval lo) (dval hi) (dval n) (dval p)"
    and "dval p \<in> \<int> \<Longrightarrow> roundtrip_error (dval lo) (dval hi) (dval n) (dval p) < 1 / 2 \<Longrightarrow>
         dval (math_round (fmul (fsub (fadd lo (fmul p (fdiv (fsub hi lo) n))) lo) (fdiv n (fsub hi lo)))) = dval p"
proof -
  define W where "W = fsub hi lo"
  define S where "S = fdiv W n"
  define M where "M = fmul p S"
  define C where "C = fadd lo M"
  define A where "A = fsub C lo"
  define B where "B = fdiv n W"
  define X where "X = fmul A B"
  have X: "is_finite X"
    using assms(6) unfolding X_def A_def B_def C_def M_def S_def W_def by (rule math_round_result)
  have A: "is_finite A" and B: "is_finite B" and Xv: "dval X = fl (dval A * dval B)"
    using fmul_result [OF X [unfolded X_def]] by (simp_all add: X_def)
  have C: "is_finite C" and Av: "dval A = fl (dval C - dval lo)"
    using fsub_result [OF A [unfolded A_def]] by (simp_all add: A_def)
  have M: "is_finite M" and Cv: "dval C = fl (dval lo + dval M)"
    using fadd_result [OF C [unfolded C_def]] by (simp_all add: C_def)
  have S: "is_finite S" and Mv: "dval M = fl (dval p * dval S)"
    using fmul_result [OF M [unfolded M_def]] by (simp_all add: M_def)
  have Wf: "is_finite W" and Sv: "dval S = fl (dval W / dval n)"
    using fdiv_result [OF S [unfolded S_def] assms(4)] by (simp_all add: S_def)
  have Wv: "dval W = fl (dval hi - dval lo)"
    using fsub_result [OF Wf [unfolded W_def]] by (simp add: W_def)
  have Bv: "dval B = fl (dval n / dval W)"
    using fdiv_result [OF B [unfolded B_def] Wf] by (simp add: B_def)
  have val: "dval X = fl (fl (fl (dval lo + fl (dval p * fl (fl (dval hi - dval lo) / dval n))) - dval lo)
      * fl (dval n / fl (dval hi - dval lo)))"
    by (simp only: Xv Av Cv Mv Sv Wv Bv)
  have r: "fl (dval lo) = dval lo" "fl (dval hi) = dval hi"
    using assms(1,2) by (simp_all add: finite_doubleD)
  have err: "\<bar>dval X - dval p\<bar> \<le> roundtrip_error (dval lo) (dval hi) (dval n) (dval p)"
    unfolding val using r assms(3,5,7) by (rule roundtrip_fl_error)
  have rv: "dval (math_round X) = of_int (round (dval X))"
    using X by (rule math_round_finite)
  have "\<bar>dval (math_round X) - dval p\<bar> \<le> \<bar>of_int (round (dval X)) - dval X\<bar> + \<bar>dval X - dval p\<bar>"
    unfolding rv by simp
  also have "\<dots> \<le> 1 / 2 + roundtrip_error (dval lo) (dval hi) (dval n) (dval p)"
    by (intro add_mono of_int_round_abs_le err)
  finally show "\<bar>dval (math_round (fmul (fsub (fadd lo (fmul p (fdiv (fsub hi lo) n))) lo) (fdiv n (fsub hi lo)))) - dval p\<bar>
           \<le> 1 / 2 + roundtrip_error (dval lo) (dval hi) (dval n) (dval p)"
    by (simp only: X_def A_def B_def C_def M_def S_def W_def)
  show "dval (math_round (fmul (fsub (fadd lo (fmul p (fdiv (fsub hi lo) n))) lo) (fdiv n (fsub hi lo)))) = dval p"
    if "dval p \<in> \<int>" "roundtrip_error (dval lo) (dval hi) (dval n) (dval p) < 1 / 2"
  proof -
    from that(1) obtain k where k: "dval p = of_int k" by (auto elim: Ints_cases)
    have "\<bar>dval X - of_int k\<bar> < 1 / 2" using err that(2) by (simp add: k)
    then have "round (dval X) = k" by (rule round_unique')
    then have "dval (math_round X) = dval p" by (simp add: rv k)
    then show ?thesis by (simp only: X_def A_def B_def C_def M_def S_def W_def)
  qed
qed

text \<open>
  C2, amended: for every finite viewport with \<open>xMin < xMax\<close> and \<open>yMin < yMax\<close>, every finite
  positive width and height and every pixel \<open>(x, y)\<close> for which the round trip
  \<open>complexToPixel(pixelToComplex(x, y))\<close> gives a finite pixel and none of its
  multiplications and divisions underflows: each coordinate of the round trip is within
  \<open>1/2 + \<rho>\<close> of the original, and is the original when that is an integer and \<open>\<rho> < 1/2\<close>,
  where \<open>\<rho>\<close> is the rounding error \<open>roundtrip_error\<close> of the coordinate.
\<close>

theorem pixel_roundtrip:
  assumes "finite_viewport v" "dval (xMin v) < dval (xMax v)" "dval (yMin v) < dval (yMax v)"
    and "is_finite width" "0 < dval width" "is_finite height" "0 < dval height"
    and "is_finite (x_pixel (complexToPixel_fl (real_part (pixelToComplex_fl px py width height v))
           (imaginary_part (pixelToComplex_fl px py width height v)) width height v))"
    and "is_finite (y_pixel (complexToPixel_fl (real_part (pixelToComplex_fl px py width height v))
           (imaginary_part (pixelToComplex_fl px py width height v)) width height v))"
    and "roundtrip_normal (dval (xMin v)) (dval (xMax v)) (dval width) (dval px)"
    and "roundtrip_normal (dval (yMin v)) (dval (yMax v)) (dval height) (dval py)"
  shows "let c = pixelToComplex_fl px py width height v;
             p = complexToPixel_fl (real_part c) (imaginary_part c) width height v;
             ex = roundtrip_error (dval (xMin v)) (dval (xMax v)) (dval width) (dval px);
             ey = roundtrip_error (dval (yMin v)) (dval (yMax v)) (dval height) (dval py)
         in \<bar>dval (x_pixel p) - dval px\<bar> \<le> 1 / 2 + ex
          \<and> \<bar>dval (y_pixel p) - dval py\<bar> \<le> 1 / 2 + ey
          \<and> (dval px \<in> \<int> \<and> ex < 1 / 2 \<longrightarrow> dval (x_pixel p) = dval px)
          \<and> (dval py \<in> \<int> \<and> ey < 1 / 2 \<longrightarrow> dval (y_pixel p) = dval py)"
proof -
  have vf: "finite_double (xMin v)" "finite_double (xMax v)" "finite_double (yMin v)" "finite_double (yMax v)"
    using assms(1) by (simp_all add: finite_viewport_def)
  have fx: "is_finite (math_round (fmul (fsub (fadd (xMin v) (fmul px (fdiv (fsub (xMax v) (xMin v)) width))) (xMin v))
              (fdiv width (fsub (xMax v) (xMin v)))))"
    and fy: "is_finite (math_round (fmul (fsub (fadd (yMin v) (fmul py (fdiv (fsub (yMax v) (yMin v)) height))) (yMin v))
              (fdiv height (fsub (yMax v) (yMin v)))))"
    using assms(8,9) by (simp_all add: complexToPixel_fl_def pixelToComplex_fl_def Let_def)
  note x = roundtrip_axis [OF vf(1,2) assms(2,4,5) fx assms(10)]
  note y = roundtrip_axis [OF vf(3,4) assms(3,6,7) fy assms(11)]
  show ?thesis
    using x y by (simp add: Let_def complexToPixel_fl_def pixelToComplex_fl_def)
qed

text \<open>
  The round trip of the pixel \<open>(400, 300)\<close> of an 800 by 600 canvas, on the viewport from
  \<open>1\<close> to the next double \<open>1 + 2^-52\<close>.
\<close>

lemma roundtrip_fl_deep:
  "complexToPixel_fl
     (real_part (pixelToComplex_fl (Num 400) (Num 300) (Num 800) (Num 600)
        \<lparr>xMin = Num 1, xMax = Num (4503599627370497 / 4503599627370496), yMin = Num 0, yMax = Num 1\<rparr>))
     (imaginary_part (pixelToComplex_fl (Num 400) (Num 300) (Num 800) (Num 600)
        \<lparr>xMin = Num 1, xMax = Num (4503599627370497 / 4503599627370496), yMin = Num 0, yMax = Num 1\<rparr>))
     (Num 800) (Num 600)
     \<lparr>xMin = Num 1, xMax = Num (4503599627370497 / 4503599627370496), yMin = Num 0, yMax = Num 1\<rparr>
   = \<lparr>x_pixel = Num 0, y_pixel = Num 300\<rparr>"
  by (simp add: complexToPixel_fl_def pixelToComplex_fl_def Let_def eval_steps)

text \<open>
  C2, as stated: for every viewport with \<open>xMin < xMax\<close> and \<open>yMin < yMax\<close>, every positive
  width and height and every interior pixel \<open>(x, y)\<close>, the round trip
  \<open>complexToPixel(pixelToComplex(x, y))\<close> is \<open>(x, y)\<close> up to the rounding to the nearest
  pixel index. It fails on a viewport too narrow for its pixels: between \<open>xMin = 1\<close> and
  the next double \<open>xMax = 1 + 2^-52\<close> all 800 columns fall on two doubles, and the column
  400 comes back as the column 0.
\<close>

theorem pixel_roundtrip_counterexample:
  "finite_viewport \<lparr>xMin = Num 1, xMax = Num (4503599627370497 / 4503599627370496), yMin = Num 0, yMax = Num 1\<rparr>
   \<and> lt_d (Num 1) (Num (4503599627370497 / 4503599627370496)) \<and> lt_d (Num 0) (Num 1)
   \<and> x_pixel (complexToPixel_fl
        (real_part (pixelToComplex_fl (Num 400) (Num 300) (Num 800) (Num 600)
           \<lparr>xMin = Num 1, xMax = Num (4503599627370497 / 4503599627370496), yMin = Num 0, yMax = Num 1\<rparr>))
        (imaginary_part (pixelToComplex_fl (Num 400) (Num 300) (Num 800) (Num 600)
           \<lparr>xMin = Num 1, xMax = Num (4503599627370497 / 4503599627370496), yMin = Num 0, yMax = Num 1\<rparr>))
        (Num 800) (Num 600)
        \<lparr>xMin = Num 1, xMax = Num (4503599627370497 / 4503599627370496), yMin = Num 0, yMax = Num 1\<rparr>)
      = Num 0
   \<and> \<not> \<bar>dval (x_pixel (complexToPixel_fl
        (real_part (pixelToComplex_fl (Num 400) (Num 300) (Num 800) (Num 600)
           \<lparr>xMin = Num 1, xMax = Num (4503599627370497 / 4503599627370496), yMin = Num 0, yMax = Num 1\<rparr>))
        (imaginary_part (pixelToComplex_fl (Num 400) (Num 300) (Num 800) (Num 600)
           \<lparr>xMin = Num 1, xMax = Num (4503599627370497 / 4503599627370496), yMin = Num 0, yMax = Num 1\<rparr>))
        (Num 800) (Num 600)
        \<lparr>xMin = Num 1, xMax = Num (4503599627370497 / 4503599627370496), yMin = Num 0, yMax = Num 1\<rparr>))
       - dval (Num 400)\<bar> \<le> 1 / 2"
  unfolding roundtrip_fl_deep using finite_viewport_deep by simp

text \<open>
  The pixel at the centre of the default viewport: it comes back, nothing underflows on
  the way, and the rounding error is below half a pixel.
\<close>

lemma roundtrip_fl_default:
  "complexToPixel_fl
     (real_part (pixelToComplex_fl (Num 400) (Num 300) (Num 800) (Num 600) getDefaultViewport))
     (imaginary_part (pixelToComplex_fl (Num 400) (Num 300) (Num 800) (Num 600) getDefaultViewport))
     (Num 800) (Num 600) getDefaultViewport
   = \<lparr>x_pixel = Num 400, y_pixel = Num 300\<rparr>"
  by (simp add: complexToPixel_fl_def pixelToComplex_fl_def getDefaultViewport_def Let_def eval_steps)

lemma roundtrip_normal_default:
  "roundtrip_normal (- (5 / 2)) 1 800 400" "roundtrip_normal (- (3 / 2)) (3 / 2) 600 300"
  by (simp_all add: roundtrip_normal_def normal_def powr_minus fl_0 round_steps)

lemma roundtrip_error_default:
  "roundtrip_error (- (5 / 2)) 1 800 400 < 1 / 2" "roundtrip_error (- (3 / 2)) (3 / 2) 600 300 < 1 / 2"
  by (simp_all add: roundtrip_error_def fl_0 round_steps power_divide)

text \<open>
  The pixel \<open>(400, 300)\<close> of an 800 by 600 canvas on the default viewport comes back as
  itself.
\<close>

theorem pixel_roundtrip_witness:
  "finite_viewport getDefaultViewport
   \<and> dval (xMin getDefaultViewport) < dval (xMax getDefaultViewport)
   \<and> dval (yMin getDefaultViewport) < dval (yMax getDefaultViewport)
   \<and> is_finite (Num 800) \<and> 0 < dval (Num 800) \<and> is_finite (Num 600) \<and> 0 < dval (Num 600)
   \<and> roundtrip_normal (dval (xMin getDefaultViewport)) (dval (xMax getDefaultViewport)) (dval (Num 800)) (dval (Num 400))
   \<and> roundtrip_normal (dval (yMin getDefaultViewport)) (dval (yMax getDefaultViewport)) (dval (Num 600)) (dval (Num 300))
   \<and> dval (Num 400) \<in> \<int> \<and> dval (Num 300) \<in> \<int>
   \<and> roundtrip_error (dval (xMin getDefaultViewport)) (dval (xMax getDefaultViewport)) (dval (Num 800)) (dval (Num 400)) < 1 / 2
   \<and> roundtrip_error (dval (yMin getDefaultViewport)) (dval (yMax getDefaultViewport)) (dval (Num 600)) (dval (Num 300)) < 1 / 2
   \<and> dval (x_pixel (complexToPixel_fl
        (real_part (pixelToComplex_fl (Num 400) (Num 300) (Num 800) (Num 600) getDefaultViewport))
        (imaginary_part (pixelToComplex_fl (Num 400) (Num 300) (Num 800) (Num 600) getDefaultViewport))
        (Num 800) (Num 600) getDefaultViewport)) = dval (Num 400)
   \<and> dval (y_pixel (complexToPixel_fl
        (real_part (pixelToComplex_fl (Num 400) (Num 300) (Num 800) (Num 600) getDefaultViewport))
        (imaginary_part (pixelToComplex_fl (Num 400) (Num 300) (Num 800) (Num 600) getDefaultViewport))
        (Num 800) (Num 600) getDefaultViewport)) = dval (Num 300)"
proof -
  have lt: "dval (xMin getDefaultViewport) < dval (xMax getDefaultViewport)"
    "dval (yMin getDefaultViewport) < dval (yMax getDefaultViewport)"
    by (simp_all add: getDefaultViewport_def)
  have size: "is_finite (Num 800)" "0 < dval (Num 800)" "is_finite (Num 600)" "0 < dval (Num 600)"
    by simp_all
  have fin: "is_finite (x_pixel (complexToPixel_fl
        (real_part (pixelToComplex_fl (Num 400) (Num 300) (Num 800) (Num 600) getDefaultViewport))
        (imaginary_part (pixelToComplex_fl (Num 400) (Num 300) (Num 800) (Num 600) getDefaultViewport))
        (Num 800) (Num 600) getDefaultViewport))"
    "is_finite (y_pixel (complexToPixel_fl
        (real_part (pixelToComplex_fl (Num 400) (Num 300) (Num 800) (Num 600) getDefaultViewport))
        (imaginary_part (pixelToComplex_fl (Num 400) (Num 300) (Num 800) (Num 600) getDefaultViewport))
        (Num 800) (Num 600) getDefaultViewport))"
    unfolding roundtrip_fl_default by simp_all
  have nrm: "roundtrip_normal (dval (xMin getDefaultViewport)) (dval (xMax getDefaultViewport)) (dval (Num 800)) (dval (Num 400))"
    "roundtrip_normal (dval (yMin getDefaultViewport)) (dval (yMax getDefaultViewport)) (dval (Num 600)) (dval (Num 300))"
    using roundtrip_normal_default by (simp_all add: getDefaultViewport_def)
  have err: "roundtrip_error (dval (xMin getDefaultViewport)) (dval (xMax getDefaultViewport)) (dval (Num 800)) (dval (Num 400)) < 1 / 2"
    "roundtrip_error (dval (yMin getDefaultViewport)) (dval (yMax getDefaultViewport)) (dval (Num 600)) (dval (Num 300)) < 1 / 2"
    using roundtrip_error_default by (simp_all add: getDefaultViewport_def)
  have int: "dval (Num 400) \<in> \<int>" "dval (Num 300) \<in> \<int>" by simp_all
  note trip = pixel_roundtrip [OF finite_viewport_default lt size fin nrm, unfolded Let_def]
  have x: "dval (x_pixel (complexToPixel_fl
        (real_part (pixelToComplex_fl (Num 400) (Num 300) (Num 800) (Num 600) getDefaultViewport))
        (imaginary_part (pixelToComplex_fl (Num 400) (Num 300) (Num 800) (Num 600) getDefaultViewport))
        (Num 800) (Num 600) getDefaultViewport)) = dval (Num 400)"
    using trip [THEN conjunct2, THEN conjunct2, THEN conjunct1] int(1) err(1) by (simp only: simp_thms)
  have y: "dval (y_pixel (complexToPixel_fl
        (real_part (pixelToComplex_fl (Num 400) (Num 300) (Num 800) (Num 600) getDefaultViewport))
        (imaginary_part (pixelToComplex_fl (Num 400) (Num 300) (Num 800) (Num 600) getDefaultViewport))
        (Num 800) (Num 600) getDefaultViewport)) = dval (Num 300)"
    using trip [THEN conjunct2, THEN conjunct2, THEN conjunct2] int(2) err(2) by (simp only: simp_thms)
  from finite_viewport_default lt size nrm int err x y show ?thesis
    by (simp only: simp_thms)
qed

section \<open>The viewport algebra\<close>

subsection \<open>Panning\<close>

text \<open>
  A pan with a finite result: the delta of each axis is finite and a real of the format,
  and each new bound is the old bound minus the delta, rounded.
\<close>

lemma panViewport_fl_finite:
  assumes "finite_viewport (panViewport_fl v dx dy width height)"
  defines "deltaReal \<equiv> fmul dx (fdiv (fsub (xMax v) (xMin v)) width)"
    and "deltaImaginary \<equiv> fmul dy (fdiv (fsub (yMax v) (yMin v)) height)"
  shows "finite_double deltaReal" "finite_double deltaImaginary"
    and "dval (xMin (panViewport_fl v dx dy width height)) = fl (dval (xMin v) - dval deltaReal)"
    and "dval (xMax (panViewport_fl v dx dy width height)) = fl (dval (xMax v) - dval deltaReal)"
    and "dval (yMin (panViewport_fl v dx dy width height)) = fl (dval (yMin v) - dval deltaImaginary)"
    and "dval (yMax (panViewport_fl v dx dy width height)) = fl (dval (yMax v) - dval deltaImaginary)"
proof -
  have x0: "is_finite (fsub (xMin v) deltaReal)" and x1: "is_finite (fsub (xMax v) deltaReal)"
    and y0: "is_finite (fsub (yMin v) deltaImaginary)" and y1: "is_finite (fsub (yMax v) deltaImaginary)"
    using assms(1)
    by (simp_all add: finite_viewport_def finite_double_def panViewport_fl_def Let_def
        deltaReal_def deltaImaginary_def)
  have "is_finite deltaReal" "is_finite deltaImaginary"
    using fsub_result(2) [OF x0] fsub_result(2) [OF y0] by simp_all
  then show "finite_double deltaReal" "finite_double deltaImaginary"
    unfolding deltaReal_def deltaImaginary_def by (simp_all add: fmul_result(4))
  show "dval (xMin (panViewport_fl v dx dy width height)) = fl (dval (xMin v) - dval deltaReal)"
    "dval (xMax (panViewport_fl v dx dy width height)) = fl (dval (xMax v) - dval deltaReal)"
    "dval (yMin (panViewport_fl v dx dy width height)) = fl (dval (yMin v) - dval deltaImaginary)"
    "dval (yMax (panViewport_fl v dx dy width height)) = fl (dval (yMax v) - dval deltaImaginary)"
    using fsub_result(3) [OF x0] fsub_result(3) [OF x1] fsub_result(3) [OF y0] fsub_result(3) [OF y1]
    by (simp_all add: panViewport_fl_def Let_def deltaReal_def deltaImaginary_def)
qed

text \<open>The two roundings of an axis change its extent by at most their two errors.\<close>

lemma fl_shift_error:
  assumes "fl p = p" "fl q = q" "fl d = d"
  shows "\<bar>(fl (q - d) - fl (p - d)) - (q - p)\<bar> \<le> (\<bar>q - d\<bar> + \<bar>p - d\<bar>) / 2 ^ 53"
proof -
  have "\<bar>(fl (q - d) - fl (p - d)) - (q - p)\<bar> = \<bar>(fl (q - d) - (q - d)) - (fl (p - d) - (p - d))\<bar>"
    by simp
  also have "\<dots> \<le> \<bar>fl (q - d) - (q - d)\<bar> + \<bar>fl (p - d) - (p - d)\<bar>"
    by (rule abs_triangle_ineq4)
  also have "\<dots> \<le> \<bar>q - d\<bar> / 2 ^ 53 + \<bar>p - d\<bar> / 2 ^ 53"
    using assms by (intro add_mono fl_sub_error)
  finally show ?thesis by (simp add: add_divide_distrib)
qed

text \<open>
  C10, amended: for every finite input viewport and every \<open>dx\<close>, \<open>dy\<close>, \<open>width\<close> and
  \<open>height\<close> for which the result of \<open>panViewport\<close> is a finite viewport (no operation
  has overflowed or given NaN, so \<open>width\<close> and \<open>height\<close> are not zero): each new bound is
  the old bound minus the delta of its axis, rounded, so the extents \<open>xMax - xMin\<close> and
  \<open>yMax - yMin\<close> are preserved up to the two roundings: they change by at most \<open>2^-53\<close>
  times the sum of the absolute values of the two unrounded new bounds.
\<close>

theorem panViewport_extent_rounded:
  assumes "finite_viewport v" "finite_viewport (panViewport_fl v dx dy width height)"
  shows "let p = panViewport_fl v dx dy width height;
             deltaReal = dval (fmul dx (fdiv (fsub (xMax v) (xMin v)) width));
             deltaImaginary = dval (fmul dy (fdiv (fsub (yMax v) (yMin v)) height))
         in dval (xMin p) = fl (dval (xMin v) - deltaReal)
          \<and> dval (xMax p) = fl (dval (xMax v) - deltaReal)
          \<and> dval (yMin p) = fl (dval (yMin v) - deltaImaginary)
          \<and> dval (yMax p) = fl (dval (yMax v) - deltaImaginary)
          \<and> \<bar>(dval (xMax p) - dval (xMin p)) - (dval (xMax v) - dval (xMin v))\<bar>
               \<le> (\<bar>dval (xMax v) - deltaReal\<bar> + \<bar>dval (xMin v) - deltaReal\<bar>) / 2 ^ 53
          \<and> \<bar>(dval (yMax p) - dval (yMin p)) - (dval (yMax v) - dval (yMin v))\<bar>
               \<le> (\<bar>dval (yMax v) - deltaImaginary\<bar> + \<bar>dval (yMin v) - deltaImaginary\<bar>) / 2 ^ 53"
proof -
  note pan = panViewport_fl_finite [OF assms(2)]
  have v: "fl (dval (xMin v)) = dval (xMin v)" "fl (dval (xMax v)) = dval (xMax v)"
      "fl (dval (yMin v)) = dval (yMin v)" "fl (dval (yMax v)) = dval (yMax v)"
    using assms(1) by (simp_all add: finite_viewport_def finite_doubleD)
  have d: "fl (dval (fmul dx (fdiv (fsub (xMax v) (xMin v)) width)))
             = dval (fmul dx (fdiv (fsub (xMax v) (xMin v)) width))"
      "fl (dval (fmul dy (fdiv (fsub (yMax v) (yMin v)) height)))
             = dval (fmul dy (fdiv (fsub (yMax v) (yMin v)) height))"
    using pan(1,2) by (simp_all add: finite_doubleD)
  show ?thesis
    unfolding Let_def pan(3-6)
    using fl_shift_error [OF v(1) v(2) d(1)] fl_shift_error [OF v(3) v(4) d(2)]
    by simp
qed

text \<open>
  A pan of the default viewport by 353 of 800 pixels.
\<close>

lemma panViewport_fl_353:
  "panViewport_fl getDefaultViewport (Num 353) (Num 0) (Num 800) (Num 600)
     = \<lparr>xMin = Num (- (2276780717868319 / 562949953421312)),
        xMax = Num (- (1225823523574907 / 2251799813685248)),
        yMin = Num (- (3 / 2)), yMax = Num (3 / 2)\<rparr>"
  by (simp add: panViewport_fl_def getDefaultViewport_def Let_def eval_steps)

lemma panViewport_fl_353_finite:
  "finite_viewport (panViewport_fl getDefaultViewport (Num 353) (Num 0) (Num 800) (Num 600))"
  unfolding panViewport_fl_353
  by (simp add: finite_viewport_def finite_double_def representable_steps)

text \<open>
  C10, as stated: for every viewport, \<open>dx\<close>, \<open>dy\<close> and nonzero width and height,
  \<open>panViewport\<close> preserves \<open>xMax - xMin\<close> and \<open>yMax - yMin\<close> exactly. After the pan of
  the default viewport by 353 of 800 pixels the width is \<open>3.5000000000000004\<close>, as the
  difference the source computes and as the exact difference of the two bounds, and no
  longer \<open>3.5\<close>: the two bounds are rounded separately.
\<close>

theorem panViewport_extent_counterexample:
  "fsub (xMax (panViewport_fl getDefaultViewport (Num 353) (Num 0) (Num 800) (Num 600)))
        (xMin (panViewport_fl getDefaultViewport (Num 353) (Num 0) (Num 800) (Num 600)))
     \<noteq> fsub (xMax getDefaultViewport) (xMin getDefaultViewport)
   \<and> dval (xMax (panViewport_fl getDefaultViewport (Num 353) (Num 0) (Num 800) (Num 600)))
       - dval (xMin (panViewport_fl getDefaultViewport (Num 353) (Num 0) (Num 800) (Num 600)))
     \<noteq> dval (xMax getDefaultViewport) - dval (xMin getDefaultViewport)"
  unfolding panViewport_fl_353
  by (simp add: getDefaultViewport_def eval_steps)

text \<open>
  The same pan: the viewport and the result are finite, and the width moves by \<open>2^-51\<close>,
  within the bound.
\<close>

theorem panViewport_extent_rounded_witness:
  "finite_viewport getDefaultViewport
   \<and> finite_viewport (panViewport_fl getDefaultViewport (Num 353) (Num 0) (Num 800) (Num 600))
   \<and> dval (xMax (panViewport_fl getDefaultViewport (Num 353) (Num 0) (Num 800) (Num 600)))
       - dval (xMin (panViewport_fl getDefaultViewport (Num 353) (Num 0) (Num 800) (Num 600)))
     = 7 / 2 + 1 / 2 ^ 51
   \<and> \<bar>(dval (xMax (panViewport_fl getDefaultViewport (Num 353) (Num 0) (Num 800) (Num 600)))
       - dval (xMin (panViewport_fl getDefaultViewport (Num 353) (Num 0) (Num 800) (Num 600))))
      - 7 / 2\<bar> \<le> 5 / 2 ^ 53"
proof -
  note pan = panViewport_extent_rounded [OF finite_viewport_default panViewport_fl_353_finite]
  have d: "dval (fmul (Num 353) (fdiv (fsub (xMax getDefaultViewport) (xMin getDefaultViewport)) (Num 800)))
             = 3477623337260155 / 2251799813685248"
    by (simp add: getDefaultViewport_def eval_steps)
  have "\<bar>(dval (xMax (panViewport_fl getDefaultViewport (Num 353) (Num 0) (Num 800) (Num 600)))
       - dval (xMin (panViewport_fl getDefaultViewport (Num 353) (Num 0) (Num 800) (Num 600))))
      - (dval (xMax getDefaultViewport) - dval (xMin getDefaultViewport))\<bar>
          \<le> (\<bar>dval (xMax getDefaultViewport) - 3477623337260155 / 2251799813685248\<bar>
              + \<bar>dval (xMin getDefaultViewport) - 3477623337260155 / 2251799813685248\<bar>) / 2 ^ 53"
    using pan [unfolded Let_def d, THEN conjunct2, THEN conjunct2, THEN conjunct2, THEN conjunct2, THEN conjunct1] .
  then have bound: "\<bar>(dval (xMax (panViewport_fl getDefaultViewport (Num 353) (Num 0) (Num 800) (Num 600)))
       - dval (xMin (panViewport_fl getDefaultViewport (Num 353) (Num 0) (Num 800) (Num 600))))
      - 7 / 2\<bar> \<le> 5 / 2 ^ 53"
    by (simp add: getDefaultViewport_def)
  have val: "dval (xMax (panViewport_fl getDefaultViewport (Num 353) (Num 0) (Num 800) (Num 600)))
       - dval (xMin (panViewport_fl getDefaultViewport (Num 353) (Num 0) (Num 800) (Num 600)))
     = 7 / 2 + 1 / 2 ^ 51"
    by (simp add: panViewport_fl_353)
  from finite_viewport_default panViewport_fl_353_finite val bound show ?thesis
    by (simp only: simp_thms)
qed

text \<open>
  The delta of the real axis, for a viewport with \<open>xMin < xMax\<close> and a positive width: it is
  zero or has the sign of \<open>dx\<close>.
\<close>

lemma panViewport_fl_delta:
  assumes "finite_double (xMin v)" "finite_double (xMax v)" "dval (xMin v) < dval (xMax v)"
    and "is_finite width" "0 < dval width"
    and "is_finite (fmul dx (fdiv (fsub (xMax v) (xMin v)) width))"
  shows "0 \<le> dval dx \<Longrightarrow> 0 \<le> dval (fmul dx (fdiv (fsub (xMax v) (xMin v)) width))"
    and "dval dx \<le> 0 \<Longrightarrow> dval (fmul dx (fdiv (fsub (xMax v) (xMin v)) width)) \<le> 0"
proof -
  define W where "W = fsub (xMax v) (xMin v)"
  define s where "s = fdiv W width"
  have s: "is_finite s" using fmul_result(2) [OF assms(6)] by (simp add: s_def W_def)
  have W: "is_finite W" using fdiv_result(1) [OF s [unfolded s_def] assms(4)] .
  have "dval W = fl (dval (xMax v) - dval (xMin v))"
    using fsub_result(3) [OF W [unfolded W_def]] by (simp add: W_def)
  then have "0 \<le> dval W" using assms(3) by (simp add: fl_nonneg)
  moreover have "dval s = fl (dval W / dval width)"
    using fdiv_result(3) [OF s [unfolded s_def] assms(4)] by (simp add: s_def)
  ultimately have sv: "0 \<le> dval s" using assms(5) by (simp add: fl_nonneg)
  have d: "dval (fmul dx s) = fl (dval dx * dval s)"
    using fmul_result(3) [OF assms(6)] by (simp add: s_def W_def)
  show "0 \<le> dval (fmul dx (fdiv (fsub (xMax v) (xMin v)) width))" if "0 \<le> dval dx"
    using d that sv by (simp add: s_def W_def fl_nonneg)
  show "dval (fmul dx (fdiv (fsub (xMax v) (xMin v)) width)) \<le> 0" if "dval dx \<le> 0"
    using d that sv by (simp add: s_def W_def fl_nonpos mult_nonpos_nonneg)
qed

lemma fl_strict_below:
  assumes "fl c = c" "fl d = d" "\<bar>c - d\<bar> / 2 ^ 53 < d"
  shows "fl (c - d) < c"
  using fl_sub_error [OF assms(1,2)] assms(3) by linarith

lemma fl_strict_above:
  assumes "fl c = c" "fl d = d" "\<bar>c - d\<bar> / 2 ^ 53 < - d"
  shows "c < fl (c - d)"
  using fl_sub_error [OF assms(1,2)] assms(3) by linarith

text \<open>
  C4, amended: \<open>panViewport\<close> turns the pixel deltas into complex-plane deltas with the
  viewport's per-pixel scale and subtracts them from the four bounds (each subtraction
  rounded). For a finite viewport with \<open>xMin < xMax\<close>, a finite positive width and a
  finite result: with a positive \<open>dx\<close> the delta is not negative and \<open>xMin\<close> and \<open>xMax\<close> do
  not increase, and a bound decreases strictly when the delta is more than the rounding
  error \<open>2^-53 \<bar>bound - deltaReal\<bar>\<close> of the new bound; with a negative \<open>dx\<close> the same with
  the opposite signs; and \<open>dx = 0\<close> leaves \<open>xMin\<close> and \<open>xMax\<close> as they are.
\<close>

theorem panViewport_direction:
  assumes "finite_viewport v" "finite_viewport (panViewport_fl v dx dy width height)"
    and "dval (xMin v) < dval (xMax v)" "is_finite width" "0 < dval width"
  shows "let p = panViewport_fl v dx dy width height;
             deltaReal = dval (fmul dx (fdiv (fsub (xMax v) (xMin v)) width));
             deltaImaginary = dval (fmul dy (fdiv (fsub (yMax v) (yMin v)) height))
         in dval (xMin p) = fl (dval (xMin v) - deltaReal)
          \<and> dval (xMax p) = fl (dval (xMax v) - deltaReal)
          \<and> dval (yMin p) = fl (dval (yMin v) - deltaImaginary)
          \<and> dval (yMax p) = fl (dval (yMax v) - deltaImaginary)
          \<and> (0 < dval dx \<longrightarrow> 0 \<le> deltaReal
               \<and> dval (xMin p) \<le> dval (xMin v) \<and> dval (xMax p) \<le> dval (xMax v)
               \<and> (\<bar>dval (xMin v) - deltaReal\<bar> / 2 ^ 53 < deltaReal \<longrightarrow> dval (xMin p) < dval (xMin v))
               \<and> (\<bar>dval (xMax v) - deltaReal\<bar> / 2 ^ 53 < deltaReal \<longrightarrow> dval (xMax p) < dval (xMax v)))
          \<and> (dval dx < 0 \<longrightarrow> deltaReal \<le> 0
               \<and> dval (xMin v) \<le> dval (xMin p) \<and> dval (xMax v) \<le> dval (xMax p)
               \<and> (\<bar>dval (xMin v) - deltaReal\<bar> / 2 ^ 53 < - deltaReal \<longrightarrow> dval (xMin v) < dval (xMin p))
               \<and> (\<bar>dval (xMax v) - deltaReal\<bar> / 2 ^ 53 < - deltaReal \<longrightarrow> dval (xMax v) < dval (xMax p)))
          \<and> (dval dx = 0 \<longrightarrow> dval (xMin p) = dval (xMin v) \<and> dval (xMax p) = dval (xMax v))"
proof -
  define d where "d = dval (fmul dx (fdiv (fsub (xMax v) (xMin v)) width))"
  note pan = panViewport_fl_finite [OF assms(2)]
  have v: "fl (dval (xMin v)) = dval (xMin v)" "fl (dval (xMax v)) = dval (xMax v)"
    and vf: "finite_double (xMin v)" "finite_double (xMax v)"
    using assms(1) by (simp_all add: finite_viewport_def finite_doubleD)
  have df: "is_finite (fmul dx (fdiv (fsub (xMax v) (xMin v)) width))" and dr: "fl d = d"
    using pan(1) by (simp_all add: finite_doubleD d_def)
  note sign = panViewport_fl_delta [OF vf assms(3-5) df, folded d_def]
  have p: "dval (xMin (panViewport_fl v dx dy width height)) = fl (dval (xMin v) - d)"
      "dval (xMax (panViewport_fl v dx dy width height)) = fl (dval (xMax v) - d)"
    using pan(3,4) by (simp_all add: d_def)
  have mono: "fl (c - d) \<le> c" if "0 \<le> d" "fl c = c" for c
    using fl_mono [of "c - d" c] that by simp
  have anti: "c \<le> fl (c - d)" if "d \<le> 0" "fl c = c" for c
    using fl_mono [of c "c - d"] that by simp
  have zero: "d = 0" if "dval dx = 0"
    using sign that by simp
  have lt: "fl (c - d) < c" if "fl c = c" "\<bar>c - d\<bar> / 2 ^ 53 < d" for c
    using that(1) dr that(2) by (rule fl_strict_below)
  have gt: "c < fl (c - d)" if "fl c = c" "\<bar>c - d\<bar> / 2 ^ 53 < - d" for c
    using that(1) dr that(2) by (rule fl_strict_above)
  have pos: "0 < dval dx \<longrightarrow> 0 \<le> d
               \<and> fl (dval (xMin v) - d) \<le> dval (xMin v) \<and> fl (dval (xMax v) - d) \<le> dval (xMax v)
               \<and> (\<bar>dval (xMin v) - d\<bar> / 2 ^ 53 < d \<longrightarrow> fl (dval (xMin v) - d) < dval (xMin v))
               \<and> (\<bar>dval (xMax v) - d\<bar> / 2 ^ 53 < d \<longrightarrow> fl (dval (xMax v) - d) < dval (xMax v))"
    using sign(1) mono [OF _ v(1)] mono [OF _ v(2)] lt [OF v(1)] lt [OF v(2)] by simp
  have neg: "dval dx < 0 \<longrightarrow> d \<le> 0
               \<and> dval (xMin v) \<le> fl (dval (xMin v) - d) \<and> dval (xMax v) \<le> fl (dval (xMax v) - d)
               \<and> (\<bar>dval (xMin v) - d\<bar> / 2 ^ 53 < - d \<longrightarrow> dval (xMin v) < fl (dval (xMin v) - d))
               \<and> (\<bar>dval (xMax v) - d\<bar> / 2 ^ 53 < - d \<longrightarrow> dval (xMax v) < fl (dval (xMax v) - d))"
    using sign(2) anti [OF _ v(1)] anti [OF _ v(2)] gt [OF v(1)] gt [OF v(2)] by simp
  have null: "dval dx = 0 \<longrightarrow> fl (dval (xMin v) - d) = dval (xMin v) \<and> fl (dval (xMax v) - d) = dval (xMax v)"
    using zero v by simp
  show ?thesis
    unfolding Let_def d_def [symmetric] p pan(5,6) using pos neg null by (simp only: simp_thms)
qed

text \<open>
  C4, as stated: for a viewport with \<open>xMin < xMax\<close> and a positive width, a positive \<open>dx\<close>
  strictly decreases \<open>xMin\<close> and \<open>xMax\<close>. It fails when the delta is below the spacing of
  the doubles at the bounds: on the viewport from \<open>1\<close> to the next double, a pan by 50 of
  800 pixels leaves both bounds where they are.
\<close>

theorem panViewport_direction_counterexample:
  "finite_viewport \<lparr>xMin = Num 1, xMax = Num (4503599627370497 / 4503599627370496), yMin = Num 0, yMax = Num 1\<rparr>
   \<and> lt_d (Num 1) (Num (4503599627370497 / 4503599627370496))
   \<and> \<not> lt_d (xMin (panViewport_fl
          \<lparr>xMin = Num 1, xMax = Num (4503599627370497 / 4503599627370496), yMin = Num 0, yMax = Num 1\<rparr>
          (Num 50) (Num 0) (Num 800) (Num 600))) (Num 1)
   \<and> \<not> lt_d (xMax (panViewport_fl
          \<lparr>xMin = Num 1, xMax = Num (4503599627370497 / 4503599627370496), yMin = Num 0, yMax = Num 1\<rparr>
          (Num 50) (Num 0) (Num 800) (Num 600))) (Num (4503599627370497 / 4503599627370496))"
  using finite_viewport_deep by (simp add: panViewport_fl_def Let_def eval_steps)

text \<open>
  The pans by 50 pixels of the module's tests, on the default viewport.
\<close>

lemma panViewport_fl_default:
  "panViewport_fl getDefaultViewport (Num 50) (Num 0) (Num 800) (Num 600)
     = \<lparr>xMin = Num (- (87 / 32)), xMax = Num (25 / 32), yMin = Num (- (3 / 2)), yMax = Num (3 / 2)\<rparr>"
  "panViewport_fl getDefaultViewport (Num (- 50)) (Num 0) (Num 800) (Num 600)
     = \<lparr>xMin = Num (- (73 / 32)), xMax = Num (39 / 32), yMin = Num (- (3 / 2)), yMax = Num (3 / 2)\<rparr>"
  "panViewport_fl getDefaultViewport (Num 0) (Num 50) (Num 800) (Num 600)
     = \<lparr>xMin = Num (- (5 / 2)), xMax = Num 1, yMin = Num (- (7 / 4)), yMax = Num (5 / 4)\<rparr>"
  by (simp_all add: panViewport_fl_def getDefaultViewport_def Let_def eval_steps)

lemma panViewport_fl_default_finite:
  "finite_viewport (panViewport_fl getDefaultViewport (Num 50) (Num 0) (Num 800) (Num 600))"
  "finite_viewport (panViewport_fl getDefaultViewport (Num (- 50)) (Num 0) (Num 800) (Num 600))"
  "finite_viewport (panViewport_fl getDefaultViewport (Num 0) (Num 50) (Num 800) (Num 600))"
  unfolding panViewport_fl_default
  by (simp_all add: finite_viewport_def finite_double_def representable_steps)

lemma panViewport_fl_default_delta:
  "dval (fmul (Num 50) (fdiv (fsub (xMax getDefaultViewport) (xMin getDefaultViewport)) (Num 800)))
     = 7881299347898369 / 36028797018963968"
  "dval (fmul (Num (- 50)) (fdiv (fsub (xMax getDefaultViewport) (xMin getDefaultViewport)) (Num 800)))
     = - (7881299347898369 / 36028797018963968)"
  by (simp_all add: getDefaultViewport_def eval_steps)

text \<open>
  On the default viewport a pan by 50 pixels to the right strictly decreases both bounds,
  a pan by 50 pixels to the left strictly increases them, and a vertical pan leaves them
  as they are.
\<close>

theorem panViewport_direction_witness:
  "finite_viewport getDefaultViewport
   \<and> finite_viewport (panViewport_fl getDefaultViewport (Num 50) (Num 0) (Num 800) (Num 600))
   \<and> finite_viewport (panViewport_fl getDefaultViewport (Num (- 50)) (Num 0) (Num 800) (Num 600))
   \<and> finite_viewport (panViewport_fl getDefaultViewport (Num 0) (Num 50) (Num 800) (Num 600))
   \<and> dval (xMin getDefaultViewport) < dval (xMax getDefaultViewport)
   \<and> is_finite (Num 800) \<and> 0 < dval (Num 800)
   \<and> dval (xMin (panViewport_fl getDefaultViewport (Num 50) (Num 0) (Num 800) (Num 600)))
       < dval (xMin getDefaultViewport)
   \<and> dval (xMax (panViewport_fl getDefaultViewport (Num 50) (Num 0) (Num 800) (Num 600)))
       < dval (xMax getDefaultViewport)
   \<and> dval (xMin getDefaultViewport)
       < dval (xMin (panViewport_fl getDefaultViewport (Num (- 50)) (Num 0) (Num 800) (Num 600)))
   \<and> dval (xMax getDefaultViewport)
       < dval (xMax (panViewport_fl getDefaultViewport (Num (- 50)) (Num 0) (Num 800) (Num 600)))
   \<and> dval (xMin (panViewport_fl getDefaultViewport (Num 0) (Num 50) (Num 800) (Num 600)))
       = dval (xMin getDefaultViewport)
   \<and> dval (xMax (panViewport_fl getDefaultViewport (Num 0) (Num 50) (Num 800) (Num 600)))
       = dval (xMax getDefaultViewport)"
proof -
  have lt: "dval (xMin getDefaultViewport) < dval (xMax getDefaultViewport)"
    by (simp add: getDefaultViewport_def)
  have size: "is_finite (Num 800)" "0 < dval (Num 800)" by simp_all
  note right = panViewport_direction [OF finite_viewport_default panViewport_fl_default_finite(1) lt size,
      unfolded Let_def panViewport_fl_default_delta]
  note left = panViewport_direction [OF finite_viewport_default panViewport_fl_default_finite(2) lt size,
      unfolded Let_def panViewport_fl_default_delta]
  note still = panViewport_direction [OF finite_viewport_default panViewport_fl_default_finite(3) lt size,
      unfolded Let_def]
  have r: "dval (xMin (panViewport_fl getDefaultViewport (Num 50) (Num 0) (Num 800) (Num 600)))
       < dval (xMin getDefaultViewport)"
    "dval (xMax (panViewport_fl getDefaultViewport (Num 50) (Num 0) (Num 800) (Num 600)))
       < dval (xMax getDefaultViewport)"
    using right by (simp_all add: getDefaultViewport_def)
  have l: "dval (xMin getDefaultViewport)
       < dval (xMin (panViewport_fl getDefaultViewport (Num (- 50)) (Num 0) (Num 800) (Num 600)))"
    "dval (xMax getDefaultViewport)
       < dval (xMax (panViewport_fl getDefaultViewport (Num (- 50)) (Num 0) (Num 800) (Num 600)))"
    using left by (simp_all add: getDefaultViewport_def)
  have s: "dval (xMin (panViewport_fl getDefaultViewport (Num 0) (Num 50) (Num 800) (Num 600)))
       = dval (xMin getDefaultViewport)"
    "dval (xMax (panViewport_fl getDefaultViewport (Num 0) (Num 50) (Num 800) (Num 600)))
       = dval (xMax getDefaultViewport)"
    using still by simp_all
  from finite_viewport_default panViewport_fl_default_finite lt size r l s show ?thesis
    by (simp only: simp_thms)
qed

subsection \<open>Zooming at a point\<close>

text \<open>The two bounds \<open>c - h\<close> and \<open>c + h\<close> of an axis, each rounded.\<close>

lemma fl_pair_error:
  assumes "fl c = c" "fl h = h"
  shows "\<bar>(fl (c + h) - fl (c - h)) - 2 * h\<bar> \<le> (\<bar>c + h\<bar> + \<bar>c - h\<bar>) / 2 ^ 53"
    and "\<bar>(fl (c - h) + fl (c + h)) / 2 - c\<bar> \<le> (\<bar>c + h\<bar> + \<bar>c - h\<bar>) / 2 ^ 54"
proof -
  have e: "\<bar>fl (c + h) - (c + h)\<bar> + \<bar>fl (c - h) - (c - h)\<bar> \<le> \<bar>c + h\<bar> / 2 ^ 53 + \<bar>c - h\<bar> / 2 ^ 53"
    using assms by (intro add_mono fl_add_error fl_sub_error)
  have "\<bar>(fl (c + h) - fl (c - h)) - 2 * h\<bar> = \<bar>(fl (c + h) - (c + h)) - (fl (c - h) - (c - h))\<bar>"
    by simp
  also have "\<dots> \<le> \<bar>fl (c + h) - (c + h)\<bar> + \<bar>fl (c - h) - (c - h)\<bar>"
    by (rule abs_triangle_ineq4)
  finally show "\<bar>(fl (c + h) - fl (c - h)) - 2 * h\<bar> \<le> (\<bar>c + h\<bar> + \<bar>c - h\<bar>) / 2 ^ 53"
    using e by (simp add: add_divide_distrib)
  have "\<bar>(fl (c - h) + fl (c + h)) / 2 - c\<bar> = \<bar>(fl (c + h) - (c + h)) + (fl (c - h) - (c - h))\<bar> / 2"
    by (simp add: field_simps)
  also have "\<dots> \<le> (\<bar>fl (c + h) - (c + h)\<bar> + \<bar>fl (c - h) - (c - h)\<bar>) / 2"
    by (intro divide_right_mono abs_triangle_ineq) simp
  also have "\<dots> \<le> (\<bar>c + h\<bar> / 2 ^ 53 + \<bar>c - h\<bar> / 2 ^ 53) / 2"
    using e by (intro divide_right_mono) simp_all
  finally show "\<bar>(fl (c - h) + fl (c + h)) / 2 - c\<bar> \<le> (\<bar>c + h\<bar> + \<bar>c - h\<bar>) / 2 ^ 54"
    by (simp add: add_divide_distrib)
qed

lemma zoom_axis:
  assumes "is_finite (fsub c hw)" "is_finite (fadd c hw)" "finite_double c" "finite_double hw"
  shows "dval (fsub c hw) = fl (dval c - dval hw)" "dval (fadd c hw) = fl (dval c + dval hw)"
    and "\<bar>(dval (fadd c hw) - dval (fsub c hw)) - 2 * dval hw\<bar>
           \<le> (\<bar>dval c + dval hw\<bar> + \<bar>dval c - dval hw\<bar>) / 2 ^ 53"
    and "\<bar>(dval (fsub c hw) + dval (fadd c hw)) / 2 - dval c\<bar>
           \<le> (\<bar>dval c + dval hw\<bar> + \<bar>dval c - dval hw\<bar>) / 2 ^ 54"
proof -
  show s: "dval (fsub c hw) = fl (dval c - dval hw)" using assms(1) by (rule fsub_result)
  show a: "dval (fadd c hw) = fl (dval c + dval hw)" using assms(2) by (rule fadd_result)
  have r: "fl (dval c) = dval c" "fl (dval hw) = dval hw"
    using assms(3,4) by (simp_all add: finite_doubleD)
  show "\<bar>(dval (fadd c hw) - dval (fsub c hw)) - 2 * dval hw\<bar>
           \<le> (\<bar>dval c + dval hw\<bar> + \<bar>dval c - dval hw\<bar>) / 2 ^ 53"
    unfolding s a using r by (rule fl_pair_error)
  show "\<bar>(dval (fsub c hw) + dval (fadd c hw)) / 2 - dval c\<bar>
           \<le> (\<bar>dval c + dval hw\<bar> + \<bar>dval c - dval hw\<bar>) / 2 ^ 54"
    unfolding s a using r by (rule fl_pair_error)
qed

text \<open>
  The half of the new extent: for the zoom factor \<open>2\<close> a quarter of the old extent, for the
  zoom factor \<open>0.5\<close> the old extent, both exactly, as long as the divisions do not
  underflow.
\<close>

lemma powr_1020:
  "(2::real) powr (- 1021) \<le> 2 powr (- 1020)" "(2::real) powr (- 1022) \<le> 2 powr (- 1020)"
  "(2::real) powr (- 1020) = 2 * 2 powr (- 1021)"
proof -
  show "(2::real) powr (- 1021) \<le> 2 powr (- 1020)" "(2::real) powr (- 1022) \<le> 2 powr (- 1020)"
    by (intro powr_mono; simp)+
  show "(2::real) powr (- 1020) = 2 * 2 powr (- 1021)"
    using powr_add [of "2::real" 1 "- 1021"] by simp
qed

lemma zoom_half_2:
  assumes "is_finite (fdiv (fdiv W (Num 2)) (Num 2))" "finite_double W" "2 powr (- 1020) \<le> dval W"
  shows "dval (fdiv (fdiv W (Num 2)) (Num 2)) = dval W / 4"
proof -
  have f2: "is_finite (Num 2)" by simp
  have i: "is_finite (fdiv W (Num 2))" using assms(1) f2 by (rule fdiv_result)
  have w: "fl (dval W) = dval W" using assms(2) by (rule finite_doubleD)
  have w1: "2 powr (- 1021) \<le> \<bar>dval W\<bar>" using assms(3) powr_1020(1) by linarith
  have "dval (fdiv W (Num 2)) = fl (dval W / 2)"
    using fdiv_result(3) [OF i f2] by simp
  also have "\<dots> = dval W / 2" using w w1 by (rule fl_half)
  finally have n: "dval (fdiv W (Num 2)) = dval W / 2" .
  have n1: "fl (dval W / 2) = dval W / 2" using w w1 by (rule fl_half)
  have n2: "2 powr (- 1021) \<le> \<bar>dval W / 2\<bar>" using assms(3) powr_1020(3) by simp
  have "dval (fdiv (fdiv W (Num 2)) (Num 2)) = fl (dval (fdiv W (Num 2)) / 2)"
    using fdiv_result(3) [OF assms(1) f2] by simp
  also have "\<dots> = fl (dval W / 2 / 2)" by (simp only: n)
  also have "\<dots> = dval W / 2 / 2" using n1 n2 by (rule fl_half)
  finally show ?thesis by simp
qed

lemma zoom_half_half:
  assumes "is_finite (fdiv (fdiv W (Num (1 / 2))) (Num 2))" "finite_double W" "2 powr (- 1020) \<le> dval W"
  shows "dval (fdiv (fdiv W (Num (1 / 2))) (Num 2)) = dval W"
proof -
  have f2: "is_finite (Num 2)" and fh: "is_finite (Num (1 / 2))" by simp_all
  have i: "is_finite (fdiv W (Num (1 / 2)))" using assms(1) f2 by (rule fdiv_result)
  have w: "fl (dval W) = dval W" using assms(2) by (rule finite_doubleD)
  have w1: "2 powr (- 1022) \<le> \<bar>dval W\<bar>" using assms(3) powr_1020(2) by linarith
  have "dval (fdiv W (Num (1 / 2))) = fl (dval W / (1 / 2))"
    using fdiv_result(3) [OF i fh] by simp
  also have "\<dots> = fl (2 * dval W)" by (simp add: mult.commute)
  also have "\<dots> = 2 * dval W" using w w1 by (rule fl_double)
  finally have n: "dval (fdiv W (Num (1 / 2))) = 2 * dval W" .
  have "dval (fdiv (fdiv W (Num (1 / 2))) (Num 2)) = fl (dval (fdiv W (Num (1 / 2))) / 2)"
    using fdiv_result(3) [OF assms(1) f2] by simp
  also have "\<dots> = fl (dval W)" by (simp add: n)
  finally show ?thesis by (simp add: w)
qed

text \<open>One axis of the zoom: centre \<open>c\<close>, old extent \<open>W\<close>.\<close>

lemma zoom_axis_2:
  assumes "is_finite (fsub c (fdiv (fdiv (fsub q p) (Num 2)) (Num 2)))"
    and "is_finite (fadd c (fdiv (fdiv (fsub q p) (Num 2)) (Num 2)))"
    and "c = fadd lo m"
    and "2 powr (- 1020) \<le> dval (fsub q p)"
  shows "dval (fsub c (fdiv (fdiv (fsub q p) (Num 2)) (Num 2))) = fl (dval c - dval (fsub q p) / 4)"
    and "dval (fadd c (fdiv (fdiv (fsub q p) (Num 2)) (Num 2))) = fl (dval c + dval (fsub q p) / 4)"
    and "\<bar>(dval (fadd c (fdiv (fdiv (fsub q p) (Num 2)) (Num 2)))
           - dval (fsub c (fdiv (fdiv (fsub q p) (Num 2)) (Num 2)))) - dval (fsub q p) / 2\<bar>
           \<le> (\<bar>dval c + dval (fsub q p) / 4\<bar> + \<bar>dval c - dval (fsub q p) / 4\<bar>) / 2 ^ 53"
    and "\<bar>(dval (fsub c (fdiv (fdiv (fsub q p) (Num 2)) (Num 2)))
           + dval (fadd c (fdiv (fdiv (fsub q p) (Num 2)) (Num 2)))) / 2 - dval c\<bar>
           \<le> (\<bar>dval c + dval (fsub q p) / 4\<bar> + \<bar>dval c - dval (fsub q p) / 4\<bar>) / 2 ^ 54"
proof -
  define hw where "hw = fdiv (fdiv (fsub q p) (Num 2)) (Num 2)"
  have h: "is_finite hw" using fsub_result(2) [OF assms(1)] by (simp add: hw_def)
  have c: "is_finite c" using fsub_result(1) [OF assms(1)] .
  have cf: "finite_double c" using c unfolding assms(3) by (rule fadd_result)
  have hf: "finite_double hw" using h unfolding hw_def by (rule fdiv_result) simp
  have f2: "is_finite (Num 2)" by simp
  have "is_finite (fdiv (fsub q p) (Num 2))" using h [unfolded hw_def] f2 by (rule fdiv_result)
  then have "is_finite (fsub q p)" using f2 by (rule fdiv_result)
  then have W: "finite_double (fsub q p)" by (rule fsub_result)
  have hv: "dval hw = dval (fsub q p) / 4"
    unfolding hw_def using h [unfolded hw_def] W assms(4) by (rule zoom_half_2)
  note ax = zoom_axis [OF assms(1,2) [folded hw_def] cf hf, unfolded hv]
  show "dval (fsub c (fdiv (fdiv (fsub q p) (Num 2)) (Num 2))) = fl (dval c - dval (fsub q p) / 4)"
    "dval (fadd c (fdiv (fdiv (fsub q p) (Num 2)) (Num 2))) = fl (dval c + dval (fsub q p) / 4)"
    using ax(1,2) by (simp_all add: hw_def)
  show "\<bar>(dval (fadd c (fdiv (fdiv (fsub q p) (Num 2)) (Num 2)))
           - dval (fsub c (fdiv (fdiv (fsub q p) (Num 2)) (Num 2)))) - dval (fsub q p) / 2\<bar>
           \<le> (\<bar>dval c + dval (fsub q p) / 4\<bar> + \<bar>dval c - dval (fsub q p) / 4\<bar>) / 2 ^ 53"
    using ax(3) by (simp add: hw_def)
  show "\<bar>(dval (fsub c (fdiv (fdiv (fsub q p) (Num 2)) (Num 2)))
           + dval (fadd c (fdiv (fdiv (fsub q p) (Num 2)) (Num 2)))) / 2 - dval c\<bar>
           \<le> (\<bar>dval c + dval (fsub q p) / 4\<bar> + \<bar>dval c - dval (fsub q p) / 4\<bar>) / 2 ^ 54"
    using ax(4) by (simp add: hw_def)
qed

lemma zoom_axis_half:
  assumes "is_finite (fsub c (fdiv (fdiv (fsub q p) (Num (1 / 2))) (Num 2)))"
    and "is_finite (fadd c (fdiv (fdiv (fsub q p) (Num (1 / 2))) (Num 2)))"
    and "c = fadd lo m"
    and "2 powr (- 1020) \<le> dval (fsub q p)"
  shows "dval (fsub c (fdiv (fdiv (fsub q p) (Num (1 / 2))) (Num 2))) = fl (dval c - dval (fsub q p))"
    and "dval (fadd c (fdiv (fdiv (fsub q p) (Num (1 / 2))) (Num 2))) = fl (dval c + dval (fsub q p))"
    and "\<bar>(dval (fadd c (fdiv (fdiv (fsub q p) (Num (1 / 2))) (Num 2)))
           - dval (fsub c (fdiv (fdiv (fsub q p) (Num (1 / 2))) (Num 2)))) - 2 * dval (fsub q p)\<bar>
           \<le> (\<bar>dval c + dval (fsub q p)\<bar> + \<bar>dval c - dval (fsub q p)\<bar>) / 2 ^ 53"
    and "\<bar>(dval (fsub c (fdiv (fdiv (fsub q p) (Num (1 / 2))) (Num 2)))
           + dval (fadd c (fdiv (fdiv (fsub q p) (Num (1 / 2))) (Num 2)))) / 2 - dval c\<bar>
           \<le> (\<bar>dval c + dval (fsub q p)\<bar> + \<bar>dval c - dval (fsub q p)\<bar>) / 2 ^ 54"
proof -
  define hw where "hw = fdiv (fdiv (fsub q p) (Num (1 / 2))) (Num 2)"
  have h: "is_finite hw" using fsub_result(2) [OF assms(1)] by (simp add: hw_def)
  have c: "is_finite c" using fsub_result(1) [OF assms(1)] .
  have cf: "finite_double c" using c unfolding assms(3) by (rule fadd_result)
  have hf: "finite_double hw" using h unfolding hw_def by (rule fdiv_result) simp
  have f2: "is_finite (Num 2)" and fh: "is_finite (Num (1 / 2))" by simp_all
  have "is_finite (fdiv (fsub q p) (Num (1 / 2)))" using h [unfolded hw_def] f2 by (rule fdiv_result)
  then have "is_finite (fsub q p)" using fh by (rule fdiv_result)
  then have W: "finite_double (fsub q p)" by (rule fsub_result)
  have hv: "dval hw = dval (fsub q p)"
    unfolding hw_def using h [unfolded hw_def] W assms(4) by (rule zoom_half_half)
  note ax = zoom_axis [OF assms(1,2) [folded hw_def] cf hf, unfolded hv]
  show "dval (fsub c (fdiv (fdiv (fsub q p) (Num (1 / 2))) (Num 2))) = fl (dval c - dval (fsub q p))"
    "dval (fadd c (fdiv (fdiv (fsub q p) (Num (1 / 2))) (Num 2))) = fl (dval c + dval (fsub q p))"
    using ax(1,2) by (simp_all add: hw_def)
  show "\<bar>(dval (fadd c (fdiv (fdiv (fsub q p) (Num (1 / 2))) (Num 2)))
           - dval (fsub c (fdiv (fdiv (fsub q p) (Num (1 / 2))) (Num 2)))) - 2 * dval (fsub q p)\<bar>
           \<le> (\<bar>dval c + dval (fsub q p)\<bar> + \<bar>dval c - dval (fsub q p)\<bar>) / 2 ^ 53"
    using ax(3) by (simp add: hw_def)
  show "\<bar>(dval (fsub c (fdiv (fdiv (fsub q p) (Num (1 / 2))) (Num 2)))
           + dval (fadd c (fdiv (fdiv (fsub q p) (Num (1 / 2))) (Num 2)))) / 2 - dval c\<bar>
           \<le> (\<bar>dval c + dval (fsub q p)\<bar> + \<bar>dval c - dval (fsub q p)\<bar>) / 2 ^ 54"
    using ax(4) by (simp add: hw_def)
qed

text \<open>
  C3, amended: for every viewport whose computed extents \<open>w\<close> and \<open>h\<close> are at least
  \<open>2^-1020\<close> (so that their halves and quarters do not underflow), with \<open>c\<close> the pixel
  \<open>(centerX, centerY)\<close> mapped by \<open>pixelToComplex\<close> under the original viewport: when the
  result \<open>z\<close> of \<open>zoomAtPoint\<close> with zoom factor \<open>2\<close> is finite, its bounds are
  \<open>c - w/4\<close> and \<open>c + w/4\<close> (\<open>c - h/4\<close> and \<open>c + h/4\<close>), each rounded; so its width is
  \<open>w/2\<close> and its height \<open>h/2\<close> up to \<open>2^-53\<close> times the sum of the absolute values of the
  two unrounded bounds, and its geometric centre is \<open>c\<close> up to half of that. With zoom
  factor \<open>0.5\<close> the same holds with \<open>w\<close> and \<open>h\<close> in place of \<open>w/4\<close> and \<open>h/4\<close>, and with
  \<open>2 w\<close> and \<open>2 h\<close> as width and height.
\<close>

theorem zoomAtPoint_rounded:
  assumes "2 powr (- 1020) \<le> dval (fsub (xMax v) (xMin v))"
    and "2 powr (- 1020) \<le> dval (fsub (yMax v) (yMin v))"
  shows "(finite_viewport (zoomAtPoint_fl v cx cy (Num 2) width height) \<longrightarrow>
           (let cr = dval (real_part (pixelToComplex_fl cx cy width height v));
                ci = dval (imaginary_part (pixelToComplex_fl cx cy width height v));
                w = dval (fsub (xMax v) (xMin v));
                h = dval (fsub (yMax v) (yMin v));
                z = zoomAtPoint_fl v cx cy (Num 2) width height
            in dval (xMin z) = fl (cr - w / 4) \<and> dval (xMax z) = fl (cr + w / 4)
             \<and> dval (yMin z) = fl (ci - h / 4) \<and> dval (yMax z) = fl (ci + h / 4)
             \<and> \<bar>(dval (xMax z) - dval (xMin z)) - w / 2\<bar> \<le> (\<bar>cr + w / 4\<bar> + \<bar>cr - w / 4\<bar>) / 2 ^ 53
             \<and> \<bar>(dval (yMax z) - dval (yMin z)) - h / 2\<bar> \<le> (\<bar>ci + h / 4\<bar> + \<bar>ci - h / 4\<bar>) / 2 ^ 53
             \<and> \<bar>(dval (xMin z) + dval (xMax z)) / 2 - cr\<bar> \<le> (\<bar>cr + w / 4\<bar> + \<bar>cr - w / 4\<bar>) / 2 ^ 54
             \<and> \<bar>(dval (yMin z) + dval (yMax z)) / 2 - ci\<bar> \<le> (\<bar>ci + h / 4\<bar> + \<bar>ci - h / 4\<bar>) / 2 ^ 54))
       \<and> (finite_viewport (zoomAtPoint_fl v cx cy (Num (1 / 2)) width height) \<longrightarrow>
           (let cr = dval (real_part (pixelToComplex_fl cx cy width height v));
                ci = dval (imaginary_part (pixelToComplex_fl cx cy width height v));
                w = dval (fsub (xMax v) (xMin v));
                h = dval (fsub (yMax v) (yMin v));
                z = zoomAtPoint_fl v cx cy (Num (1 / 2)) width height
            in dval (xMin z) = fl (cr - w) \<and> dval (xMax z) = fl (cr + w)
             \<and> dval (yMin z) = fl (ci - h) \<and> dval (yMax z) = fl (ci + h)
             \<and> \<bar>(dval (xMax z) - dval (xMin z)) - 2 * w\<bar> \<le> (\<bar>cr + w\<bar> + \<bar>cr - w\<bar>) / 2 ^ 53
             \<and> \<bar>(dval (yMax z) - dval (yMin z)) - 2 * h\<bar> \<le> (\<bar>ci + h\<bar> + \<bar>ci - h\<bar>) / 2 ^ 53
             \<and> \<bar>(dval (xMin z) + dval (xMax z)) / 2 - cr\<bar> \<le> (\<bar>cr + w\<bar> + \<bar>cr - w\<bar>) / 2 ^ 54
             \<and> \<bar>(dval (yMin z) + dval (yMax z)) / 2 - ci\<bar> \<le> (\<bar>ci + h\<bar> + \<bar>ci - h\<bar>) / 2 ^ 54))"
proof (intro conjI impI)
  assume f: "finite_viewport (zoomAtPoint_fl v cx cy (Num 2) width height)"
  have cr: "real_part (pixelToComplex_fl cx cy width height v)
      = fadd (xMin v) (fmul cx (fdiv (fsub (xMax v) (xMin v)) width))"
    and ci: "imaginary_part (pixelToComplex_fl cx cy width height v)
      = fadd (yMin v) (fmul cy (fdiv (fsub (yMax v) (yMin v)) height))"
    by (simp_all add: pixelToComplex_fl_def Let_def)
  have fx: "is_finite (fsub (real_part (pixelToComplex_fl cx cy width height v))
                 (fdiv (fdiv (fsub (xMax v) (xMin v)) (Num 2)) (Num 2)))"
      "is_finite (fadd (real_part (pixelToComplex_fl cx cy width height v))
                 (fdiv (fdiv (fsub (xMax v) (xMin v)) (Num 2)) (Num 2)))"
    and fy: "is_finite (fsub (imaginary_part (pixelToComplex_fl cx cy width height v))
                 (fdiv (fdiv (fsub (yMax v) (yMin v)) (Num 2)) (Num 2)))"
      "is_finite (fadd (imaginary_part (pixelToComplex_fl cx cy width height v))
                 (fdiv (fdiv (fsub (yMax v) (yMin v)) (Num 2)) (Num 2)))"
    using f by (simp_all add: finite_viewport_def finite_double_def zoomAtPoint_fl_def Let_def)
  note x = zoom_axis_2 [OF fx cr assms(1)]
  note y = zoom_axis_2 [OF fy ci assms(2)]
  show "let cr = dval (real_part (pixelToComplex_fl cx cy width height v));
                ci = dval (imaginary_part (pixelToComplex_fl cx cy width height v));
                w = dval (fsub (xMax v) (xMin v));
                h = dval (fsub (yMax v) (yMin v));
                z = zoomAtPoint_fl v cx cy (Num 2) width height
            in dval (xMin z) = fl (cr - w / 4) \<and> dval (xMax z) = fl (cr + w / 4)
             \<and> dval (yMin z) = fl (ci - h / 4) \<and> dval (yMax z) = fl (ci + h / 4)
             \<and> \<bar>(dval (xMax z) - dval (xMin z)) - w / 2\<bar> \<le> (\<bar>cr + w / 4\<bar> + \<bar>cr - w / 4\<bar>) / 2 ^ 53
             \<and> \<bar>(dval (yMax z) - dval (yMin z)) - h / 2\<bar> \<le> (\<bar>ci + h / 4\<bar> + \<bar>ci - h / 4\<bar>) / 2 ^ 53
             \<and> \<bar>(dval (xMin z) + dval (xMax z)) / 2 - cr\<bar> \<le> (\<bar>cr + w / 4\<bar> + \<bar>cr - w / 4\<bar>) / 2 ^ 54
             \<and> \<bar>(dval (yMin z) + dval (yMax z)) / 2 - ci\<bar> \<le> (\<bar>ci + h / 4\<bar> + \<bar>ci - h / 4\<bar>) / 2 ^ 54"
    unfolding Let_def using x y
    by (simp only: zoomAtPoint_fl_def Let_def Viewport.simps simp_thms)
next
  assume f: "finite_viewport (zoomAtPoint_fl v cx cy (Num (1 / 2)) width height)"
  have cr: "real_part (pixelToComplex_fl cx cy width height v)
      = fadd (xMin v) (fmul cx (fdiv (fsub (xMax v) (xMin v)) width))"
    and ci: "imaginary_part (pixelToComplex_fl cx cy width height v)
      = fadd (yMin v) (fmul cy (fdiv (fsub (yMax v) (yMin v)) height))"
    by (simp_all add: pixelToComplex_fl_def Let_def)
  have fx: "is_finite (fsub (real_part (pixelToComplex_fl cx cy width height v))
                 (fdiv (fdiv (fsub (xMax v) (xMin v)) (Num (1 / 2))) (Num 2)))"
      "is_finite (fadd (real_part (pixelToComplex_fl cx cy width height v))
                 (fdiv (fdiv (fsub (xMax v) (xMin v)) (Num (1 / 2))) (Num 2)))"
    and fy: "is_finite (fsub (imaginary_part (pixelToComplex_fl cx cy width height v))
                 (fdiv (fdiv (fsub (yMax v) (yMin v)) (Num (1 / 2))) (Num 2)))"
      "is_finite (fadd (imaginary_part (pixelToComplex_fl cx cy width height v))
                 (fdiv (fdiv (fsub (yMax v) (yMin v)) (Num (1 / 2))) (Num 2)))"
    using f by (simp_all add: finite_viewport_def finite_double_def zoomAtPoint_fl_def Let_def)
  note x = zoom_axis_half [OF fx cr assms(1)]
  note y = zoom_axis_half [OF fy ci assms(2)]
  show "let cr = dval (real_part (pixelToComplex_fl cx cy width height v));
                ci = dval (imaginary_part (pixelToComplex_fl cx cy width height v));
                w = dval (fsub (xMax v) (xMin v));
                h = dval (fsub (yMax v) (yMin v));
                z = zoomAtPoint_fl v cx cy (Num (1 / 2)) width height
            in dval (xMin z) = fl (cr - w) \<and> dval (xMax z) = fl (cr + w)
             \<and> dval (yMin z) = fl (ci - h) \<and> dval (yMax z) = fl (ci + h)
             \<and> \<bar>(dval (xMax z) - dval (xMin z)) - 2 * w\<bar> \<le> (\<bar>cr + w\<bar> + \<bar>cr - w\<bar>) / 2 ^ 53
             \<and> \<bar>(dval (yMax z) - dval (yMin z)) - 2 * h\<bar> \<le> (\<bar>ci + h\<bar> + \<bar>ci - h\<bar>) / 2 ^ 53
             \<and> \<bar>(dval (xMin z) + dval (xMax z)) / 2 - cr\<bar> \<le> (\<bar>cr + w\<bar> + \<bar>cr - w\<bar>) / 2 ^ 54
             \<and> \<bar>(dval (yMin z) + dval (yMax z)) / 2 - ci\<bar> \<le> (\<bar>ci + h\<bar> + \<bar>ci - h\<bar>) / 2 ^ 54"
    unfolding Let_def using x y
    by (simp only: zoomAtPoint_fl_def Let_def Viewport.simps simp_thms)
qed

text \<open>
  The default viewport zoomed at the pixel \<open>(115, 300)\<close>, by the factors \<open>2\<close> and \<open>0.5\<close>.
\<close>

lemma zoomAtPoint_fl_default:
  "zoomAtPoint_fl getDefaultViewport (Num 115) (Num 300) (Num 2) (Num 800) (Num 600)
     = \<lparr>xMin = Num (- (3233443794963661 / 1125899906842624)),
        xMax = Num (- (5052475831956275 / 4503599627370496)),
        yMin = Num (- (3 / 4)), yMax = Num (3 / 4)\<rparr>"
  "zoomAtPoint_fl getDefaultViewport (Num 115) (Num 300) (Num (1 / 2)) (Num 800) (Num 600)
     = \<lparr>xMin = Num (- (6188931050425549 / 1125899906842624)),
        xMax = Num (6769473189891277 / 4503599627370496),
        yMin = Num (- 3), yMax = Num 3\<rparr>"
  by (simp_all add: zoomAtPoint_fl_def pixelToComplex_fl_def getDefaultViewport_def Let_def eval_steps)

lemma zoomAtPoint_fl_default_finite:
  "finite_viewport (zoomAtPoint_fl getDefaultViewport (Num 115) (Num 300) (Num 2) (Num 800) (Num 600))"
  "finite_viewport (zoomAtPoint_fl getDefaultViewport (Num 115) (Num 300) (Num (1 / 2)) (Num 800) (Num 600))"
  unfolding zoomAtPoint_fl_default
  by (simp_all add: finite_viewport_def finite_double_def representable_steps)

lemma zoomAtPoint_fl_default_center:
  "dval (real_part (pixelToComplex_fl (Num 115) (Num 300) (Num 800) (Num 600) getDefaultViewport))
     = - (8993125505905459 / 4503599627370496)"
  "dval (fsub (xMax getDefaultViewport) (xMin getDefaultViewport)) = 7 / 2"
  "dval (fsub (yMax getDefaultViewport) (yMin getDefaultViewport)) = 3"
  by (simp_all add: pixelToComplex_fl_def getDefaultViewport_def Let_def eval_steps)

text \<open>
  C3, as stated: for every viewport with positive extents and positive width and height,
  \<open>zoomAtPoint\<close> with zoom factor 2 halves the width and the height, with zoom factor 0.5 it
  doubles them, and the centre of the result is \<open>pixelToComplex(centerX, centerY)\<close>. On
  the default viewport, zoomed at the pixel \<open>(115, 300)\<close>: after the factor 2 the width is
  \<open>1.7500000000000002\<close> and not \<open>1.75\<close>; after the factor 0.5 the two bounds are not 7
  apart; and the midpoint of the result after the factor 2 is not the mapped pixel.
\<close>

theorem zoomAtPoint_half_counterexample:
  "fsub (xMax (zoomAtPoint_fl getDefaultViewport (Num 115) (Num 300) (Num 2) (Num 800) (Num 600)))
        (xMin (zoomAtPoint_fl getDefaultViewport (Num 115) (Num 300) (Num 2) (Num 800) (Num 600)))
     \<noteq> fdiv (fsub (xMax getDefaultViewport) (xMin getDefaultViewport)) (Num 2)
   \<and> dval (xMax (zoomAtPoint_fl getDefaultViewport (Num 115) (Num 300) (Num 2) (Num 800) (Num 600)))
       - dval (xMin (zoomAtPoint_fl getDefaultViewport (Num 115) (Num 300) (Num 2) (Num 800) (Num 600)))
     \<noteq> (dval (xMax getDefaultViewport) - dval (xMin getDefaultViewport)) / 2
   \<and> dval (xMax (zoomAtPoint_fl getDefaultViewport (Num 115) (Num 300) (Num (1 / 2)) (Num 800) (Num 600)))
       - dval (xMin (zoomAtPoint_fl getDefaultViewport (Num 115) (Num 300) (Num (1 / 2)) (Num 800) (Num 600)))
     \<noteq> 2 * (dval (xMax getDefaultViewport) - dval (xMin getDefaultViewport))
   \<and> fdiv (fadd (xMin (zoomAtPoint_fl getDefaultViewport (Num 115) (Num 300) (Num 2) (Num 800) (Num 600)))
              (xMax (zoomAtPoint_fl getDefaultViewport (Num 115) (Num 300) (Num 2) (Num 800) (Num 600))))
          (Num 2)
     \<noteq> real_part (pixelToComplex_fl (Num 115) (Num 300) (Num 800) (Num 600) getDefaultViewport)"
  unfolding zoomAtPoint_fl_default
  by (simp add: pixelToComplex_fl_def getDefaultViewport_def Let_def eval_steps)

text \<open>
  The same two zooms: the extents of the default viewport are above \<open>2^-1020\<close>, both
  results are finite, and the widths are within the bounds of half and of twice the old one.
\<close>

theorem zoomAtPoint_rounded_witness:
  "2 powr (- 1020) \<le> dval (fsub (xMax getDefaultViewport) (xMin getDefaultViewport))
   \<and> 2 powr (- 1020) \<le> dval (fsub (yMax getDefaultViewport) (yMin getDefaultViewport))
   \<and> finite_viewport (zoomAtPoint_fl getDefaultViewport (Num 115) (Num 300) (Num 2) (Num 800) (Num 600))
   \<and> finite_viewport (zoomAtPoint_fl getDefaultViewport (Num 115) (Num 300) (Num (1 / 2)) (Num 800) (Num 600))
   \<and> dval (xMax (zoomAtPoint_fl getDefaultViewport (Num 115) (Num 300) (Num 2) (Num 800) (Num 600)))
       - dval (xMin (zoomAtPoint_fl getDefaultViewport (Num 115) (Num 300) (Num 2) (Num 800) (Num 600)))
     = 7 / 4 + 1 / 2 ^ 52
   \<and> \<bar>(dval (xMax (zoomAtPoint_fl getDefaultViewport (Num 115) (Num 300) (Num 2) (Num 800) (Num 600)))
       - dval (xMin (zoomAtPoint_fl getDefaultViewport (Num 115) (Num 300) (Num 2) (Num 800) (Num 600))))
      - 7 / 4\<bar> \<le> 4 / 2 ^ 53
   \<and> \<bar>(dval (xMax (zoomAtPoint_fl getDefaultViewport (Num 115) (Num 300) (Num (1 / 2)) (Num 800) (Num 600)))
       - dval (xMin (zoomAtPoint_fl getDefaultViewport (Num 115) (Num 300) (Num (1 / 2)) (Num 800) (Num 600))))
      - 7\<bar> \<le> 7 / 2 ^ 53"
proof -
  have ext: "2 powr (- 1020) \<le> dval (fsub (xMax getDefaultViewport) (xMin getDefaultViewport))"
    "2 powr (- 1020) \<le> dval (fsub (yMax getDefaultViewport) (yMin getDefaultViewport))"
    unfolding zoomAtPoint_fl_default_center by (simp_all add: powr_minus)
  note zoom = zoomAtPoint_rounded [OF ext, of "Num 115" "Num 300" "Num 800" "Num 600"]
  note two = zoom [THEN conjunct1, THEN mp, OF zoomAtPoint_fl_default_finite(1),
      unfolded Let_def zoomAtPoint_fl_default_center]
  note half = zoom [THEN conjunct2, THEN mp, OF zoomAtPoint_fl_default_finite(2),
      unfolded Let_def zoomAtPoint_fl_default_center]
  have b2: "\<bar>(dval (xMax (zoomAtPoint_fl getDefaultViewport (Num 115) (Num 300) (Num 2) (Num 800) (Num 600)))
       - dval (xMin (zoomAtPoint_fl getDefaultViewport (Num 115) (Num 300) (Num 2) (Num 800) (Num 600))))
      - 7 / 4\<bar> \<le> 4 / 2 ^ 53"
    using two [THEN conjunct2, THEN conjunct2, THEN conjunct2, THEN conjunct2, THEN conjunct1]
    by simp
  have bh: "\<bar>(dval (xMax (zoomAtPoint_fl getDefaultViewport (Num 115) (Num 300) (Num (1 / 2)) (Num 800) (Num 600)))
       - dval (xMin (zoomAtPoint_fl getDefaultViewport (Num 115) (Num 300) (Num (1 / 2)) (Num 800) (Num 600))))
      - 7\<bar> \<le> 7 / 2 ^ 53"
    using half [THEN conjunct2, THEN conjunct2, THEN conjunct2, THEN conjunct2, THEN conjunct1]
    by simp
  have val: "dval (xMax (zoomAtPoint_fl getDefaultViewport (Num 115) (Num 300) (Num 2) (Num 800) (Num 600)))
       - dval (xMin (zoomAtPoint_fl getDefaultViewport (Num 115) (Num 300) (Num 2) (Num 800) (Num 600)))
     = 7 / 4 + 1 / 2 ^ 52"
    by (simp add: zoomAtPoint_fl_default)
  from ext zoomAtPoint_fl_default_finite val b2 bh show ?thesis
    by (simp only: simp_thms)
qed

subsection \<open>Zooming to a region\<close>

text \<open>
  One axis of \<open>createZoomViewport\<close>: the two bounds that the smaller and the larger of
  the two pixel coordinates \<open>p\<close> and \<open>q\<close> give.
\<close>

lemma region_axis:
  assumes lo: "finite_double lo" and hi: "finite_double hi" and lt: "dval lo < dval hi"
    and n: "is_finite n" "0 < dval n"
    and p: "is_finite p" "0 \<le> dval p" and q: "is_finite q" "0 \<le> dval q"
    and fL: "is_finite (fadd lo (fmul (math_min p q) (fdiv (fsub hi lo) n)))"
    and fR: "is_finite (fadd lo (fmul (math_max p q) (fdiv (fsub hi lo) n)))"
  shows "dval (fadd lo (fmul (math_min p q) (fdiv (fsub hi lo) n)))
           = fl (dval lo + dval (fmul (math_min p q) (fdiv (fsub hi lo) n)))"
    and "dval (fadd lo (fmul (math_max p q) (fdiv (fsub hi lo) n)))
           = fl (dval lo + dval (fmul (math_max p q) (fdiv (fsub hi lo) n)))"
    and "dval lo \<le> dval (fadd lo (fmul (math_min p q) (fdiv (fsub hi lo) n)))"
    and "dval (fadd lo (fmul (math_min p q) (fdiv (fsub hi lo) n)))
           \<le> dval (fadd lo (fmul (math_max p q) (fdiv (fsub hi lo) n)))"
    and "(\<bar>dval lo + dval (fmul (math_min p q) (fdiv (fsub hi lo) n))\<bar>
          + \<bar>dval lo + dval (fmul (math_max p q) (fdiv (fsub hi lo) n))\<bar>) / 2 ^ 53
           < dval (fmul (math_max p q) (fdiv (fsub hi lo) n)) - dval (fmul (math_min p q) (fdiv (fsub hi lo) n))
         \<Longrightarrow> dval (fadd lo (fmul (math_min p q) (fdiv (fsub hi lo) n)))
           < dval (fadd lo (fmul (math_max p q) (fdiv (fsub hi lo) n)))"
    and "normal (dval (fsub hi lo) / dval n) \<Longrightarrow>
         normal (max (dval p) (dval q) * dval (fdiv (fsub hi lo) n)) \<Longrightarrow>
         max (dval p) (dval q) * (1 + 1 / 2 ^ 53) ^ 3 \<le> dval n \<Longrightarrow>
         dval (fadd lo (fmul (math_max p q) (fdiv (fsub hi lo) n))) \<le> dval hi"
proof -
  define W where "W = fsub hi lo"
  define S where "S = fdiv W n"
  define L where "L = fmul (math_min p q) S"
  define R where "R = fmul (math_max p q) S"
  define u :: real where "u = 1 + 1 / 2 ^ 53"
  have r: "fl (dval lo) = dval lo" "fl (dval hi) = dval hi"
    using lo hi by (simp_all add: finite_doubleD)
  have Lf: "is_finite L" and Lv: "dval (fadd lo L) = fl (dval lo + dval L)"
    using fadd_result [OF fL] by (simp_all add: L_def S_def W_def)
  have Rf: "is_finite R" and Rv: "dval (fadd lo R) = fl (dval lo + dval R)"
    using fadd_result [OF fR] by (simp_all add: R_def S_def W_def)
  have Sf: "is_finite S" and Lm: "dval L = fl (dval (math_min p q) * dval S)"
    and Lr: "finite_double L"
    using fmul_result [OF Lf [unfolded L_def]] by (simp_all add: L_def)
  have Rm: "dval R = fl (dval (math_max p q) * dval S)" and Rr: "finite_double R"
    using fmul_result [OF Rf [unfolded R_def]] by (simp_all add: R_def)
  have Wf: "is_finite W" and Sv: "dval S = fl (dval W / dval n)"
    using fdiv_result [OF Sf [unfolded S_def] n(1)] by (simp_all add: S_def)
  have Wv: "dval W = fl (dval hi - dval lo)"
    using fsub_result [OF Wf [unfolded W_def]] by (simp add: W_def)
  have W0: "0 < dval W" unfolding Wv using r(2,1) lt by (rule fl_sub_pos)
  have S0: "0 \<le> dval S" unfolding Sv using W0 n(2) by (intro fl_nonneg) simp
  have mn: "dval (math_min p q) = min (dval p) (dval q)"
    and mx: "dval (math_max p q) = max (dval p) (dval q)"
    using p(1) q(1) by (simp_all add: math_min_finite math_max_finite)
  have L0: "0 \<le> dval L" unfolding Lm mn using p(2) q(2) S0 by (intro fl_nonneg) simp
  have LR: "dval L \<le> dval R"
    unfolding Lm Rm mn mx using S0 by (intro fl_mono mult_right_mono) simp_all
  have rL: "fl (dval L) = dval L" and rR: "fl (dval R) = dval R"
    using Lr Rr by (simp_all add: finite_doubleD)
  show "dval (fadd lo (fmul (math_min p q) (fdiv (fsub hi lo) n)))
           = fl (dval lo + dval (fmul (math_min p q) (fdiv (fsub hi lo) n)))"
    using Lv by (simp only: L_def S_def W_def)
  show "dval (fadd lo (fmul (math_max p q) (fdiv (fsub hi lo) n)))
           = fl (dval lo + dval (fmul (math_max p q) (fdiv (fsub hi lo) n)))"
    using Rv by (simp only: R_def S_def W_def)
  have "fl (dval lo) \<le> fl (dval lo + dval L)" using L0 by (intro fl_mono) simp
  then have "dval lo \<le> dval (fadd lo L)" by (simp only: r Lv)
  then show "dval lo \<le> dval (fadd lo (fmul (math_min p q) (fdiv (fsub hi lo) n)))"
    by (simp only: L_def S_def W_def)
  have "dval (fadd lo L) \<le> dval (fadd lo R)"
    unfolding Lv Rv using LR by (intro fl_mono) simp
  then show "dval (fadd lo (fmul (math_min p q) (fdiv (fsub hi lo) n)))
           \<le> dval (fadd lo (fmul (math_max p q) (fdiv (fsub hi lo) n)))"
    by (simp only: L_def R_def S_def W_def)
  show "dval (fadd lo (fmul (math_min p q) (fdiv (fsub hi lo) n)))
           < dval (fadd lo (fmul (math_max p q) (fdiv (fsub hi lo) n)))"
    if "(\<bar>dval lo + dval (fmul (math_min p q) (fdiv (fsub hi lo) n))\<bar>
          + \<bar>dval lo + dval (fmul (math_max p q) (fdiv (fsub hi lo) n))\<bar>) / 2 ^ 53
           < dval (fmul (math_max p q) (fdiv (fsub hi lo) n)) - dval (fmul (math_min p q) (fdiv (fsub hi lo) n))"
  proof -
    from that have gap: "(\<bar>dval lo + dval L\<bar> + \<bar>dval lo + dval R\<bar>) / 2 ^ 53 < dval R - dval L"
      by (simp only: L_def R_def S_def W_def)
    have eL: "\<bar>fl (dval lo + dval L) - (dval lo + dval L)\<bar> \<le> \<bar>dval lo + dval L\<bar> / 2 ^ 53"
      using r(1) rL by (rule fl_add_error)
    have eR: "\<bar>fl (dval lo + dval R) - (dval lo + dval R)\<bar> \<le> \<bar>dval lo + dval R\<bar> / 2 ^ 53"
      using r(1) rR by (rule fl_add_error)
    have "\<bar>dval lo + dval L\<bar> / 2 ^ 53 + \<bar>dval lo + dval R\<bar> / 2 ^ 53 < dval R - dval L"
      using gap by (simp add: add_divide_distrib)
    with eL eR have "fl (dval lo + dval L) < fl (dval lo + dval R)" by linarith
    then have "dval (fadd lo L) < dval (fadd lo R)" by (simp only: Lv Rv)
    then show ?thesis by (simp only: L_def R_def S_def W_def)
  qed
  show "dval (fadd lo (fmul (math_max p q) (fdiv (fsub hi lo) n))) \<le> dval hi"
    if "normal (dval (fsub hi lo) / dval n)"
      "normal (max (dval p) (dval q) * dval (fdiv (fsub hi lo) n))"
      "max (dval p) (dval q) * (1 + 1 / 2 ^ 53) ^ 3 \<le> dval n"
  proof -
    define m where "m = max (dval p) (dval q)"
    define D where "D = dval hi - dval lo"
    have n1: "normal (dval W / dval n)" and n2: "normal (m * dval S)"
      and room: "m * u ^ 3 \<le> dval n"
      using that by (simp_all add: W_def S_def m_def u_def)
    have m0: "0 \<le> m" using p(2) by (simp add: m_def)
    have D0: "0 < D" using lt by (simp add: D_def)
    have u0: "0 < u" by (simp add: u_def)
    have "dval W \<le> D * u"
      unfolding Wv D_def u_def using r(2,1) lt by (intro fl_sub_le_rel) simp_all
    then have "dval W / dval n \<le> D * u / dval n"
      using n(2) by (simp add: divide_right_mono)
    moreover have "dval S \<le> dval W / dval n * u"
      unfolding Sv u_def using W0 n(2) n1 by (intro fl_le_rel) simp_all
    ultimately have "dval S \<le> D * u / dval n * u"
      using u0 by (meson mult_right_mono less_imp_le order_trans)
    then have "m * dval S \<le> m * (D * u / dval n * u)"
      using m0 by (rule mult_left_mono)
    moreover have "dval R \<le> m * dval S * u"
      unfolding Rm mx m_def [symmetric] u_def using m0 S0 n2 by (intro fl_le_rel) simp_all
    ultimately have "dval R \<le> m * (D * u / dval n * u) * u"
      using u0 by (meson mult_right_mono less_imp_le order_trans)
    also have "\<dots> = D * (m * u ^ 3 / dval n)"
      by (simp add: power3_eq_cube)
    also have "\<dots> \<le> D * 1"
      using D0 n(2) room by (intro mult_left_mono) simp_all
    finally have "dval lo + dval R \<le> dval hi" by (simp add: D_def)
    then have "fl (dval lo + dval R) \<le> fl (dval hi)" by (rule fl_mono)
    then have "dval (fadd lo R) \<le> dval hi" by (simp only: Rv r)
    then show ?thesis by (simp only: R_def S_def W_def)
  qed
qed

text \<open>
  C5, amended: for every finite viewport with \<open>xMin < xMax\<close> and \<open>yMin < yMax\<close>, every finite
  positive width and height and every two corners with finite coordinates that are not
  negative, if the viewport \<open>createZoomViewport\<close> returns is finite: its bounds are the
  rounded sums of the old lower bound and the scaled smaller or larger corner coordinate;
  the lower bounds are not below the old ones; \<open>xMin \<le> xMax\<close> and \<open>yMin \<le> yMax\<close>, strictly
  as soon as the two scaled coordinates are further apart than the two roundings of the
  sums can move them; the upper bounds are not above the old ones as soon as the scale and
  the scaled coordinate do not underflow and the larger coordinate is, by three roundings,
  not beyond the canvas; and the order in which the two corners are given makes no
  difference.
\<close>

theorem createZoomViewport_inside:
  assumes "finite_viewport v" "dval (xMin v) < dval (xMax v)" "dval (yMin v) < dval (yMax v)"
    and "is_finite width" "0 < dval width" "is_finite height" "0 < dval height"
    and "is_finite x1" "0 \<le> dval x1" "is_finite x2" "0 \<le> dval x2"
    and "is_finite y1" "0 \<le> dval y1" "is_finite y2" "0 \<le> dval y2"
    and "finite_viewport (createZoomViewport_fl v x1 y1 x2 y2 width height)"
  shows "let z = createZoomViewport_fl v x1 y1 x2 y2 width height;
             scaleX = fdiv (fsub (xMax v) (xMin v)) width;
             scaleY = fdiv (fsub (yMax v) (yMin v)) height;
             left = dval (fmul (math_min x1 x2) scaleX);
             right = dval (fmul (math_max x1 x2) scaleX);
             top = dval (fmul (math_min y1 y2) scaleY);
             bottom = dval (fmul (math_max y1 y2) scaleY)
         in dval (xMin z) = fl (dval (xMin v) + left) \<and> dval (xMax z) = fl (dval (xMin v) + right)
          \<and> dval (yMin z) = fl (dval (yMin v) + top) \<and> dval (yMax z) = fl (dval (yMin v) + bottom)
          \<and> dval (xMin v) \<le> dval (xMin z) \<and> dval (yMin v) \<le> dval (yMin z)
          \<and> dval (xMin z) \<le> dval (xMax z) \<and> dval (yMin z) \<le> dval (yMax z)
          \<and> ((\<bar>dval (xMin v) + left\<bar> + \<bar>dval (xMin v) + right\<bar>) / 2 ^ 53 < right - left
               \<longrightarrow> dval (xMin z) < dval (xMax z))
          \<and> ((\<bar>dval (yMin v) + top\<bar> + \<bar>dval (yMin v) + bottom\<bar>) / 2 ^ 53 < bottom - top
               \<longrightarrow> dval (yMin z) < dval (yMax z))
          \<and> (normal (dval (fsub (xMax v) (xMin v)) / dval width)
               \<and> normal (max (dval x1) (dval x2) * dval scaleX)
               \<and> max (dval x1) (dval x2) * (1 + 1 / 2 ^ 53) ^ 3 \<le> dval width
               \<longrightarrow> dval (xMax z) \<le> dval (xMax v))
          \<and> (normal (dval (fsub (yMax v) (yMin v)) / dval height)
               \<and> normal (max (dval y1) (dval y2) * dval scaleY)
               \<and> max (dval y1) (dval y2) * (1 + 1 / 2 ^ 53) ^ 3 \<le> dval height
               \<longrightarrow> dval (yMax z) \<le> dval (yMax v))
          \<and> createZoomViewport_fl v x2 y2 x1 y1 width height = z"
proof -
  have vf: "finite_double (xMin v)" "finite_double (xMax v)" "finite_double (yMin v)" "finite_double (yMax v)"
    using assms(1) by (simp_all add: finite_viewport_def)
  have zf: "is_finite (fadd (xMin v) (fmul (math_min x1 x2) (fdiv (fsub (xMax v) (xMin v)) width)))"
    "is_finite (fadd (xMin v) (fmul (math_max x1 x2) (fdiv (fsub (xMax v) (xMin v)) width)))"
    "is_finite (fadd (yMin v) (fmul (math_min y1 y2) (fdiv (fsub (yMax v) (yMin v)) height)))"
    "is_finite (fadd (yMin v) (fmul (math_max y1 y2) (fdiv (fsub (yMax v) (yMin v)) height)))"
    using assms(16)
    by (simp_all add: finite_viewport_def createZoomViewport_fl_def pixelToComplex_fl_def Let_def finite_doubleD)
  note x = region_axis [OF vf(1,2) assms(2,4,5,8,9,10,11) zf(1,2)]
  note y = region_axis [OF vf(3,4) assms(3,6,7,12,13,14,15) zf(3,4)]
  have sym: "createZoomViewport_fl v x2 y2 x1 y1 width height = createZoomViewport_fl v x1 y1 x2 y2 width height"
    by (simp add: createZoomViewport_fl_def math_min_commute [of x2 x1] math_max_commute [of x2 x1]
        math_min_commute [of y2 y1] math_max_commute [of y2 y1])
  have z: "xMin (createZoomViewport_fl v x1 y1 x2 y2 width height)
             = fadd (xMin v) (fmul (math_min x1 x2) (fdiv (fsub (xMax v) (xMin v)) width))"
    "xMax (createZoomViewport_fl v x1 y1 x2 y2 width height)
             = fadd (xMin v) (fmul (math_max x1 x2) (fdiv (fsub (xMax v) (xMin v)) width))"
    "yMin (createZoomViewport_fl v x1 y1 x2 y2 width height)
             = fadd (yMin v) (fmul (math_min y1 y2) (fdiv (fsub (yMax v) (yMin v)) height))"
    "yMax (createZoomViewport_fl v x1 y1 x2 y2 width height)
             = fadd (yMin v) (fmul (math_max y1 y2) (fdiv (fsub (yMax v) (yMin v)) height))"
    by (simp_all add: createZoomViewport_fl_def pixelToComplex_fl_def Let_def)
  show ?thesis
    unfolding Let_def z sym
    using x y by (intro conjI impI) (simp_all only: simp_thms)
qed

text \<open>
  Four selections on an 800 by 600 canvas: one of width zero, one with a corner off the
  canvas, one with two distinct corners on the viewport from \<open>1\<close> to the next double, and
  one with a corner on the right edge of the canvas.
\<close>

lemma createZoomViewport_fl_examples:
  "createZoomViewport_fl getDefaultViewport (Num 100) (Num 100) (Num 100) (Num 300) (Num 800) (Num 600)
     = \<lparr>xMin = Num (- (33 / 16)), xMax = Num (- (33 / 16)), yMin = Num (- 1), yMax = Num 0\<rparr>"
  "createZoomViewport_fl getDefaultViewport (Num 700) (Num 100) (Num 900) (Num 300) (Num 800) (Num 600)
     = \<lparr>xMin = Num (1266637395197953 / 2251799813685248),
        xMax = Num (3236962232172545 / 2251799813685248), yMin = Num (- 1), yMax = Num 0\<rparr>"
  "createZoomViewport_fl \<lparr>xMin = Num 1, xMax = Num (4503599627370497 / 4503599627370496), yMin = Num 0, yMax = Num 1\<rparr>
     (Num 100) (Num 100) (Num 300) (Num 300) (Num 800) (Num 600)
     = \<lparr>xMin = Num 1, xMax = Num 1, yMin = Num (3002399751580331 / 18014398509481984), yMax = Num (1 / 2)\<rparr>"
  "createZoomViewport_fl getDefaultViewport (Num 100) (Num 100) (Num 800) (Num 600) (Num 800) (Num 600)
     = \<lparr>xMin = Num (- (33 / 16)), xMax = Num (2251799813685249 / 2251799813685248),
        yMin = Num (- 1), yMax = Num (3 / 2)\<rparr>"
  by (simp_all add: createZoomViewport_fl_def pixelToComplex_fl_def getDefaultViewport_def Let_def
      math_min_Num math_max_Num eval_steps)

text \<open>
  C5, as stated: for every input viewport and every pair of corners the result of
  \<open>createZoomViewport\<close> is inside the input viewport and has \<open>xMin < xMax\<close> and
  \<open>yMin < yMax\<close>. A selection of width zero gives \<open>xMin = xMax\<close>. A corner off the
  canvas is extrapolated beyond \<open>xMax\<close>. On the viewport from \<open>1\<close> to the next double the
  two distinct corners \<open>x = 100\<close> and \<open>x = 300\<close> of the canvas map to the same double, so
  again \<open>xMin = xMax\<close>. And on the default viewport the right edge \<open>x = 800\<close> of the canvas
  maps to \<open>1.0000000000000004\<close>, above \<open>xMax = 1\<close>.
\<close>

theorem createZoomViewport_counterexample:
  "finite_viewport getDefaultViewport
   \<and> finite_viewport \<lparr>xMin = Num 1, xMax = Num (4503599627370497 / 4503599627370496), yMin = Num 0, yMax = Num 1\<rparr>
   \<and> lt_d (Num 1) (Num (4503599627370497 / 4503599627370496)) \<and> lt_d (Num 0) (Num 1)
   \<and> \<not> lt_d (xMin (createZoomViewport_fl getDefaultViewport (Num 100) (Num 100) (Num 100) (Num 300) (Num 800) (Num 600)))
            (xMax (createZoomViewport_fl getDefaultViewport (Num 100) (Num 100) (Num 100) (Num 300) (Num 800) (Num 600)))
   \<and> \<not> le_d (xMax (createZoomViewport_fl getDefaultViewport (Num 700) (Num 100) (Num 900) (Num 300) (Num 800) (Num 600)))
            (xMax getDefaultViewport)
   \<and> \<not> lt_d (xMin (createZoomViewport_fl \<lparr>xMin = Num 1, xMax = Num (4503599627370497 / 4503599627370496), yMin = Num 0, yMax = Num 1\<rparr>
                   (Num 100) (Num 100) (Num 300) (Num 300) (Num 800) (Num 600)))
            (xMax (createZoomViewport_fl \<lparr>xMin = Num 1, xMax = Num (4503599627370497 / 4503599627370496), yMin = Num 0, yMax = Num 1\<rparr>
                   (Num 100) (Num 100) (Num 300) (Num 300) (Num 800) (Num 600)))
   \<and> \<not> le_d (xMax (createZoomViewport_fl getDefaultViewport (Num 100) (Num 100) (Num 800) (Num 600) (Num 800) (Num 600)))
            (xMax getDefaultViewport)"
  unfolding createZoomViewport_fl_examples
  using finite_viewport_default finite_viewport_deep by (simp add: getDefaultViewport_def)

text \<open>
  The selection of the module's tests, from \<open>(300, 300)\<close> back to \<open>(100, 100)\<close>.
\<close>

lemma createZoomViewport_fl_default:
  "createZoomViewport_fl getDefaultViewport (Num 300) (Num 300) (Num 100) (Num 100) (Num 800) (Num 600)
     = \<lparr>xMin = Num (- (33 / 16)), xMax = Num (- (5348024557502463 / 4503599627370496)),
        yMin = Num (- 1), yMax = Num 0\<rparr>"
  by (simp add: createZoomViewport_fl_def pixelToComplex_fl_def getDefaultViewport_def Let_def
      math_min_Num math_max_Num eval_steps)

lemma createZoomViewport_fl_default_finite:
  "finite_viewport (createZoomViewport_fl getDefaultViewport (Num 300) (Num 300) (Num 100) (Num 100) (Num 800) (Num 600))"
  unfolding createZoomViewport_fl_default
  by (simp add: finite_viewport_def finite_double_def representable_steps)

text \<open>
  On the default viewport the selection given from the bottom right to the top left is
  inside the viewport and strictly ordered, and it is the selection given the other way
  round.
\<close>

theorem createZoomViewport_inside_witness:
  "finite_viewport getDefaultViewport
   \<and> dval (xMin getDefaultViewport) < dval (xMax getDefaultViewport)
   \<and> dval (yMin getDefaultViewport) < dval (yMax getDefaultViewport)
   \<and> is_finite (Num 800) \<and> 0 < dval (Num 800) \<and> is_finite (Num 600) \<and> 0 < dval (Num 600)
   \<and> is_finite (Num 300) \<and> 0 \<le> dval (Num 300) \<and> is_finite (Num 100) \<and> 0 \<le> dval (Num 100)
   \<and> finite_viewport (createZoomViewport_fl getDefaultViewport (Num 300) (Num 300) (Num 100) (Num 100) (Num 800) (Num 600))
   \<and> dval (xMin getDefaultViewport)
       \<le> dval (xMin (createZoomViewport_fl getDefaultViewport (Num 300) (Num 300) (Num 100) (Num 100) (Num 800) (Num 600)))
   \<and> dval (xMin (createZoomViewport_fl getDefaultViewport (Num 300) (Num 300) (Num 100) (Num 100) (Num 800) (Num 600)))
       < dval (xMax (createZoomViewport_fl getDefaultViewport (Num 300) (Num 300) (Num 100) (Num 100) (Num 800) (Num 600)))
   \<and> dval (xMax (createZoomViewport_fl getDefaultViewport (Num 300) (Num 300) (Num 100) (Num 100) (Num 800) (Num 600)))
       \<le> dval (xMax getDefaultViewport)
   \<and> dval (yMin getDefaultViewport)
       \<le> dval (yMin (createZoomViewport_fl getDefaultViewport (Num 300) (Num 300) (Num 100) (Num 100) (Num 800) (Num 600)))
   \<and> dval (yMin (createZoomViewport_fl getDefaultViewport (Num 300) (Num 300) (Num 100) (Num 100) (Num 800) (Num 600)))
       < dval (yMax (createZoomViewport_fl getDefaultViewport (Num 300) (Num 300) (Num 100) (Num 100) (Num 800) (Num 600)))
   \<and> dval (yMax (createZoomViewport_fl getDefaultViewport (Num 300) (Num 300) (Num 100) (Num 100) (Num 800) (Num 600)))
       \<le> dval (yMax getDefaultViewport)
   \<and> createZoomViewport_fl getDefaultViewport (Num 100) (Num 100) (Num 300) (Num 300) (Num 800) (Num 600)
       = createZoomViewport_fl getDefaultViewport (Num 300) (Num 300) (Num 100) (Num 100) (Num 800) (Num 600)"
proof -
  have lt: "dval (xMin getDefaultViewport) < dval (xMax getDefaultViewport)"
    "dval (yMin getDefaultViewport) < dval (yMax getDefaultViewport)"
    by (simp_all add: getDefaultViewport_def)
  have size: "is_finite (Num 800)" "0 < dval (Num 800)" "is_finite (Num 600)" "0 < dval (Num 600)"
    by simp_all
  have c: "is_finite (Num 300)" "0 \<le> dval (Num 300)" "is_finite (Num 100)" "0 \<le> dval (Num 100)"
    by simp_all
  note inside = createZoomViewport_inside [OF finite_viewport_default lt size c c
      createZoomViewport_fl_default_finite, unfolded Let_def]
  have parts:
    "dval (fmul (math_min (Num 300) (Num 100)) (fdiv (fsub (xMax getDefaultViewport) (xMin getDefaultViewport)) (Num 800)))
       = 7881299347898369 / 18014398509481984"
    "dval (fmul (math_max (Num 300) (Num 100)) (fdiv (fsub (xMax getDefaultViewport) (xMin getDefaultViewport)) (Num 800)))
       = 5910974510923777 / 4503599627370496"
    "dval (fmul (math_min (Num 300) (Num 100)) (fdiv (fsub (yMax getDefaultViewport) (yMin getDefaultViewport)) (Num 600))) = 1 / 2"
    "dval (fmul (math_max (Num 300) (Num 100)) (fdiv (fsub (yMax getDefaultViewport) (yMin getDefaultViewport)) (Num 600))) = 3 / 2"
    "dval (fdiv (fsub (xMax getDefaultViewport) (xMin getDefaultViewport)) (Num 800)) = 1261007895663739 / 288230376151711744"
    "dval (fdiv (fsub (yMax getDefaultViewport) (yMin getDefaultViewport)) (Num 600)) = 5764607523034235 / 1152921504606846976"
    "dval (fsub (xMax getDefaultViewport) (xMin getDefaultViewport)) = 7 / 2"
    "dval (fsub (yMax getDefaultViewport) (yMin getDefaultViewport)) = 3"
    by (simp_all add: getDefaultViewport_def math_min_Num math_max_Num eval_steps)
  have lower: "dval (xMin getDefaultViewport) \<le> dval (xMin (createZoomViewport_fl getDefaultViewport (Num 300) (Num 300) (Num 100) (Num 100) (Num 800) (Num 600)))"
    "dval (yMin getDefaultViewport) \<le> dval (yMin (createZoomViewport_fl getDefaultViewport (Num 300) (Num 300) (Num 100) (Num 100) (Num 800) (Num 600)))"
    using inside [THEN conjunct2, THEN conjunct2, THEN conjunct2, THEN conjunct2, THEN conjunct1] inside [THEN conjunct2, THEN conjunct2, THEN conjunct2, THEN conjunct2, THEN conjunct2, THEN conjunct1] by (simp_all only:)
  have gx: "(\<bar>dval (xMin getDefaultViewport) + 7881299347898369 / 18014398509481984\<bar>
       + \<bar>dval (xMin getDefaultViewport) + 5910974510923777 / 4503599627370496\<bar>) / 2 ^ 53
       < 5910974510923777 / 4503599627370496 - 7881299347898369 / 18014398509481984"
    and gy: "(\<bar>dval (yMin getDefaultViewport) + 1 / 2\<bar> + \<bar>dval (yMin getDefaultViewport) + 3 / 2\<bar>) / 2 ^ 53
       < 3 / 2 - 1 / 2"
    by (simp_all add: getDefaultViewport_def)
  have strict: "dval (xMin (createZoomViewport_fl getDefaultViewport (Num 300) (Num 300) (Num 100) (Num 100) (Num 800) (Num 600)))
       < dval (xMax (createZoomViewport_fl getDefaultViewport (Num 300) (Num 300) (Num 100) (Num 100) (Num 800) (Num 600)))"
    "dval (yMin (createZoomViewport_fl getDefaultViewport (Num 300) (Num 300) (Num 100) (Num 100) (Num 800) (Num 600)))
       < dval (yMax (createZoomViewport_fl getDefaultViewport (Num 300) (Num 300) (Num 100) (Num 100) (Num 800) (Num 600)))"
    using inside [unfolded parts, THEN conjunct2, THEN conjunct2, THEN conjunct2, THEN conjunct2, THEN conjunct2, THEN conjunct2, THEN conjunct2, THEN conjunct2, THEN conjunct1, THEN mp, OF gx] inside [unfolded parts, THEN conjunct2, THEN conjunct2, THEN conjunct2, THEN conjunct2, THEN conjunct2, THEN conjunct2, THEN conjunct2, THEN conjunct2, THEN conjunct2, THEN conjunct1, THEN mp, OF gy]
    by (simp_all only:)
  have nx: "normal (7 / 2 / dval (Num 800))
       \<and> normal (max (dval (Num 300)) (dval (Num 100)) * (1261007895663739 / 288230376151711744))
       \<and> max (dval (Num 300)) (dval (Num 100)) * (1 + 1 / 2 ^ 53) ^ 3 \<le> dval (Num 800)"
    and ny: "normal (3 / dval (Num 600))
       \<and> normal (max (dval (Num 300)) (dval (Num 100)) * (5764607523034235 / 1152921504606846976))
       \<and> max (dval (Num 300)) (dval (Num 100)) * (1 + 1 / 2 ^ 53) ^ 3 \<le> dval (Num 600)"
    by (simp_all add: normal_def powr_minus power_divide)
  have upper: "dval (xMax (createZoomViewport_fl getDefaultViewport (Num 300) (Num 300) (Num 100) (Num 100) (Num 800) (Num 600)))
       \<le> dval (xMax getDefaultViewport)"
    "dval (yMax (createZoomViewport_fl getDefaultViewport (Num 300) (Num 300) (Num 100) (Num 100) (Num 800) (Num 600)))
       \<le> dval (yMax getDefaultViewport)"
    using inside [unfolded parts, THEN conjunct2, THEN conjunct2, THEN conjunct2, THEN conjunct2, THEN conjunct2, THEN conjunct2, THEN conjunct2, THEN conjunct2, THEN conjunct2, THEN conjunct2, THEN conjunct1, THEN mp, OF nx] inside [unfolded parts, THEN conjunct2, THEN conjunct2, THEN conjunct2, THEN conjunct2, THEN conjunct2, THEN conjunct2, THEN conjunct2, THEN conjunct2, THEN conjunct2, THEN conjunct2, THEN conjunct2, THEN conjunct1, THEN mp, OF ny]
    by (simp_all only:)
  have sym: "createZoomViewport_fl getDefaultViewport (Num 100) (Num 100) (Num 300) (Num 300) (Num 800) (Num 600)
       = createZoomViewport_fl getDefaultViewport (Num 300) (Num 300) (Num 100) (Num 100) (Num 800) (Num 600)"
    using inside [THEN conjunct2, THEN conjunct2, THEN conjunct2, THEN conjunct2, THEN conjunct2, THEN conjunct2, THEN conjunct2, THEN conjunct2, THEN conjunct2, THEN conjunct2, THEN conjunct2, THEN conjunct2] by (simp only:)
  from finite_viewport_default lt size c createZoomViewport_fl_default_finite lower strict upper sym
  show ?thesis by (simp only: simp_thms)
qed

section \<open>The frame renderer\<close>

text \<open>One round of each loop, and the end of each loop.\<close>

lemma render_px_fl_step:
  assumes "px < w" "pixel_color_fl msin w h vp opts px py = Some col"
  shows "render_px_fl msin w h vp opts py px buf
       = render_px_fl msin w h vp opts py (Suc px) (put_pixel buf ((py * w + px) * 4) col)"
  using assms
  by (subst render_px_fl.simps) (simp add: Let_def put_pixel_def pixel_color_fl_def split: option.splits)

lemma render_px_fl_fail:
  assumes "px < w" "pixel_color_fl msin w h vp opts px py = None"
  shows "render_px_fl msin w h vp opts py px buf = None"
  using assms
  by (subst render_px_fl.simps) (simp add: Let_def pixel_color_fl_def split: option.splits)

lemma render_px_fl_stop: "\<not> px < w \<Longrightarrow> render_px_fl msin w h vp opts py px buf = Some buf"
  by (subst render_px_fl.simps) simp

lemma render_px_fl_Some:
  assumes "px < w" "render_px_fl msin w h vp opts py px buf = Some out"
  obtains col where "pixel_color_fl msin w h vp opts px py = Some col"
    "render_px_fl msin w h vp opts py (Suc px) (put_pixel buf ((py * w + px) * 4) col) = Some out"
proof (cases "pixel_color_fl msin w h vp opts px py")
  case None
  then show ?thesis using assms render_px_fl_fail [OF assms(1) None, of buf] by simp
next
  case (Some col)
  then show ?thesis using assms render_px_fl_step [OF assms(1) Some, of buf] that by simp
qed

lemma render_py_fl_step:
  assumes "py < h" "render_px_fl msin w h vp opts py 0 buf = Some mid"
  shows "render_py_fl msin w h vp opts py buf = render_py_fl msin w h vp opts (Suc py) mid"
  using assms by (subst render_py_fl.simps) simp

lemma render_py_fl_fail:
  assumes "py < h" "render_px_fl msin w h vp opts py 0 buf = None"
  shows "render_py_fl msin w h vp opts py buf = None"
  using assms by (subst render_py_fl.simps) simp

lemma render_py_fl_stop: "\<not> py < h \<Longrightarrow> render_py_fl msin w h vp opts py buf = Some buf"
  by (subst render_py_fl.simps) simp

lemma render_py_fl_Some:
  assumes "py < h" "render_py_fl msin w h vp opts py buf = Some out"
  obtains mid where "render_px_fl msin w h vp opts py 0 buf = Some mid"
    "render_py_fl msin w h vp opts (Suc py) mid = Some out"
proof (cases "render_px_fl msin w h vp opts py 0 buf")
  case None
  then show ?thesis using assms render_py_fl_fail [OF assms(1) None] by simp
next
  case (Some mid)
  then show ?thesis using assms render_py_fl_step [OF assms(1) Some] that by simp
qed

text \<open>The four stores of one pixel.\<close>

lemma put_pixel_length: "length (put_pixel buf index color) = length buf"
  by (simp add: put_pixel_def)

lemma put_pixel_other: "i < index \<or> index + 4 \<le> i \<Longrightarrow> put_pixel buf index color ! i = buf ! i"
  by (auto simp: put_pixel_def)

lemma put_pixel_at:
  assumes "index + 4 \<le> length buf"
  shows "put_pixel buf index color ! index = to_uint8_clamped (r_fl color)"
    and "put_pixel buf index color ! (index + 1) = to_uint8_clamped (g_fl color)"
    and "put_pixel buf index color ! (index + 2) = to_uint8_clamped (b_fl color)"
    and "put_pixel buf index color ! (index + 3) = 255"
  using assms by (simp_all add: put_pixel_def)

text \<open>
  The inner loop returns when every pixel of the rest of its row has a colour. It keeps
  the length of the buffer, leaves every byte outside the rest of its row alone, and
  leaves the colour and an opaque alpha at every pixel of that rest.
\<close>

lemma render_px_fl_returns:
  assumes "\<And>qx. px \<le> qx \<Longrightarrow> qx < w \<Longrightarrow> pixel_color_fl msin w h vp opts qx py \<noteq> None"
  shows "\<exists>out. render_px_fl msin w h vp opts py px buf = Some out"
  using assms
proof (induction "w - px" arbitrary: px buf)
  case 0
  then show ?case by (simp add: render_px_fl_stop)
next
  case (Suc n)
  then have lt: "px < w" and n: "n = w - Suc px" by simp_all
  from Suc.prems [of px] lt obtain col where col: "pixel_color_fl msin w h vp opts px py = Some col"
    by auto
  have "\<exists>out. render_px_fl msin w h vp opts py (Suc px) (put_pixel buf ((py * w + px) * 4) col) = Some out"
    using n Suc.prems by (intro Suc.hyps(1)) simp_all
  then show ?case by (simp only: render_px_fl_step [OF lt col])
qed

lemma render_px_fl_length:
  "render_px_fl msin w h vp opts py px buf = Some out \<Longrightarrow> length out = length buf"
proof (induction "w - px" arbitrary: px buf)
  case 0
  then show ?case by (simp add: render_px_fl_stop)
next
  case (Suc n)
  then have lt: "px < w" and n: "n = w - Suc px" by simp_all
  from lt Suc.prems obtain col where
    "render_px_fl msin w h vp opts py (Suc px) (put_pixel buf ((py * w + px) * 4) col) = Some out"
    by (rule render_px_fl_Some)
  from Suc.hyps(1) [OF n this] show ?case by (simp add: put_pixel_length)
qed

lemma render_px_fl_other:
  "render_px_fl msin w h vp opts py px buf = Some out \<Longrightarrow>
   i < (py * w + px) * 4 \<or> (py * w + w) * 4 \<le> i \<Longrightarrow> out ! i = buf ! i"
proof (induction "w - px" arbitrary: px buf)
  case 0
  then show ?case by (simp add: render_px_fl_stop)
next
  case (Suc n)
  then have lt: "px < w" and n: "n = w - Suc px" by simp_all
  from Suc.prems(2) lt have i1: "i < (py * w + Suc px) * 4 \<or> (py * w + w) * 4 \<le> i" by auto
  from Suc.prems(2) lt have i2: "i < (py * w + px) * 4 \<or> (py * w + px) * 4 + 4 \<le> i" by auto
  from lt Suc.prems(1) obtain col where
    "render_px_fl msin w h vp opts py (Suc px) (put_pixel buf ((py * w + px) * 4) col) = Some out"
    by (rule render_px_fl_Some)
  from Suc.hyps(1) [OF n this i1] have "out ! i = put_pixel buf ((py * w + px) * 4) col ! i" .
  also have "\<dots> = buf ! i" by (rule put_pixel_other [OF i2])
  finally show ?case .
qed

lemma render_px_fl_written:
  assumes "render_px_fl msin w h vp opts py px buf = Some out"
    and "px \<le> qx" "qx < w" "(py * w + w) * 4 \<le> length buf"
  shows "\<exists>col. pixel_color_fl msin w h vp opts qx py = Some col
       \<and> out ! ((py * w + qx) * 4) = to_uint8_clamped (r_fl col)
       \<and> out ! ((py * w + qx) * 4 + 1) = to_uint8_clamped (g_fl col)
       \<and> out ! ((py * w + qx) * 4 + 2) = to_uint8_clamped (b_fl col)
       \<and> out ! ((py * w + qx) * 4 + 3) = 255"
  using assms
proof (induction "w - px" arbitrary: px buf)
  case 0
  then show ?case by simp
next
  case (Suc n)
  then have lt: "px < w" and n: "n = w - Suc px" by simp_all
  from lt Suc.prems(1) obtain col where col: "pixel_color_fl msin w h vp opts px py = Some col"
    and rest: "render_px_fl msin w h vp opts py (Suc px) (put_pixel buf ((py * w + px) * 4) col) = Some out"
    by (rule render_px_fl_Some)
  let ?buf = "put_pixel buf ((py * w + px) * 4) col"
  have len: "(py * w + w) * 4 \<le> length ?buf" using Suc.prems(4) by (simp add: put_pixel_length)
  show ?case
  proof (cases "qx = px")
    case True
    have fits: "(py * w + px) * 4 + 4 \<le> length buf" using Suc.prems(4) lt by simp
    have "\<And>k. k < 4 \<Longrightarrow> out ! ((py * w + px) * 4 + k) = ?buf ! ((py * w + px) * 4 + k)"
      by (rule render_px_fl_other [OF rest]) simp
    from this [of 0] this [of 1] this [of 2] this [of 3] show ?thesis
      using put_pixel_at [OF fits, of col] col by (simp add: True)
  next
    case False
    then have "Suc px \<le> qx" using Suc.prems(2) by simp
    from Suc.hyps(1) [OF n rest this Suc.prems(3) len] show ?thesis .
  qed
qed

text \<open>The same four facts for the outer loop, over the rows from \<open>py\<close> on.\<close>

lemma render_py_fl_returns:
  assumes "\<And>qx qy. qx < w \<Longrightarrow> qy < h \<Longrightarrow> pixel_color_fl msin w h vp opts qx qy \<noteq> None"
  shows "\<exists>out. render_py_fl msin w h vp opts py buf = Some out"
proof (induction "h - py" arbitrary: py buf)
  case 0
  then show ?case by (simp add: render_py_fl_stop)
next
  case (Suc n)
  then have lt: "py < h" and n: "n = h - Suc py" by simp_all
  have "\<exists>mid. render_px_fl msin w h vp opts py 0 buf = Some mid"
    using assms lt by (intro render_px_fl_returns) simp
  then obtain mid where mid: "render_px_fl msin w h vp opts py 0 buf = Some mid" by blast
  show ?case
    using Suc.hyps(1) [OF n, of mid] by (simp only: render_py_fl_step [OF lt mid])
qed

lemma render_py_fl_length:
  "render_py_fl msin w h vp opts py buf = Some out \<Longrightarrow> length out = length buf"
proof (induction "h - py" arbitrary: py buf)
  case 0
  then show ?case by (simp add: render_py_fl_stop)
next
  case (Suc n)
  then have lt: "py < h" and n: "n = h - Suc py" by simp_all
  from lt Suc.prems obtain mid where mid: "render_px_fl msin w h vp opts py 0 buf = Some mid"
    and rest: "render_py_fl msin w h vp opts (Suc py) mid = Some out"
    by (rule render_py_fl_Some)
  from Suc.hyps(1) [OF n rest] render_px_fl_length [OF mid] show ?case by simp
qed

lemma render_py_fl_other:
  "render_py_fl msin w h vp opts py buf = Some out \<Longrightarrow> i < py * w * 4 \<Longrightarrow> out ! i = buf ! i"
proof (induction "h - py" arbitrary: py buf)
  case 0
  then show ?case by (simp add: render_py_fl_stop)
next
  case (Suc n)
  then have lt: "py < h" and n: "n = h - Suc py" by simp_all
  from Suc.prems(2) have i1: "i < Suc py * w * 4" by simp
  from Suc.prems(2) have i2: "i < (py * w + 0) * 4 \<or> (py * w + w) * 4 \<le> i" by simp
  from lt Suc.prems(1) obtain mid where mid: "render_px_fl msin w h vp opts py 0 buf = Some mid"
    and rest: "render_py_fl msin w h vp opts (Suc py) mid = Some out"
    by (rule render_py_fl_Some)
  from Suc.hyps(1) [OF n rest i1] render_px_fl_other [OF mid i2] show ?case by simp
qed

lemma render_py_fl_written:
  assumes "render_py_fl msin w h vp opts py buf = Some out"
    and "py \<le> qy" "qy < h" "qx < w" "h * w * 4 \<le> length buf"
  shows "\<exists>col. pixel_color_fl msin w h vp opts qx qy = Some col
       \<and> out ! ((qy * w + qx) * 4) = to_uint8_clamped (r_fl col)
       \<and> out ! ((qy * w + qx) * 4 + 1) = to_uint8_clamped (g_fl col)
       \<and> out ! ((qy * w + qx) * 4 + 2) = to_uint8_clamped (b_fl col)
       \<and> out ! ((qy * w + qx) * 4 + 3) = 255"
  using assms
proof (induction "h - py" arbitrary: py buf)
  case 0
  then show ?case by simp
next
  case (Suc n)
  then have lt: "py < h" and n: "n = h - Suc py" by simp_all
  from lt Suc.prems(1) obtain mid where mid: "render_px_fl msin w h vp opts py 0 buf = Some mid"
    and rest: "render_py_fl msin w h vp opts (Suc py) mid = Some out"
    by (rule render_py_fl_Some)
  have len: "h * w * 4 \<le> length mid" using Suc.prems(5) render_px_fl_length [OF mid] by simp
  show ?case
  proof (cases "qy = py")
    case True
    have "Suc py * w \<le> h * w" using lt by (intro mult_le_mono1) simp
    then have fits: "(py * w + w) * 4 \<le> length buf" using Suc.prems(5) by simp
    have "\<And>k. k < 4 \<Longrightarrow> out ! ((py * w + qx) * 4 + k) = mid ! ((py * w + qx) * 4 + k)"
      using \<open>qx < w\<close> by (intro render_py_fl_other [OF rest]) simp
    from this [of 0] this [of 1] this [of 2] this [of 3] show ?thesis
      using render_px_fl_written [OF mid _ \<open>qx < w\<close> fits] by (simp add: True)
  next
    case False
    then have "Suc py \<le> qy" using Suc.prems(2) by simp
    from Suc.hyps(1) [OF n rest this Suc.prems(3) Suc.prems(4) len] show ?thesis .
  qed
qed

text \<open>Every index \<open>i\<close> of an alpha byte is the fourth byte of the pixel \<open>i div 4\<close>.\<close>

lemma alpha_index:
  fixes i w h :: nat
  assumes "i < w * h * 4" "i mod 4 = 3"
  shows "i div 4 div w < h \<and> i div 4 mod w < w \<and> i = (i div 4 div w * w + i div 4 mod w) * 4 + 3"
proof -
  have q: "i div 4 < w * h" using assms(1) by (simp add: less_mult_imp_div_less)
  then have "0 < w" by (cases w) simp_all
  moreover have "i div 4 div w < h" using q by (simp add: less_mult_imp_div_less mult.commute)
  moreover have "i = i div 4 * 4 + 3" using assms(2) div_mult_mod_eq [of i 4] by simp
  ultimately show ?thesis by simp
qed

text \<open>With a limit of at most \<open>2^53\<close> every pixel has a colour.\<close>

lemma pixel_color_fl_returns:
  assumes "maxIterations opts = Num m" "m \<le> 2 ^ 53"
  shows "\<exists>j. calculateMandelbrot_fl
           (real_part (pixelToComplex_fl (Num (real px)) (Num (real py)) (Num (real w)) (Num (real h)) vp))
           (imaginary_part (pixelToComplex_fl (Num (real px)) (Num (real py)) (Num (real w)) (Num (real h)) vp))
           (maxIterations opts) = Some (Num (real j))
         \<and> (real j < m + 1 \<or> j = 0)
         \<and> pixel_color_fl msin w h vp opts px py
             = Some (getColor_fl msin (Num (real j)) (maxIterations opts) (colorScheme opts))"
proof -
  obtain j where j: "mandelbrot_loop_fl
           (real_part (pixelToComplex_fl (Num (real px)) (Num (real py)) (Num (real w)) (Num (real h)) vp))
           (imaginary_part (pixelToComplex_fl (Num (real px)) (Num (real py)) (Num (real w)) (Num (real h)) vp))
           (Num m) (Num 0) (Num 0) (Num (real 0)) = Some (Num (real j))" "real j < m + 1 \<or> j = 0"
    using mandelbrot_loop_fl_returns [OF assms(2), of _ _ "Num 0" "Num 0" 0] by blast
  then show ?thesis
    by (intro exI [of _ j]) (simp add: pixel_color_fl_def calculateMandelbrot_fl_def assms(1) Let_def)
qed

text \<open>
  C8, amended: for every positive width and height with \<open>width * height * 4 \<le> 2^53\<close>,
  every viewport and every render options whose \<open>maxIterations\<close> is a finite number of at
  most \<open>2^53\<close>, \<open>renderMandelbrot\<close> returns an image of the given width and height whose
  buffer has exactly \<open>width * height * 4\<close> bytes; every fourth byte (the alpha channel, at
  offset \<open>(py * width + px) * 4 + 3\<close>) is \<open>255\<close>; and for each pixel \<open>(px, py)\<close> the escape
  count of \<open>pixelToComplex(px, py)\<close> is computed, and the R, G, B bytes are the channels
  of \<open>getColor\<close> at that count as the clamped array stores them. They are the channels
  themselves when \<open>maxIterations\<close> is an integer of at least one and the sine is a number
  at every finite argument.
\<close>

theorem renderMandelbrot_buffer:
  assumes "0 < width" "0 < height" "width * height * 4 \<le> 2 ^ 53"
    and "maxIterations options = Num m" "m \<le> 2 ^ 53"
  shows "\<exists>image. renderMandelbrot_fl msin width height viewport options = Some image
     \<and> img_width image = width \<and> img_height image = height
     \<and> length (img_data image) = width * height * 4
     \<and> (\<forall>i < width * height * 4. i mod 4 = 3 \<longrightarrow> img_data image ! i = 255)
     \<and> (\<forall>py < height. \<forall>px < width.
          \<exists>iteration.
            calculateMandelbrot_fl
              (real_part (pixelToComplex_fl (Num (real px)) (Num (real py)) (Num (real width)) (Num (real height)) viewport))
              (imaginary_part (pixelToComplex_fl (Num (real px)) (Num (real py)) (Num (real width)) (Num (real height)) viewport))
              (maxIterations options) = Some iteration
          \<and> (let color = getColor_fl msin iteration (maxIterations options) (colorScheme options);
                  index = (py * width + px) * 4;
                  buf = img_data image
              in buf ! index = to_uint8_clamped (r_fl color)
               \<and> buf ! (index + 1) = to_uint8_clamped (g_fl color)
               \<and> buf ! (index + 2) = to_uint8_clamped (b_fl color)
               \<and> buf ! (index + 3) = 255
               \<and> ((\<exists>n. 1 \<le> n \<and> m = real n) \<and> (\<forall>d. is_finite d \<longrightarrow> msin d \<noteq> NaN) \<longrightarrow>
                    r_fl color = Num (real (unat (buf ! index)))
                  \<and> g_fl color = Num (real (unat (buf ! (index + 1))))
                  \<and> b_fl color = Num (real (unat (buf ! (index + 2)))))))"
proof -
  note col = pixel_color_fl_returns [OF assms(4,5), of _ _ width height viewport msin]
  have "pixel_color_fl msin width height viewport options qx qy \<noteq> None" for qx qy
    using col [of qx qy] by auto
  then have "\<exists>out. render_py_fl msin width height viewport options 0 (replicate (width * height * 4) 0) = Some out"
    by (intro render_py_fl_returns)
  then obtain out where
    out: "render_py_fl msin width height viewport options 0 (replicate (width * height * 4) 0) = Some out"
    by blast
  define image where "image = new_ImageData width height\<lparr>img_data := out\<rparr>"
  have image: "renderMandelbrot_fl msin width height viewport options = Some image"
    by (simp add: renderMandelbrot_fl_def new_ImageData_def image_def out)
  have dims: "img_width image = width" "img_height image = height" and buf: "img_data image = out"
    by (simp_all add: image_def new_ImageData_def)
  have len: "length out = width * height * 4"
    using render_py_fl_length [OF out] by simp
  have px: "\<exists>j. calculateMandelbrot_fl
              (real_part (pixelToComplex_fl (Num (real px)) (Num (real py)) (Num (real width)) (Num (real height)) viewport))
              (imaginary_part (pixelToComplex_fl (Num (real px)) (Num (real py)) (Num (real width)) (Num (real height)) viewport))
              (maxIterations options) = Some (Num (real j))
          \<and> (real j < m + 1 \<or> j = 0)
          \<and> out ! ((py * width + px) * 4)
              = to_uint8_clamped (r_fl (getColor_fl msin (Num (real j)) (maxIterations options) (colorScheme options)))
          \<and> out ! ((py * width + px) * 4 + 1)
              = to_uint8_clamped (g_fl (getColor_fl msin (Num (real j)) (maxIterations options) (colorScheme options)))
          \<and> out ! ((py * width + px) * 4 + 2)
              = to_uint8_clamped (b_fl (getColor_fl msin (Num (real j)) (maxIterations options) (colorScheme options)))
          \<and> out ! ((py * width + px) * 4 + 3) = 255"
    if "py < height" "px < width" for px py
  proof -
    have "height * width * 4 \<le> length (replicate (width * height * 4) (0 :: 8 word))"
      by (simp add: mult.commute)
    from render_py_fl_written [OF out _ that this]
    obtain c where c: "pixel_color_fl msin width height viewport options px py = Some c"
      "out ! ((py * width + px) * 4) = to_uint8_clamped (r_fl c)"
      "out ! ((py * width + px) * 4 + 1) = to_uint8_clamped (g_fl c)"
      "out ! ((py * width + px) * 4 + 2) = to_uint8_clamped (b_fl c)"
      "out ! ((py * width + px) * 4 + 3) = 255"
      by auto
    from col [of px py] c(1) obtain j where "calculateMandelbrot_fl
              (real_part (pixelToComplex_fl (Num (real px)) (Num (real py)) (Num (real width)) (Num (real height)) viewport))
              (imaginary_part (pixelToComplex_fl (Num (real px)) (Num (real py)) (Num (real width)) (Num (real height)) viewport))
              (maxIterations options) = Some (Num (real j))"
        "real j < m + 1 \<or> j = 0"
        "c = getColor_fl msin (Num (real j)) (maxIterations options) (colorScheme options)"
      by auto
    with c(2-5) show ?thesis by blast
  qed
  have alpha: "out ! i = 255" if "i < width * height * 4" "i mod 4 = 3" for i
  proof -
    from alpha_index [OF that]
    have "i div 4 div width < height" "i div 4 mod width < width"
      and i: "i = (i div 4 div width * width + i div 4 mod width) * 4 + 3" by simp_all
    from px [OF this(1,2)] have "out ! ((i div 4 div width * width + i div 4 mod width) * 4 + 3) = 255"
      by blast
    with i show ?thesis by simp
  qed
  have rgb: "r_fl (getColor_fl msin (Num (real j)) (maxIterations options) (colorScheme options))
        = Num (real (unat (to_uint8_clamped (r_fl (getColor_fl msin (Num (real j)) (maxIterations options) (colorScheme options))))))
      \<and> g_fl (getColor_fl msin (Num (real j)) (maxIterations options) (colorScheme options))
        = Num (real (unat (to_uint8_clamped (g_fl (getColor_fl msin (Num (real j)) (maxIterations options) (colorScheme options))))))
      \<and> b_fl (getColor_fl msin (Num (real j)) (maxIterations options) (colorScheme options))
        = Num (real (unat (to_uint8_clamped (b_fl (getColor_fl msin (Num (real j)) (maxIterations options) (colorScheme options))))))"
    if j: "real j < m + 1 \<or> j = 0" and n: "1 \<le> n" "m = real n"
      and s: "\<forall>d. is_finite d \<longrightarrow> msin d \<noteq> NaN" for j n
  proof -
    have "j \<le> n" using j n by auto
    moreover have "msin d \<noteq> NaN" if "is_finite d" for d using that s by simp
    ultimately obtain kr kg kb where k: "kr \<le> 255" "kg \<le> 255" "kb \<le> 255"
      "getColor_fl msin (Num (real j)) (Num (real n)) (colorScheme options)
         = \<lparr>r_fl = Num (real kr), g_fl = Num (real kg), b_fl = Num (real kb)\<rparr>"
      using getColor_fl_channels [OF _ n(1), of j msin "colorScheme options"] by blast
    show ?thesis
      unfolding assms(4) n(2) k(4) using k(1,2,3) by (simp add: to_uint8_clamped_unat)
  qed
  have pixels: "\<exists>iteration.
            calculateMandelbrot_fl
              (real_part (pixelToComplex_fl (Num (real px)) (Num (real py)) (Num (real width)) (Num (real height)) viewport))
              (imaginary_part (pixelToComplex_fl (Num (real px)) (Num (real py)) (Num (real width)) (Num (real height)) viewport))
              (maxIterations options) = Some iteration
          \<and> (let color = getColor_fl msin iteration (maxIterations options) (colorScheme options);
                  index = (py * width + px) * 4;
                  buf = img_data image
              in buf ! index = to_uint8_clamped (r_fl color)
               \<and> buf ! (index + 1) = to_uint8_clamped (g_fl color)
               \<and> buf ! (index + 2) = to_uint8_clamped (b_fl color)
               \<and> buf ! (index + 3) = 255
               \<and> ((\<exists>n. 1 \<le> n \<and> m = real n) \<and> (\<forall>d. is_finite d \<longrightarrow> msin d \<noteq> NaN) \<longrightarrow>
                    r_fl color = Num (real (unat (buf ! index)))
                  \<and> g_fl color = Num (real (unat (buf ! (index + 1))))
                  \<and> b_fl color = Num (real (unat (buf ! (index + 2))))))"
    if "py < height" "px < width" for px py
  proof -
    from px [OF that] obtain j where j: "calculateMandelbrot_fl
              (real_part (pixelToComplex_fl (Num (real px)) (Num (real py)) (Num (real width)) (Num (real height)) viewport))
              (imaginary_part (pixelToComplex_fl (Num (real px)) (Num (real py)) (Num (real width)) (Num (real height)) viewport))
              (maxIterations options) = Some (Num (real j))"
        "real j < m + 1 \<or> j = 0"
        "out ! ((py * width + px) * 4)
              = to_uint8_clamped (r_fl (getColor_fl msin (Num (real j)) (maxIterations options) (colorScheme options)))"
        "out ! ((py * width + px) * 4 + 1)
              = to_uint8_clamped (g_fl (getColor_fl msin (Num (real j)) (maxIterations options) (colorScheme options)))"
        "out ! ((py * width + px) * 4 + 2)
              = to_uint8_clamped (b_fl (getColor_fl msin (Num (real j)) (maxIterations options) (colorScheme options)))"
        "out ! ((py * width + px) * 4 + 3) = 255"
      by blast
    show ?thesis
      unfolding Let_def buf
      using j(1) j(3-6) rgb [OF j(2)] by (intro exI [of _ "Num (real j)"]) auto
  qed
  show ?thesis
    using image dims len alpha pixels unfolding buf [symmetric] by (intro exI [of _ image]) simp
qed

text \<open>
  Runs of the evaluator, the colour mapper and the coordinate mapper for the frames
  below: a frame of two pixels on the default viewport, and a frame of one pixel at the
  origin of the plane.
\<close>

lemma calculateMandelbrot_fl_examples:
  "calculateMandelbrot_fl (Num (- (5 / 2))) (Num (- (3 / 2))) (Num 2) = Some (Num 1)"
  "calculateMandelbrot_fl (Num (- (3 / 4))) (Num (- (3 / 2))) (Num 2) = Some (Num 2)"
  "calculateMandelbrot_fl (Num 0) (Num 0) (Num (5 / 2)) = Some (Num 3)"
  unfolding calculateMandelbrot_fl_def
  by ((subst mandelbrot_loop_fl.simps, simp add: eval_steps)+)

lemma getColor_fl_examples:
  "getColor_fl msin (Num 1) (Num 2) ''grayscale'' = \<lparr>r_fl = Num 127, g_fl = Num 127, b_fl = Num 127\<rparr>"
  "getColor_fl msin (Num 2) (Num 2) ''grayscale'' = \<lparr>r_fl = Num 0, g_fl = Num 0, b_fl = Num 0\<rparr>"
  "getColor_fl msin (Num 3) (Num (5 / 2)) ''grayscale''
     = \<lparr>r_fl = Num (- 51), g_fl = Num (- 51), b_fl = Num (- 51)\<rparr>"
  by (simp_all add: getColor_fl_def Let_def eval_steps)

lemma pixelToComplex_fl_examples:
  "pixelToComplex_fl (Num 0) (Num 0) (Num 2) (Num 1) getDefaultViewport
     = \<lparr>real_part = Num (- (5 / 2)), imaginary_part = Num (- (3 / 2))\<rparr>"
  "pixelToComplex_fl (Num 1) (Num 0) (Num 2) (Num 1) getDefaultViewport
     = \<lparr>real_part = Num (- (3 / 4)), imaginary_part = Num (- (3 / 2))\<rparr>"
  "pixelToComplex_fl (Num 0) (Num 0) (Num 1) (Num 1) \<lparr>xMin = Num 0, xMax = Num 1, yMin = Num 0, yMax = Num 1\<rparr>
     = \<lparr>real_part = Num 0, imaginary_part = Num 0\<rparr>"
  by (simp_all add: pixelToComplex_fl_def getDefaultViewport_def Let_def eval_steps)

text \<open>
  The frame of one pixel at the origin: with the limit \<open>2^53 + 2\<close> the rendering does not
  return, and with the limit \<open>2.5\<close> the pixel is black.
\<close>

lemma renderMandelbrot_fl_diverges:
  "renderMandelbrot_fl msin 1 1 \<lparr>xMin = Num 0, xMax = Num 1, yMin = Num 0, yMax = Num 1\<rparr>
     \<lparr>maxIterations = Num 9007199254740994, colorScheme = ''grayscale''\<rparr> = None"
proof -
  have "calculateMandelbrot_fl (Num 0) (Num 0) (Num 9007199254740994) = None"
    by (rule calculateMandelbrot_fl_origin_diverges) simp
  then show ?thesis
    unfolding renderMandelbrot_fl_def new_ImageData_def
    apply (simp add: Let_def)
    apply (subst render_py_fl.simps, simp)
    apply (subst render_px_fl.simps, simp add: pixelToComplex_fl_examples Let_def)
    done
qed

lemma renderMandelbrot_fl_fraction:
  "map_option img_data (renderMandelbrot_fl msin 1 1 \<lparr>xMin = Num 0, xMax = Num 1, yMin = Num 0, yMax = Num 1\<rparr>
     \<lparr>maxIterations = Num (5 / 2), colorScheme = ''grayscale''\<rparr>) = Some [0, 0, 0, 255]"
proof -
  have "replicate 4 (0 :: 8 word) = [0, 0, 0, 0]" by (simp add: numeral_eq_Suc)
  then show ?thesis
    unfolding renderMandelbrot_fl_def new_ImageData_def
    apply (simp add: Let_def)
    apply (subst render_py_fl.simps, simp)
    apply (subst render_px_fl.simps, simp add: pixelToComplex_fl_examples Let_def
        calculateMandelbrot_fl_examples getColor_fl_examples to_uint8_clamped_def)
    apply (subst render_px_fl.simps, simp)
    apply (subst render_py_fl.simps, simp)
    done
qed

text \<open>
  C8, as stated: for every positive width and height, every viewport and every render
  options, \<open>renderMandelbrot\<close> produces a buffer whose colour bytes are \<open>getColor\<close> of the
  escape count of each pixel. With \<open>maxIterations = 2^53 + 2\<close> and a pixel at the origin of
  the plane the escape-time loop never returns, and neither does the rendering. With
  \<open>maxIterations = 2.5\<close> the same pixel has the escape count \<open>3\<close>, for which \<open>getColor\<close>
  gives the channels \<open>-51\<close>, and the bytes are \<open>0\<close>.
\<close>

theorem renderMandelbrot_buffer_counterexample:
  "renderMandelbrot_fl math_sin 1 1 \<lparr>xMin = Num 0, xMax = Num 1, yMin = Num 0, yMax = Num 1\<rparr>
     \<lparr>maxIterations = Num 9007199254740994, colorScheme = ''grayscale''\<rparr> = None
   \<and> calculateMandelbrot_fl
       (real_part (pixelToComplex_fl (Num 0) (Num 0) (Num 1) (Num 1)
          \<lparr>xMin = Num 0, xMax = Num 1, yMin = Num 0, yMax = Num 1\<rparr>))
       (imaginary_part (pixelToComplex_fl (Num 0) (Num 0) (Num 1) (Num 1)
          \<lparr>xMin = Num 0, xMax = Num 1, yMin = Num 0, yMax = Num 1\<rparr>))
       (Num (5 / 2)) = Some (Num 3)
   \<and> getColor_fl math_sin (Num 3) (Num (5 / 2)) ''grayscale''
       = \<lparr>r_fl = Num (- 51), g_fl = Num (- 51), b_fl = Num (- 51)\<rparr>
   \<and> map_option img_data (renderMandelbrot_fl math_sin 1 1 \<lparr>xMin = Num 0, xMax = Num 1, yMin = Num 0, yMax = Num 1\<rparr>
       \<lparr>maxIterations = Num (5 / 2), colorScheme = ''grayscale''\<rparr>) = Some [0, 0, 0, 255]"
proof -
  have "calculateMandelbrot_fl
       (real_part (pixelToComplex_fl (Num 0) (Num 0) (Num 1) (Num 1)
          \<lparr>xMin = Num 0, xMax = Num 1, yMin = Num 0, yMax = Num 1\<rparr>))
       (imaginary_part (pixelToComplex_fl (Num 0) (Num 0) (Num 1) (Num 1)
          \<lparr>xMin = Num 0, xMax = Num 1, yMin = Num 0, yMax = Num 1\<rparr>))
       (Num (5 / 2)) = Some (Num 3)"
    by (simp add: pixelToComplex_fl_examples calculateMandelbrot_fl_examples)
  with renderMandelbrot_fl_diverges [of math_sin] getColor_fl_examples(3) [of math_sin]
    renderMandelbrot_fl_fraction [of math_sin]
  show ?thesis by (simp only: simp_thms)
qed

text \<open>
  A frame of two pixels: the first escapes after one round, the second reaches the limit
  of two rounds and is black.
\<close>

theorem renderMandelbrot_buffer_witness:
  "(0::nat) < 2 \<and> (0::nat) < 1 \<and> (2::nat) * 1 * 4 \<le> 2 ^ 53
   \<and> maxIterations \<lparr>maxIterations = Num 2, colorScheme = ''grayscale''\<rparr> = Num 2 \<and> (2::real) \<le> 2 ^ 53
   \<and> (1::nat) \<le> 2 \<and> (2::real) = real (2::nat)
   \<and> renderMandelbrot_fl math_sin 2 1 getDefaultViewport \<lparr>maxIterations = Num 2, colorScheme = ''grayscale''\<rparr> \<noteq> None
   \<and> map_option img_data
        (renderMandelbrot_fl math_sin 2 1 getDefaultViewport \<lparr>maxIterations = Num 2, colorScheme = ''grayscale''\<rparr>)
      = Some [127, 127, 127, 255, 0, 0, 0, 255]
   \<and> r_fl (getColor_fl math_sin (Num 1) (Num 2) ''grayscale'')
      = Num (real (unat (the (map_option img_data
          (renderMandelbrot_fl math_sin 2 1 getDefaultViewport \<lparr>maxIterations = Num 2, colorScheme = ''grayscale''\<rparr>)) ! 0)))"
proof -
  let ?opts = "\<lparr>maxIterations = Num 2, colorScheme = ''grayscale''\<rparr>"
  have hyp: "(0::nat) < 2" "(0::nat) < 1" "(2::nat) * 1 * 4 \<le> 2 ^ 53" "maxIterations ?opts = Num 2"
    "(2::real) \<le> 2 ^ 53"
    by simp_all
  have int: "(1::nat) \<le> 2" "(2::real) = real (2::nat)" by simp_all
  from renderMandelbrot_buffer [OF hyp, of math_sin getDefaultViewport]
  obtain image where image: "renderMandelbrot_fl math_sin 2 1 getDefaultViewport ?opts = Some image"
    and len: "length (img_data image) = 2 * 1 * 4"
    and px: "\<forall>py<1. \<forall>px<2. \<exists>iteration.
            calculateMandelbrot_fl
              (real_part (pixelToComplex_fl (Num (real px)) (Num (real py)) (Num (real 2)) (Num (real 1)) getDefaultViewport))
              (imaginary_part (pixelToComplex_fl (Num (real px)) (Num (real py)) (Num (real 2)) (Num (real 1)) getDefaultViewport))
              (maxIterations ?opts) = Some iteration
          \<and> (let color = getColor_fl math_sin iteration (maxIterations ?opts) (colorScheme ?opts);
                  index = (py * 2 + px) * 4;
                  buf = img_data image
              in buf ! index = to_uint8_clamped (r_fl color)
               \<and> buf ! (index + 1) = to_uint8_clamped (g_fl color)
               \<and> buf ! (index + 2) = to_uint8_clamped (b_fl color)
               \<and> buf ! (index + 3) = 255
               \<and> ((\<exists>n. 1 \<le> n \<and> 2 = real n) \<and> (\<forall>d. is_finite d \<longrightarrow> math_sin d \<noteq> NaN) \<longrightarrow>
                    r_fl color = Num (real (unat (buf ! index)))
                  \<and> g_fl color = Num (real (unat (buf ! (index + 1))))
                  \<and> b_fl color = Num (real (unat (buf ! (index + 2))))))"
    by blast
  have p0: "img_data image ! 0 = 127 \<and> img_data image ! 1 = 127 \<and> img_data image ! 2 = 127 \<and> img_data image ! 3 = 255"
    using px [rule_format, of 0 0]
    by (simp add: pixelToComplex_fl_examples calculateMandelbrot_fl_examples getColor_fl_examples
        to_uint8_clamped_def round_half_even_def Let_def numeral_2_eq_2)
  have ex: "\<exists>n::nat. 1 \<le> n \<and> (2::real) = real n" by (intro exI [of _ 2]) simp
  have c0: "r_fl (getColor_fl math_sin (Num 1) (Num 2) ''grayscale'') = Num (real (unat (img_data image ! 0)))"
    using px [rule_format, of 0 0] ex
    by (simp add: pixelToComplex_fl_examples calculateMandelbrot_fl_examples getColor_fl_examples
        math_sin_not_NaN to_uint8_clamped_def round_half_even_def Let_def)
  have p1: "img_data image ! 4 = 0 \<and> img_data image ! 5 = 0 \<and> img_data image ! 6 = 0 \<and> img_data image ! 7 = 255"
    using px [rule_format, of 0 1]
    by (simp add: pixelToComplex_fl_examples calculateMandelbrot_fl_examples getColor_fl_examples
        to_uint8_clamped_def round_half_even_def Let_def)
  have "img_data image = [127, 127, 127, 255, 0, 0, 0, 255]"
  proof (rule nth_equalityI)
    show "length (img_data image) = length [127, 127, 127, 255, 0, 0, 0, 255 :: 8 word]"
      using len by simp
    fix i assume "i < length (img_data image)"
    then have "i \<in> {0, 1, 2, 3, 4, 5, 6, 7}" using len by auto
    then show "img_data image ! i = [127, 127, 127, 255, 0, 0, 0, 255] ! i"
      using p0 p1 by auto
  qed
  with image have "renderMandelbrot_fl math_sin 2 1 getDefaultViewport ?opts \<noteq> None"
    "map_option img_data (renderMandelbrot_fl math_sin 2 1 getDefaultViewport ?opts)
      = Some [127, 127, 127, 255, 0, 0, 0, 255]"
    by simp_all
  moreover from image c0 have "r_fl (getColor_fl math_sin (Num 1) (Num 2) ''grayscale'')
      = Num (real (unat (the (map_option img_data
          (renderMandelbrot_fl math_sin 2 1 getDefaultViewport ?opts)) ! 0)))"
    by simp
  ultimately show ?thesis using hyp int by (simp only: simp_thms)
qed

end
